(* ===== verification/Prelude.thy ===== *)
theory Prelude
  imports Main
begin

text \<open>
  Shared vocabulary of the development: the ways a C routine of netresolve can go wrong
  (\<open>fault\<close>), the result type of routines that can go wrong, sequencing of such routines,
  and the generic facts about them that the component theories use. A routine that works on
  a state has type \<open>'s \<Rightarrow> fault + 's\<close>: \<open>Inr\<close> is the normal return, \<open>Inl\<close> the
  failed assertion, the call of \<open>abort()\<close> or the undefined behaviour reached. The named
  collections gather the frame, invariant and fault-freedom facts of the components.
\<close>

section \<open>Faults and sequencing\<close>

datatype fault =
    Assertion_failed
  | Aborted
  | Null_dereference
  | Out_of_bounds
  | Invalid_free
  | Out_of_fuel

type_synonym 'a res = "fault + 'a"

definition rbind :: "'a res \<Rightarrow> ('a \<Rightarrow> 'b res) \<Rightarrow> 'b res" where
  "rbind m f = (case m of Inl e \<Rightarrow> Inl e | Inr x \<Rightarrow> f x)"

definition assert_that :: "bool \<Rightarrow> 'a \<Rightarrow> 'a res" where
  "assert_that b x = (if b then Inr x else Inl Assertion_failed)"

lemma rbind_simps [simp]:
  "rbind (Inr x) f = f x"
  "rbind (Inl e) f = Inl e"
  by (simp_all add: rbind_def)

lemma rbind_Inr_iff [simp]:
  "rbind m f = Inr y \<longleftrightarrow> (\<exists>x. m = Inr x \<and> f x = Inr y)"
  by (cases m) simp_all

lemma rbind_Inl_iff [simp]:
  "rbind m f = Inl e \<longleftrightarrow> m = Inl e \<or> (\<exists>x. m = Inr x \<and> f x = Inl e)"
  by (cases m) auto

lemma rbind_assoc: "rbind (rbind m f) g = rbind m (\<lambda>x. rbind (f x) g)"
  by (cases m) simp_all

lemma rbind_Inr_id [simp]: "rbind m Inr = m"
  by (cases m) simp_all

lemma assert_that_simps [simp]:
  "assert_that True x = Inr x"
  "assert_that False x = Inl Assertion_failed"
  by (simp_all add: assert_that_def)

lemma assert_that_Inr_iff [simp]: "assert_that b x = Inr y \<longleftrightarrow> b \<and> y = x"
  by (auto simp: assert_that_def)

lemma assert_that_Inl_iff [simp]: "assert_that b x = Inl e \<longleftrightarrow> \<not> b \<and> e = Assertion_failed"
  by (auto simp: assert_that_def)

section \<open>Routines that keep a property of the state\<close>

text \<open>
  \<open>preserves I f\<close>: whenever \<open>f\<close> returns normally from a state with \<open>I\<close>, the
  new state has \<open>I\<close> as well. The introduction rules follow the ways routines are put
  together, so that invariant proofs are driven by the collection \<open>pres_intros\<close>.
\<close>

named_theorems pres_intros "introduction rules for preserves"
named_theorems frame_simps "fields that a routine leaves alone"

definition preserves :: "('s \<Rightarrow> bool) \<Rightarrow> ('s \<Rightarrow> 's res) \<Rightarrow> bool" where
  "preserves I f \<longleftrightarrow> (\<forall>s s'. I s \<longrightarrow> f s = Inr s' \<longrightarrow> I s')"

lemma preservesI: "(\<And>s s'. I s \<Longrightarrow> f s = Inr s' \<Longrightarrow> I s') \<Longrightarrow> preserves I f"
  by (auto simp: preserves_def)

lemma preservesD: "preserves I f \<Longrightarrow> I s \<Longrightarrow> f s = Inr s' \<Longrightarrow> I s'"
  by (auto simp: preserves_def)

lemma preserves_Inr [pres_intros]: "preserves I Inr"
  by (auto simp: preserves_def)

lemma preserves_Inl [pres_intros]: "preserves I (\<lambda>s. Inl e)"
  by (auto simp: preserves_def)

lemma preserves_bind [pres_intros]:
  assumes "preserves I f" and "preserves I g"
  shows "preserves I (\<lambda>s. rbind (f s) g)"
proof (rule preservesI)
  fix s s' assume s: "I s" and "rbind (f s) g = Inr s'"
  then obtain t where t: "f s = Inr t" and s': "g t = Inr s'" by auto
  from assms(1) s t have "I t" by (rule preservesD)
  with assms(2) show "I s'" using s' by (rule preservesD)
qed

lemma preserves_if [pres_intros]:
  assumes "preserves I f" and "preserves I g"
  shows "preserves I (\<lambda>s. if b s then f s else g s)"
proof (rule preservesI)
  fix s s' assume "I s" and "(if b s then f s else g s) = Inr s'"
  then have "I s" and "f s = Inr s' \<or> g s = Inr s'" by (auto split: if_splits)
  then show "I s'" by (blast dest: preservesD [OF assms(1)] preservesD [OF assms(2)])
qed

lemma preserves_assert [pres_intros]: "preserves I (\<lambda>s. assert_that (b s) s)"
  by (auto simp: preserves_def)

text \<open>
  \<open>returns F r P\<close>: the routine either ends in one of the faults \<open>F\<close> or returns a
  value with \<open>P\<close>. The rules below let a proof follow the sequencing of a routine.
\<close>

definition returns :: "fault set \<Rightarrow> 'a res \<Rightarrow> ('a \<Rightarrow> bool) \<Rightarrow> bool" where
  "returns F r P \<longleftrightarrow> (case r of Inl e \<Rightarrow> e \<in> F | Inr x \<Rightarrow> P x)"

lemma returns_simps [simp]:
  "returns F (Inr x) P \<longleftrightarrow> P x"
  "returns F (Inl e) P \<longleftrightarrow> e \<in> F"
  by (simp_all add: returns_def)

lemma returns_noneE: "returns {} r P \<Longrightarrow> \<exists>x. r = Inr x \<and> P x"
  by (cases r) simp_all

lemma returnsD: "returns F r P \<Longrightarrow> r = Inr x \<Longrightarrow> P x"
  by simp

lemma returns_bind:
  "returns F m P \<Longrightarrow> (\<And>x. P x \<Longrightarrow> returns F (f x) Q) \<Longrightarrow> returns F (rbind m f) Q"
  by (cases m) simp_all

lemma returns_mono:
  "returns F r P \<Longrightarrow> F \<subseteq> G \<Longrightarrow> (\<And>x. P x \<Longrightarrow> Q x) \<Longrightarrow> returns G r Q"
  by (cases r) auto

lemma returns_UNIV: "returns F r P \<Longrightarrow> returns UNIV r P"
  by (erule returns_mono) simp_all

lemma rbind_cong_on: "returns UNIV m P \<Longrightarrow> (\<And>x. P x \<Longrightarrow> f x = g x) \<Longrightarrow> rbind m f = rbind m g"
  by (cases m) simp_all

lemma returns_if:
  "(b \<Longrightarrow> returns F r P) \<Longrightarrow> (\<not> b \<Longrightarrow> returns F t P) \<Longrightarrow> returns F (if b then r else t) P"
  by simp

lemma returns_assert: "b \<Longrightarrow> P x \<Longrightarrow> returns F (assert_that b x) P"
  by simp

text \<open>A loop over a list, one routine call per element, stopping at the first fault.\<close>

fun foreach :: "('a \<Rightarrow> 's \<Rightarrow> 's res) \<Rightarrow> 'a list \<Rightarrow> 's \<Rightarrow> 's res" where
  "foreach f [] s = Inr s"
| "foreach f (x # xs) s = rbind (f x s) (foreach f xs)"

lemma preserves_foreach [pres_intros]:
  "(\<And>x. preserves I (f x)) \<Longrightarrow> preserves I (foreach f xs)"
proof (induction xs)
  case Nil
  show ?case by (auto simp: preserves_def)
next
  case (Cons x xs)
  have "preserves I (\<lambda>s. rbind (f x s) (foreach f xs))"
    by (rule preserves_bind) (use Cons in auto)
  then show ?case by (simp add: preserves_def)
qed

lemma foreach_append: "foreach f (xs @ ys) = (\<lambda>s. rbind (foreach f xs s) (foreach f ys))"
proof (induction xs)
  case Nil
  show ?case by simp
next
  case (Cons x xs)
  then show ?case by (intro ext) (simp add: rbind_assoc)
qed

lemma returns_foreach:
  "(\<And>x s. x \<in> set xs \<Longrightarrow> P s \<Longrightarrow> returns F (f x s) P) \<Longrightarrow> P s \<Longrightarrow> returns F (foreach f xs s) P"
proof (induction xs arbitrary: s)
  case Nil
  then show ?case by simp
next
  case (Cons x xs)
  have "returns F (f x s) P" using Cons.prems by simp
  then show ?case
    using Cons.IH Cons.prems(1) by (auto intro: returns_bind)
qed

text \<open>Two loops agree when their bodies agree on the states that can come up.\<close>

lemma foreach_cong:
  assumes "\<And>x s. x \<in> set xs \<Longrightarrow> P s \<Longrightarrow> f x s = g x s"
    and "\<And>x s. x \<in> set xs \<Longrightarrow> P s \<Longrightarrow> returns UNIV (g x s) P" and "P s"
  shows "foreach f xs s = foreach g xs s"
  using assms
proof (induction xs arbitrary: s)
  case Nil
  then show ?case by simp
next
  case (Cons x xs)
  have "f x s = g x s" "returns UNIV (g x s) P" using Cons.prems by simp_all
  then show ?case using Cons by (cases "g x s") auto
qed

section \<open>Lists\<close>

definition bool_int :: "bool \<Rightarrow> int" where
  "bool_int b = (if b then 1 else 0)"

lemma bool_int_simps [simp]: "bool_int True = 1" "bool_int False = 0"
  by (simp_all add: bool_int_def)

text \<open>The first position of a list with a property, the shape of every search loop.\<close>

fun find_index :: "('a \<Rightarrow> bool) \<Rightarrow> 'a list \<Rightarrow> nat" where
  "find_index p [] = 0"
| "find_index p (x # xs) = (if p x then 0 else Suc (find_index p xs))"

lemma find_index_le [simp]: "find_index p xs \<le> length xs"
  by (induction xs) auto

lemma find_index_less_iff: "find_index p xs < length xs \<longleftrightarrow> (\<exists>x \<in> set xs. p x)"
  by (induction xs) auto

lemma find_index_nth: "find_index p xs < length xs \<Longrightarrow> p (xs ! find_index p xs)"
  by (induction xs) auto

lemma find_index_before: "i < find_index p xs \<Longrightarrow> \<not> p (xs ! i)"
proof (induction xs arbitrary: i)
  case Nil
  then show ?case by simp
next
  case (Cons x xs)
  then show ?case by (cases i) (auto split: if_splits)
qed

lemma take_find_index: "take (find_index p xs) xs = takeWhile (\<lambda>x. \<not> p x) xs"
  by (induction xs) auto

lemma drop_find_index: "drop (find_index p xs) xs = dropWhile (\<lambda>x. \<not> p x) xs"
  by (induction xs) auto

lemma sum_list_update_int:
  "i < length xs \<Longrightarrow> sum_list (xs[i := v]) = sum_list xs - xs ! i + (v :: int)"
proof (induction xs arbitrary: i)
  case (Cons x xs)
  then show ?case by (cases i) auto
qed simp

end
