(* ===== verification/Clib.thy ===== *)
theory Clib
  imports Prelude "HOL-Library.Word"
begin

text \<open>
  The part of the C language and its library that the sources use: the numeric constants of
  the Linux headers, conversions between integer widths, and the string routines
  \<open>strtol\<close>, \<open>strtok_r\<close>, \<open>strchr\<close>, \<open>strcasecmp\<close> and the \<open>%d\<close> conversion of
  \<open>printf\<close>. A C string is the list of its characters without the terminating NUL.
\<close>

type_synonym byte = "8 word"

section \<open>Constants\<close>

abbreviation AF_UNSPEC :: int where "AF_UNSPEC \<equiv> 0"
abbreviation AF_UNIX :: int where "AF_UNIX \<equiv> 1"
abbreviation AF_INET :: int where "AF_INET \<equiv> 2"
abbreviation AF_INET6 :: int where "AF_INET6 \<equiv> 10"

abbreviation SOCK_STREAM :: int where "SOCK_STREAM \<equiv> 1"
abbreviation SOCK_DGRAM :: int where "SOCK_DGRAM \<equiv> 2"
abbreviation SOCK_RAW :: int where "SOCK_RAW \<equiv> 3"
abbreviation SOCK_SEQPACKET :: int where "SOCK_SEQPACKET \<equiv> 5"
abbreviation SOCK_DCCP :: int where "SOCK_DCCP \<equiv> 6"

abbreviation IPPROTO_TCP :: int where "IPPROTO_TCP \<equiv> 6"
abbreviation IPPROTO_UDP :: int where "IPPROTO_UDP \<equiv> 17"
abbreviation IPPROTO_DCCP :: int where "IPPROTO_DCCP \<equiv> 33"
abbreviation IPPROTO_SCTP :: int where "IPPROTO_SCTP \<equiv> 132"
abbreviation IPPROTO_UDPLITE :: int where "IPPROTO_UDPLITE \<equiv> 136"

abbreviation POLLIN :: int where "POLLIN \<equiv> 1"
abbreviation POLLOUT :: int where "POLLOUT \<equiv> 4"
abbreviation POLLHUP :: int where "POLLHUP \<equiv> 16"

abbreviation NUL :: char where "NUL \<equiv> CHR 0x00"
abbreviation TAB :: char where "TAB \<equiv> CHR 0x09"
abbreviation NL :: char where "NL \<equiv> CHR 0x0A"

section \<open>Integer widths\<close>

text \<open>Conversion of a wider integer to \<open>int\<close>, to \<open>uint16_t\<close>, and saturation at \<open>long\<close>.\<close>

definition to_int :: "int \<Rightarrow> int" where
  "to_int x = (x + 2147483648) mod 4294967296 - 2147483648"

definition to_uint16 :: "int \<Rightarrow> int" where
  "to_uint16 x = x mod 65536"

abbreviation LONG_MAX :: int where "LONG_MAX \<equiv> 9223372036854775807"
abbreviation LONG_MIN :: int where "LONG_MIN \<equiv> - 9223372036854775808"
abbreviation INT32_MAX :: int where "INT32_MAX \<equiv> 2147483647"

definition clamp_long :: "int \<Rightarrow> int" where
  "clamp_long x = max LONG_MIN (min LONG_MAX x)"

definition int_range :: "int \<Rightarrow> bool" where
  "int_range x \<longleftrightarrow> - 2147483648 \<le> x \<and> x < 2147483648"

lemma to_int_range [simp]: "int_range (to_int x)"
  by (simp add: to_int_def int_range_def)

lemma to_int_id [simp]: "int_range x \<Longrightarrow> to_int x = x"
  by (simp add: to_int_def int_range_def)

lemma to_uint16_range: "0 \<le> to_uint16 x \<and> to_uint16 x < 65536"
  by (simp add: to_uint16_def)

text \<open>Division and remainder of C, which truncate towards zero.\<close>

definition c_div :: "int \<Rightarrow> int \<Rightarrow> int" where
  "c_div a b = sgn a * sgn b * (\<bar>a\<bar> div \<bar>b\<bar>)"

definition c_mod :: "int \<Rightarrow> int \<Rightarrow> int" where
  "c_mod a b = a - b * c_div a b"

lemma c_div_nonneg: "0 \<le> a \<Longrightarrow> 0 < b \<Longrightarrow> c_div a b = a div b"
  by (cases "a = 0") (simp_all add: c_div_def)

lemma c_mod_nonneg: "0 \<le> a \<Longrightarrow> 0 < b \<Longrightarrow> c_mod a b = a mod b"
  by (simp add: c_mod_def c_div_nonneg minus_mult_div_eq_mod)

section \<open>Characters\<close>

definition isspace :: "char \<Rightarrow> bool" where
  "isspace c \<longleftrightarrow> c \<in> set [CHR '' '', CHR 0x09, CHR 0x0A, CHR 0x0B, CHR 0x0C, CHR 0x0D]"

definition isdigit :: "char \<Rightarrow> bool" where
  "isdigit c \<longleftrightarrow> 48 \<le> (of_char c :: nat) \<and> (of_char c :: nat) \<le> 57"

definition digit_value :: "char \<Rightarrow> int" where
  "digit_value c = int (of_char c) - 48"

definition digit_char :: "nat \<Rightarrow> char" where
  "digit_char d = char_of (48 + d)"

definition tolower :: "char \<Rightarrow> char" where
  "tolower c = (if 65 \<le> (of_char c :: nat) \<and> (of_char c :: nat) \<le> 90
     then char_of ((of_char c :: nat) + 32) else c)"

definition strcasecmp_eq :: "string \<Rightarrow> string \<Rightarrow> bool" where
  "strcasecmp_eq a b \<longleftrightarrow> map tolower a = map tolower b"

section \<open>strtol with base 10\<close>

definition digits_value :: "string \<Rightarrow> int" where
  "digits_value ds = foldl (\<lambda>a c. a * 10 + digit_value c) 0 ds"

definition strtol_sign :: "string \<Rightarrow> bool \<times> string" where
  "strtol_sign s = (case s of [] \<Rightarrow> (False, [])
     | c # cs \<Rightarrow> if c = CHR ''-'' then (True, cs)
                else if c = CHR ''+'' then (False, cs) else (False, s))"

text \<open>The value and what \<open>endptr\<close> points to; without digits that is the whole input.\<close>

definition strtol :: "string \<Rightarrow> int \<times> string" where
  "strtol s =
     (let (neg, u) = strtol_sign (dropWhile isspace s);
          ds = takeWhile isdigit u
      in if ds = [] then (0, s)
         else (clamp_long (if neg then - digits_value ds else digits_value ds),
               dropWhile isdigit u))"

section \<open>The decimal conversion of printf\<close>

fun show_nat :: "nat \<Rightarrow> string" where
  "show_nat n = (if n < 10 then [digit_char n] else show_nat (n div 10) @ [digit_char (n mod 10)])"

declare show_nat.simps [simp del]

definition show_int :: "int \<Rightarrow> string" where
  "show_int i = (if i < 0 then CHR ''-'' # show_nat (nat (- i)) else show_nat (nat i))"

lemma of_char_digit_char [simp]: "d < 10 \<Longrightarrow> of_char (digit_char d) = (48 + d :: nat)"
  by (simp add: digit_char_def of_char_of)

lemma isdigit_digit_char [simp]: "d < 10 \<Longrightarrow> isdigit (digit_char d)"
  by (simp add: isdigit_def)

lemma digit_value_digit_char [simp]: "d < 10 \<Longrightarrow> digit_value (digit_char d) = int d"
  by (simp add: digit_value_def)

lemma digits_value_snoc: "digits_value (ds @ [c]) = digits_value ds * 10 + digit_value c"
  by (simp add: digits_value_def)

lemma show_nat_digits: "\<forall>c \<in> set (show_nat n). isdigit c"
proof (induction n rule: show_nat.induct)
  case (1 n)
  then show ?case
    by (cases "n < 10") (auto simp: show_nat.simps [of n])
qed

lemma show_nat_not_Nil [simp]: "show_nat n \<noteq> []"
  by (subst show_nat.simps) simp

lemma digits_value_show_nat: "digits_value (show_nat n) = int n"
proof (induction n rule: show_nat.induct)
  case (1 n)
  show ?case
  proof (cases "n < 10")
    case True
    then show ?thesis by (simp add: show_nat.simps [of n] digits_value_def)
  next
    case False
    then have "digits_value (show_nat (n div 10)) = int (n div 10)" by (rule 1)
    then have "digits_value (show_nat n) = int (n div 10) * 10 + int (n mod 10)"
      using False by (simp add: show_nat.simps [of n] digits_value_snoc)
    then show ?thesis by (simp add: zdiv_int zmod_int)
  qed
qed

lemma isdigit_not_space: "isdigit c \<Longrightarrow> \<not> isspace c"
  by (auto simp: isdigit_def isspace_def)

lemma isdigit_not_sign: "isdigit c \<Longrightarrow> c \<noteq> CHR ''-'' \<and> c \<noteq> CHR ''+''"
  by (auto simp: isdigit_def)

lemma takeWhile_digits: "\<forall>c \<in> set ds. isdigit c \<Longrightarrow> takeWhile isdigit ds = ds"
  by (simp add: takeWhile_eq_all_conv)

lemma dropWhile_digits: "\<forall>c \<in> set ds. isdigit c \<Longrightarrow> dropWhile isdigit ds = []"
  by simp

lemma strtol_digits:
  assumes "ds \<noteq> []" and "\<forall>c \<in> set ds. isdigit c"
  shows "strtol ds = (clamp_long (digits_value ds), [])"
    and "strtol (CHR ''-'' # ds) = (clamp_long (- digits_value ds), [])"
proof -
  obtain c cs where ds: "ds = c # cs" using assms(1) by (cases ds) auto
  have "dropWhile isspace ds = ds"
    using assms(2) ds by (simp add: isdigit_not_space)
  moreover have "strtol_sign ds = (False, ds)"
    using assms(2) ds by (simp add: strtol_sign_def isdigit_not_sign)
  ultimately show "strtol ds = (clamp_long (digits_value ds), [])"
    using assms by (simp add: strtol_def takeWhile_digits)
  have "\<not> isspace CHR ''-''" by (simp add: isspace_def)
  then show "strtol (CHR ''-'' # ds) = (clamp_long (- digits_value ds), [])"
    using assms by (simp add: strtol_def strtol_sign_def takeWhile_digits)
qed

lemma strtol_show_int:
  assumes "LONG_MIN \<le> i" and "i \<le> LONG_MAX"
  shows "strtol (show_int i) = (i, [])"
proof (cases "i < 0")
  case True
  with assms show ?thesis
    by (simp add: show_int_def strtol_digits(2) show_nat_digits digits_value_show_nat clamp_long_def)
next
  case False
  with assms show ?thesis
    by (simp add: show_int_def strtol_digits(1) show_nat_digits digits_value_show_nat clamp_long_def)
qed

text \<open>The result of \<open>strtol\<close> always fits a \<open>long\<close>.\<close>

lemma strtol_range: "LONG_MIN \<le> fst (strtol s) \<and> fst (strtol s) \<le> LONG_MAX"
  by (simp add: strtol_def clamp_long_def Let_def split: prod.splits)

section \<open>strtok_r and strchr\<close>

text \<open>
  One call of \<open>strtok_r\<close>: skip delimiters, and return the token together with what the
  save pointer points to afterwards (behind the delimiter that was overwritten).
\<close>

definition strtok :: "string \<Rightarrow> string \<Rightarrow> string option \<times> string" where
  "strtok delims s =
     (let t = dropWhile (\<lambda>c. c \<in> set delims) s
      in if t = [] then (None, [])
         else (Some (takeWhile (\<lambda>c. c \<notin> set delims) t),
               drop 1 (dropWhile (\<lambda>c. c \<notin> set delims) t)))"

lemma strtok_rest_shorter:
  "strtok delims s = (Some tok, rest) \<Longrightarrow> length rest < length s"
proof -
  assume a: "strtok delims s = (Some tok, rest)"
  let ?t = "dropWhile (\<lambda>c. c \<in> set delims) s"
  from a have t: "?t \<noteq> []" and r: "rest = drop 1 (dropWhile (\<lambda>c. c \<notin> set delims) ?t)"
    by (auto simp: strtok_def Let_def split: if_splits)
  then have "?t = hd ?t # tl ?t" by simp
  moreover have "hd ?t \<notin> set delims" using t hd_dropWhile by blast
  ultimately have "dropWhile (\<lambda>c. c \<notin> set delims) ?t = dropWhile (\<lambda>c. c \<notin> set delims) (tl ?t)"
    by (metis dropWhile.simps(2))
  then have "length rest \<le> length (tl ?t)"
    using r length_dropWhile_le [of "\<lambda>c. c \<notin> set delims" "tl ?t"] by simp
  also have "\<dots> < length ?t" using t by (simp add: Nitpick.size_list_simp(2))
  also have "\<dots> \<le> length s" by (rule length_dropWhile_le)
  finally show ?thesis .
qed

lemma strtok_Nil [simp]: "strtok delims [] = (None, [])"
  by (simp add: strtok_def)

lemma strtok_word:
  assumes "word \<noteq> []" and "set word \<inter> set delims = {}"
  shows "strtok delims word = (Some word, [])"
    and "d \<in> set delims \<Longrightarrow> strtok delims (word @ d # rest) = (Some word, rest)"
proof -
  obtain c w where cw: "word = c # w" using assms(1) by (cases word) auto
  have skip: "dropWhile (\<lambda>c. c \<in> set delims) (word @ t) = word @ t" for t
    using assms(2) cw by simp
  have tk: "takeWhile (\<lambda>c. c \<notin> set delims) word = word"
    and dw: "dropWhile (\<lambda>c. c \<notin> set delims) word = []"
    using assms(2) by (auto simp: takeWhile_eq_all_conv)
  show "strtok delims word = (Some word, [])"
    using skip [of "[]"] tk dw assms(1) by (simp add: strtok_def Let_def del: dropWhile_eq_Nil_conv)
  assume d: "d \<in> set delims"
  have word: "c \<notin> set delims" if "c \<in> set word" for c
    using assms(2) that by auto
  have "takeWhile (\<lambda>c. c \<notin> set delims) (word @ d # rest) = word"
    using word d by (simp add: takeWhile_append2)
  moreover have "dropWhile (\<lambda>c. c \<notin> set delims) (word @ d # rest) = d # rest"
    using word d by (simp add: dropWhile_append2)
  ultimately show "strtok delims (word @ d # rest) = (Some word, rest)"
    using skip [of "d # rest"] by (simp add: strtok_def Let_def del: dropWhile_eq_Nil_conv)
qed

text \<open>All remaining tokens, as the loop \<open>while ((t = strtok_r(NULL, delims, &p)))\<close> sees them.\<close>

function strtok_all :: "string \<Rightarrow> string \<Rightarrow> string list" where
  "strtok_all delims s =
     (case strtok delims s of (None, _) \<Rightarrow> [] | (Some tok, rest) \<Rightarrow> tok # strtok_all delims rest)"
  by pat_completeness auto
termination
  by (relation "measure (\<lambda>(delims, s). length s)") (auto dest: strtok_rest_shorter [OF sym])

declare strtok_all.simps [simp del]

text \<open>The text before the first occurrence of a character, and the text behind it.\<close>

definition split_at :: "char \<Rightarrow> string \<Rightarrow> string \<times> string option" where
  "split_at c s =
     (let rest = dropWhile (\<lambda>x. x \<noteq> c) s
      in (takeWhile (\<lambda>x. x \<noteq> c) s, if rest = [] then None else Some (tl rest)))"

text \<open>The C string stored at the start of a character array.\<close>

definition cstring :: "string \<Rightarrow> string" where
  "cstring buf = takeWhile (\<lambda>c. c \<noteq> NUL) buf"

end
