(* ===== verification/Types.thy ===== *)
theory Types
  imports Clib
begin

text \<open>
  The data of the library, after \<open>include/netresolve-private.h\<close> and
  \<open>include/netresolve.h\<close>. Structures are records, enumerations are datatypes, C integers
  are \<open>int\<close>, \<open>char *\<close> is \<open>string option\<close> (\<open>None\<close> is NULL). The
  1024-byte address unions are byte lists: the bytes behind the end of the list are zero.
  Function pointers are datatypes that name the function; what stands behind them is the
  parameter record \<open>code\<close>. What the kernel, the C library's name tables and the loader
  answer is the parameter record \<open>env\<close>. Heap memory is not modelled: allocation
  succeeds and \<open>free\<close> has no effect, except where a routine follows a null pointer.
\<close>

section \<open>Enumerations\<close>

datatype netresolve_state =
    STATE_NONE | STATE_SETUP | STATE_WAITING | STATE_WAITING_MORE
  | STATE_RESOLVED | STATE_DONE | STATE_ERROR | STATE_FAILED

datatype netresolve_socket_state =
    SOCKET_STATE_NONE | SOCKET_STATE_SCHEDULED | SOCKET_STATE_READY | SOCKET_STATE_DONE

datatype netresolve_request_type = REQUEST_FORWARD | REQUEST_REVERSE | REQUEST_DNS

datatype netresolve_security = SECURITY_INSECURE | SECURITY_SECURE

text \<open>
  An option together with its argument, as the variadic configuration calls pass it. The end of
  an option list is \<open>NETRESOLVE_OPTION_DONE\<close>; \<open>OPTION_OTHER\<close> is any other number.
\<close>

datatype netresolve_option =
    OPTION_DEFAULT_LOOPBACK bool
  | OPTION_DNS_SRV_LOOKUP bool
  | OPTION_NODE_NAME "string option"
  | OPTION_SERVICE_NAME "string option"
  | OPTION_FAMILY int
  | OPTION_SOCKTYPE int
  | OPTION_PROTOCOL int
  | OPTION_IFINDEX int
  | OPTION_IP4_ADDRESS "byte list"
  | OPTION_IP6_ADDRESS "byte list"
  | OPTION_PORT int
  | OPTION_DNS_NAME "string option"
  | OPTION_DNS_CLASS int
  | OPTION_DNS_TYPE int
  | OPTION_OTHER int

section \<open>Byte arrays\<close>

text \<open>Reading \<open>n\<close> bytes of a zero-padded array, and overwriting its first \<open>n\<close> bytes.\<close>

definition mem_read :: "nat \<Rightarrow> byte list \<Rightarrow> byte list" where
  "mem_read n bs = take n bs @ replicate (n - length bs) 0"

definition mem_write :: "nat \<Rightarrow> byte list \<Rightarrow> byte list \<Rightarrow> byte list" where
  "mem_write n src bs = mem_read n src @ drop n bs"

definition byte_of_char :: "char \<Rightarrow> byte" where
  "byte_of_char c = of_nat (of_char c)"

definition bytes_of_string :: "string \<Rightarrow> byte list" where
  "bytes_of_string s = map byte_of_char s"

definition string_of_bytes :: "byte list \<Rightarrow> string" where
  "string_of_bytes bs = map (\<lambda>b. char_of (unat b)) (takeWhile (\<lambda>b. b \<noteq> 0) bs)"

lemma length_mem_read [simp]: "length (mem_read n bs) = n"
  by (simp add: mem_read_def)

lemma mem_read_exact: "length bs = n \<Longrightarrow> mem_read n bs = bs"
  by (simp add: mem_read_def)

lemma mem_read_write: "mem_read n (mem_write n src bs) = mem_read n src"
  by (simp add: mem_read_def mem_write_def)

lemma unat_byte_of_char [simp]: "unat (byte_of_char c) = (of_char c :: nat)"
proof -
  have "(of_char c :: nat) < 256" by (rule nat_of_char_less_256)
  then show ?thesis by (simp add: byte_of_char_def unat_of_nat)
qed

lemma byte_of_char_nonzero: "c \<noteq> NUL \<Longrightarrow> byte_of_char c \<noteq> 0"
proof
  assume c: "c \<noteq> NUL" and "byte_of_char c = 0"
  then have "(of_char c :: nat) = 0" by (metis unat_byte_of_char unat_0)
  then have "of_char c = (of_char NUL :: nat)" by simp
  then show False using c by (simp only: of_char_eq_iff)
qed

lemma string_of_bytes_of_string:
  assumes "NUL \<notin> set s"
  shows "string_of_bytes (bytes_of_string s) = s"
proof -
  have "\<forall>c \<in> set s. byte_of_char c \<noteq> 0"
    using assms byte_of_char_nonzero by metis
  then have "takeWhile (\<lambda>b. b \<noteq> 0) (bytes_of_string s) = bytes_of_string s"
    by (auto simp: bytes_of_string_def takeWhile_eq_all_conv)
  then have "string_of_bytes (bytes_of_string s) = map (\<lambda>b. char_of (unat b)) (bytes_of_string s)"
    by (simp only: string_of_bytes_def)
  also have "\<dots> = s"
    by (simp add: bytes_of_string_def map_idI)
  finally show ?thesis .
qed

section \<open>Requests, paths and responses\<close>

record netresolve_request =
  rq_type :: netresolve_request_type
  rq_nodename :: "string option"
  rq_family :: int
  rq_servname :: "string option"
  rq_socktype :: int
  rq_protocol :: int
  rq_port :: int
  rq_default_loopback :: bool
  rq_dns_srv_lookup :: bool
  rq_dns_search :: bool
  rq_clamp_ttl :: int
  rq_address :: "byte list"
  rq_ifindex :: int
  rq_dns_name :: "string option"
  rq_dns_class :: int
  rq_dns_type :: int
  rq_request_timeout :: int
  rq_result_timeout :: int

record netresolve_path =
  node_family :: int
  node_address :: "byte list"
  node_ifindex :: int
  node_reachable :: bool
  service_socktype :: int
  service_protocol :: int
  service_port :: int
  path_priority :: int
  path_weight :: int
  path_ttl :: int
  socket_state :: netresolve_socket_state
  socket_watch :: "nat option"
  socket_fd :: int

text \<open>
  The array of paths is NULL until the first path is added; an existing array ends with a
  zeroed element, so that a scan over the paths sees the list up to an element whose family
  is zero.
\<close>

record netresolve_response =
  rs_paths :: "netresolve_path list option"
  rs_nodename :: "string option"
  rs_servname :: "string option"
  rs_dns_answer :: "byte list option"
  rs_security :: netresolve_security

definition path_list :: "netresolve_response \<Rightarrow> netresolve_path list" where
  "path_list r = (case rs_paths r of None \<Rightarrow> [] | Some ps \<Rightarrow> ps)"

record netresolve_service =
  sv_protocol :: int
  sv_port :: int
  sv_name :: "string option"

record netresolve_service_list =
  sl_items :: "netresolve_service list option"
  sl_count :: nat
  sl_reserved :: nat

section \<open>Watches, queries and contexts\<close>

datatype watch_callback =
    CB_NULL | CB_timeout | CB_connect_ready | CB_accept | CB_backend string

datatype timeout_callback =
    TCB_NULL | TCB_request_timeout | TCB_result_timeout | TCB_delayed
  | TCB_connect_timeout | TCB_connect_priority_timeout | TCB_backend string

datatype watch_data = DATA_NULL | DATA_path nat | DATA_socket | DATA_priv

record netresolve_watch =
  w_id :: nat
  w_fd :: int
  w_callback :: watch_callback
  w_timeout_callback :: timeout_callback
  w_data :: watch_data

datatype query_callback = QC_connect_prepare | QC_listen_callback | QC_application nat

text \<open>The private structure of the socket API, reached through the query's user data.\<close>

record netresolve_socket =
  so_query :: bool
  so_callback :: "nat option"
  so_flags :: int
  so_timeout :: "nat option"
  so_priority_timeout :: "nat option"
  so_skip_scheduled :: bool
  so_sequential_connect :: bool

datatype user_data = UD_NULL | UD_socket netresolve_socket | UD_application nat

text \<open>Socket addresses; ports are kept as the two bytes in network order.\<close>

datatype sockaddr =
    Sockaddr_in (sin_port: "16 word") (sin_addr: "byte list")
  | Sockaddr_in6 (sin6_port: "16 word") (sin6_scope_id: int) (sin6_addr: "byte list")

record netresolve_query =
  q_watches :: "netresolve_watch list"
  q_callback :: "query_callback option"
  q_user_data :: user_data
  q_state :: netresolve_state
  q_nfds :: int
  q_delayed :: "nat option"
  q_request_timeout :: "nat option"
  q_result_timeout :: "nat option"
  q_backend :: nat
  q_request :: netresolve_request
  q_response :: netresolve_response
  q_services :: "netresolve_service_list option"
  q_sa_buffer :: "sockaddr option"
  q_buffer :: string

text \<open>
  The private data of the backends that keep some between calls. The DNS backend: the head and the
  elements of its list of services, and the lookups that its resolver context still has to answer
  (each with the service it is for, the head having none); NULL is a missing context. The backend
  that runs a command: what is left to be written, and the whole buffer for what is read. The
  handle of another backend is a number.
\<close>

record priv_srv =
  srv_priority :: int
  srv_weight :: int
  srv_port :: int
  srv_name :: "string option"

record dns_lookup =
  lk_srv :: "nat option"
  lk_name :: string
  lk_type :: int
  lk_class :: int

text \<open>The descriptors of the c-ares channel and the watches on them, used in the build with c-ares.\<close>

record priv_ares =
  ar_rfds :: "int list"
  ar_wfds :: "int list"
  ar_nfds :: int
  ar_watches :: "(int \<times> nat) list"

record priv_dns =
  dn_protocol :: int
  dn_family :: int
  dn_address :: "byte list"
  dn_cls :: int
  dn_type :: int
  dn_srv :: priv_srv
  dn_srvs :: "priv_srv list"
  dn_pending :: int
  dn_answered :: bool
  dn_failed :: bool
  dn_secure :: bool
  dn_ctx :: "dns_lookup list option"
  dn_validate :: bool
  dn_watch :: "nat option"
  dn_ares :: priv_ares

record priv_exec =
  ex_inbuf :: string
  ex_input :: "nat option"
  ex_outbuf :: "string option"
  ex_start :: nat
  ex_output :: "nat option"

datatype priv = Priv nat | Priv_dns priv_dns | Priv_exec priv_exec

text \<open>
  A loaded backend. Its module is named by the first setting; the three setup entry points are
  present or NULL. \<open>be_cleanup\<close> tells whether a cleanup function has been registered and
  \<open>be_data\<close> is the private data (opaque to the core) or NULL.
\<close>

record netresolve_backend =
  be_mandatory :: bool
  be_settings :: "string list"
  be_setup_forward :: bool
  be_setup_reverse :: bool
  be_setup_dns :: bool
  be_cleanup :: bool
  be_data :: "priv option"

definition be_setup :: "netresolve_backend \<Rightarrow> netresolve_request_type \<Rightarrow> bool" where
  "be_setup b t = (case t of REQUEST_FORWARD \<Rightarrow> be_setup_forward b
     | REQUEST_REVERSE \<Rightarrow> be_setup_reverse b | REQUEST_DNS \<Rightarrow> be_setup_dns b)"

text \<open>
  The epoll loop of the library. \<open>ep_events\<close> is the array filled by the last
  \<open>epoll_wait\<close>, each entry with the watch pointer (or NULL once disabled) and the events;
  \<open>ep_interest\<close> is the kernel's interest list of the epoll descriptor.
\<close>

record netresolve_epoll =
  ep_fd :: int
  ep_count :: int
  ep_nevents :: int
  ep_events :: "(nat option \<times> int) list option"
  ep_interest :: "(int \<times> nat) list"

record netresolve_select =
  se_rfds :: "int list"
  se_wfds :: "int list"
  se_nfds :: int
  se_sources :: "int \<Rightarrow> nat option"

datatype fd_callbacks =
    FD_NONE | FD_EPOLL_INTERNAL | FD_EPOLL | FD_SELECT | FD_APPLICATION

record netresolve_context =
  cx_request :: netresolve_request
  cx_epoll :: netresolve_epoll
  cx_select :: netresolve_select
  cx_nfds :: int
  cx_backends :: "netresolve_backend list option"
  cx_callbacks :: fd_callbacks
  cx_force_family :: int

text \<open>
  The kernel side: the open descriptors of the process, their limit, a counter that names
  allocated watches, a counter of system calls (so that an answer of \<open>env\<close> may depend on
  when it is asked), the log of the query callbacks that have been called, and the log of the
  sockets passed to the application, each with the index of its path.
\<close>

record os =
  os_open_fds :: "int list"
  os_fd_limit :: nat
  os_next_watch :: nat
  os_clock :: nat
  os_calls :: "(query_callback \<times> netresolve_state) list"
  os_sockets :: "(nat \<times> int) list"

text \<open>A routine of the library works on one query, its context and the process.\<close>

record sys =
  s_os :: os
  s_ctx :: netresolve_context
  s_query :: netresolve_query

section \<open>Result structures of the C library\<close>

record addrinfo =
  ai_flags :: int
  ai_family :: int
  ai_socktype :: int
  ai_protocol :: int
  ai_addr :: "sockaddr option"

datatype nss_status =
  NSS_STATUS_TRYAGAIN | NSS_STATUS_UNAVAIL | NSS_STATUS_NOTFOUND | NSS_STATUS_SUCCESS | NSS_STATUS_RETURN

record gaih_addrtuple =
  at_family :: int
  at_addr :: "byte list"
  at_scopeid :: int

record hostent =
  h_name :: "string option"
  h_addrtype :: int
  h_addr_list :: "byte list list"

section \<open>Parameters\<close>

text \<open>
  What the outside answers: the environment, files, interfaces, loadable modules, the resolver
  functions of the C library, and the entry points of a name service module (given its file).
\<close>

record ifaddr =
  ifa_family :: "int option"
  ifa_address :: "byte list"
  ifa_scope_id :: int

record env =
  secure_getenv :: "string \<Rightarrow> string option"
  getenv :: "string \<Rightarrow> string option"
  open_read :: "string \<Rightarrow> string list option"
  inet_pton :: "int \<Rightarrow> string \<Rightarrow> byte list option"
  inet_ntop :: "int \<Rightarrow> byte list \<Rightarrow> string"
  if_nametoindex :: "string \<Rightarrow> int"
  if_indextoname :: "int \<Rightarrow> string option"
  udp_connect :: "int \<Rightarrow> byte list \<Rightarrow> int \<Rightarrow> bool"
  dlopen :: "string \<Rightarrow> bool"
  dlsym :: "string \<Rightarrow> string \<Rightarrow> bool"
  uname_nodename :: string
  getifaddrs :: "ifaddr list option"
  libc_getaddrinfo :: "string option \<Rightarrow> string option \<Rightarrow> addrinfo \<Rightarrow> int \<times> addrinfo list"
  libc_getnameinfo :: "sockaddr \<Rightarrow> int \<Rightarrow> (string \<times> string) option"
  libc_res_query :: "bool \<Rightarrow> string option \<Rightarrow> int \<Rightarrow> int \<Rightarrow> (nat \<times> byte list) option"
  nss_getaddrinfo :: "string \<Rightarrow> string option \<Rightarrow> string option \<Rightarrow> addrinfo \<Rightarrow> int \<times> addrinfo list \<times> int"
  nss_gethostbyname4_r :: "string \<Rightarrow> string \<Rightarrow> nss_status \<times> gaih_addrtuple list \<times> int"
  nss_gethostbyname3_r :: "string \<Rightarrow> string \<Rightarrow> int \<Rightarrow> nss_status \<times> hostent \<times> int \<times> string option"
  nss_gethostbyname2_r :: "string \<Rightarrow> string \<Rightarrow> int \<Rightarrow> nss_status \<times> hostent"
  nss_gethostbyname_r :: "string \<Rightarrow> string \<Rightarrow> nss_status \<times> hostent"

type_synonym set_state = "netresolve_state \<Rightarrow> sys \<Rightarrow> sys res"

text \<open>
  The code behind the function pointers: a backend's setup entry point (given the module, the
  request type, the \<open>netresolve_query_set_state\<close> it calls back into and its settings), its
  cleanup function, the query callbacks, and the watch callbacks outside the core.
\<close>

record code =
  c_setup :: "string \<Rightarrow> netresolve_request_type \<Rightarrow> set_state \<Rightarrow> string list \<Rightarrow> sys \<Rightarrow> sys res"
  c_cleanup :: "string \<Rightarrow> priv option \<Rightarrow> sys \<Rightarrow> sys res"
  c_query_callback :: "query_callback \<Rightarrow> sys \<Rightarrow> sys res"
  c_watch_callback :: "netresolve_watch \<Rightarrow> int \<Rightarrow> set_state \<Rightarrow> sys \<Rightarrow> sys res"
  c_timeout_callback :: "netresolve_watch \<Rightarrow> set_state \<Rightarrow> sys \<Rightarrow> sys res"

section \<open>Accessors used throughout\<close>

definition upd_query :: "(netresolve_query \<Rightarrow> netresolve_query) \<Rightarrow> sys \<Rightarrow> sys" where
  "upd_query f s = s\<lparr>s_query := f (s_query s)\<rparr>"

definition upd_ctx :: "(netresolve_context \<Rightarrow> netresolve_context) \<Rightarrow> sys \<Rightarrow> sys" where
  "upd_ctx f s = s\<lparr>s_ctx := f (s_ctx s)\<rparr>"

definition upd_os :: "(os \<Rightarrow> os) \<Rightarrow> sys \<Rightarrow> sys" where
  "upd_os f s = s\<lparr>s_os := f (s_os s)\<rparr>"

definition upd_response :: "(netresolve_response \<Rightarrow> netresolve_response) \<Rightarrow> sys \<Rightarrow> sys" where
  "upd_response f = upd_query (\<lambda>q. q\<lparr>q_response := f (q_response q)\<rparr>)"

definition upd_request :: "(netresolve_request \<Rightarrow> netresolve_request) \<Rightarrow> sys \<Rightarrow> sys" where
  "upd_request f = upd_query (\<lambda>q. q\<lparr>q_request := f (q_request q)\<rparr>)"

abbreviation state_of :: "sys \<Rightarrow> netresolve_state" where
  "state_of s \<equiv> q_state (s_query s)"

abbreviation request_of :: "sys \<Rightarrow> netresolve_request" where
  "request_of s \<equiv> q_request (s_query s)"

abbreviation response_of :: "sys \<Rightarrow> netresolve_response" where
  "response_of s \<equiv> q_response (s_query s)"

definition backend_list :: "sys \<Rightarrow> netresolve_backend list" where
  "backend_list s = (case cx_backends (s_ctx s) of None \<Rightarrow> [] | Some bs \<Rightarrow> bs)"

text \<open>\<open>*query->backend\<close>: the current backend, or NULL at the end of the array.\<close>

definition current_backend :: "sys \<Rightarrow> netresolve_backend option" where
  "current_backend s =
     (if q_backend (s_query s) < length (backend_list s)
      then Some (backend_list s ! q_backend (s_query s)) else None)"

lemma upd_simps [simp]:
  "s_query (upd_query f s) = f (s_query s)"
  "s_ctx (upd_query f s) = s_ctx s"
  "s_os (upd_query f s) = s_os s"
  "s_query (upd_ctx g s) = s_query s"
  "s_ctx (upd_ctx g s) = g (s_ctx s)"
  "s_os (upd_ctx g s) = s_os s"
  "s_query (upd_os h s) = s_query s"
  "s_ctx (upd_os h s) = s_ctx s"
  "s_os (upd_os h s) = h (s_os s)"
  by (simp_all add: upd_query_def upd_ctx_def upd_os_def)

lemma upd_response_simps [simp]:
  "s_query (upd_response f s) = (s_query s)\<lparr>q_response := f (q_response (s_query s))\<rparr>"
  "s_ctx (upd_response f s) = s_ctx s"
  "s_os (upd_response f s) = s_os s"
  "s_query (upd_request g s) = (s_query s)\<lparr>q_request := g (q_request (s_query s))\<rparr>"
  "s_ctx (upd_request g s) = s_ctx s"
  "s_os (upd_request g s) = s_os s"
  by (simp_all add: upd_response_def upd_request_def)

text \<open>Zero-initialised structures, as \<open>calloc\<close> delivers them.\<close>

definition zero_request :: netresolve_request where
  "zero_request = \<lparr>rq_type = REQUEST_FORWARD, rq_nodename = None, rq_family = 0,
     rq_servname = None, rq_socktype = 0, rq_protocol = 0, rq_port = 0,
     rq_default_loopback = False, rq_dns_srv_lookup = False, rq_dns_search = False,
     rq_clamp_ttl = 0, rq_address = [], rq_ifindex = 0, rq_dns_name = None,
     rq_dns_class = 0, rq_dns_type = 0, rq_request_timeout = 0, rq_result_timeout = 0\<rparr>"

definition zero_response :: netresolve_response where
  "zero_response = \<lparr>rs_paths = None, rs_nodename = None, rs_servname = None,
     rs_dns_answer = None, rs_security = SECURITY_INSECURE\<rparr>"

definition zero_query :: netresolve_query where
  "zero_query = \<lparr>q_watches = [], q_callback = None, q_user_data = UD_NULL,
     q_state = STATE_NONE, q_nfds = 0, q_delayed = None, q_request_timeout = None,
     q_result_timeout = None, q_backend = 0, q_request = zero_request,
     q_response = zero_response, q_services = None, q_sa_buffer = None, q_buffer = []\<rparr>"

definition zero_epoll :: netresolve_epoll where
  "zero_epoll = \<lparr>ep_fd = 0, ep_count = 0, ep_nevents = 0, ep_events = None, ep_interest = []\<rparr>"

definition zero_select :: netresolve_select where
  "zero_select = \<lparr>se_rfds = [], se_wfds = [], se_nfds = 0, se_sources = Map.empty\<rparr>"

definition zero_context :: netresolve_context where
  "zero_context = \<lparr>cx_request = zero_request, cx_epoll = zero_epoll, cx_select = zero_select,
     cx_nfds = 0, cx_backends = None, cx_callbacks = FD_NONE, cx_force_family = 0\<rparr>"

lemmas zero_defs = zero_request_def zero_response_def zero_query_def zero_epoll_def
  zero_select_def zero_context_def

section \<open>Environment variables\<close>

definition getenv_bool :: "env \<Rightarrow> string \<Rightarrow> bool \<Rightarrow> bool" where
  "getenv_bool E name dflt = (case secure_getenv E name of
     None \<Rightarrow> dflt
   | Some v \<Rightarrow> strcasecmp_eq v ''yes'' \<or> strcasecmp_eq v ''true'' \<or> strcasecmp_eq v ''1'')"

definition getenv_int :: "env \<Rightarrow> string \<Rightarrow> int \<Rightarrow> int" where
  "getenv_int E name dflt = (case secure_getenv E name of
     None \<Rightarrow> dflt | Some v \<Rightarrow> to_int (fst (strtol v)))"

end
