(* ===== verification/Request.thy ===== *)
theory Request
  imports Types
begin

text \<open>
  Request options, after \<open>lib/request.c\<close>: setting them from an option list, as the
  configuration calls and the query constructors do, and reading them back.
\<close>

section \<open>Setting options\<close>

definition copy_positive :: "int \<Rightarrow> int \<Rightarrow> int" where
  "copy_positive target source = (if source > 0 then source else target)"

fun set_option :: "netresolve_request \<Rightarrow> netresolve_option \<Rightarrow> netresolve_request option" where
  "set_option r (OPTION_NODE_NAME s) = Some (r\<lparr>rq_nodename := s\<rparr>)"
| "set_option r (OPTION_SERVICE_NAME s) = Some (r\<lparr>rq_servname := s\<rparr>)"
| "set_option r (OPTION_FAMILY n) = Some (r\<lparr>rq_family := copy_positive (rq_family r) n\<rparr>)"
| "set_option r (OPTION_SOCKTYPE n) = Some (r\<lparr>rq_socktype := copy_positive (rq_socktype r) n\<rparr>)"
| "set_option r (OPTION_PROTOCOL n) = Some (r\<lparr>rq_protocol := copy_positive (rq_protocol r) n\<rparr>)"
| "set_option r (OPTION_IFINDEX n) = Some (r\<lparr>rq_ifindex := copy_positive (rq_ifindex r) n\<rparr>)"
| "set_option r (OPTION_IP4_ADDRESS a) =
     Some (r\<lparr>rq_family := AF_INET, rq_address := mem_write 4 a (rq_address r)\<rparr>)"
| "set_option r (OPTION_IP6_ADDRESS a) =
     Some (r\<lparr>rq_family := AF_INET6, rq_address := mem_write 16 a (rq_address r)\<rparr>)"
| "set_option r (OPTION_PORT n) = Some (r\<lparr>rq_port := copy_positive (rq_port r) n\<rparr>)"
| "set_option r (OPTION_DNS_NAME s) = Some (r\<lparr>rq_dns_name := s\<rparr>)"
| "set_option r (OPTION_DNS_CLASS n) = Some (r\<lparr>rq_dns_class := n\<rparr>)"
| "set_option r (OPTION_DNS_TYPE n) = Some (r\<lparr>rq_dns_type := n\<rparr>)"
| "set_option r (OPTION_DEFAULT_LOOPBACK b) = Some (r\<lparr>rq_default_loopback := b\<rparr>)"
| "set_option r (OPTION_DNS_SRV_LOOKUP b) = Some (r\<lparr>rq_dns_srv_lookup := b\<rparr>)"
| "set_option r (OPTION_OTHER n) = None"

text \<open>The loop returns false at the first unknown option, keeping what was set before it.\<close>

fun netresolve_request_set_options_from_va ::
    "netresolve_request \<Rightarrow> netresolve_option list \<Rightarrow> bool \<times> netresolve_request" where
  "netresolve_request_set_options_from_va r [] = (True, r)"
| "netresolve_request_set_options_from_va r (o1 # os) =
     (case set_option r o1 of None \<Rightarrow> (False, r)
      | Some r' \<Rightarrow> netresolve_request_set_options_from_va r' os)"

section \<open>Reading options\<close>

text \<open>The numbers of the enumeration and the value behind the argument pointer.\<close>

fun option_code :: "netresolve_option \<Rightarrow> int" where
  "option_code (OPTION_DEFAULT_LOOPBACK _) = 0x10"
| "option_code (OPTION_DNS_SRV_LOOKUP _) = 0x11"
| "option_code (OPTION_NODE_NAME _) = 0x100"
| "option_code (OPTION_SERVICE_NAME _) = 0x101"
| "option_code (OPTION_FAMILY _) = 0x110"
| "option_code (OPTION_SOCKTYPE _) = 0x111"
| "option_code (OPTION_PROTOCOL _) = 0x112"
| "option_code (OPTION_IFINDEX _) = 0x200"
| "option_code (OPTION_IP4_ADDRESS _) = 0x210"
| "option_code (OPTION_IP6_ADDRESS _) = 0x211"
| "option_code (OPTION_PORT _) = 0x220"
| "option_code (OPTION_DNS_NAME _) = 0x300"
| "option_code (OPTION_DNS_CLASS _) = 0x301"
| "option_code (OPTION_DNS_TYPE _) = 0x302"
| "option_code (OPTION_OTHER n) = n"

datatype option_value =
    VALUE_bool bool | VALUE_string "string option" | VALUE_int int | VALUE_address "byte list"

definition get_option :: "netresolve_request \<Rightarrow> int \<Rightarrow> option_value option" where
  "get_option r n =
     (if n = 0x10 then Some (VALUE_bool (rq_default_loopback r))
      else if n = 0x11 then Some (VALUE_bool (rq_dns_srv_lookup r))
      else if n = 0x100 then Some (VALUE_string (rq_nodename r))
      else if n = 0x101 then Some (VALUE_string (rq_servname r))
      else if n = 0x110 then Some (VALUE_int (rq_family r))
      else if n = 0x111 then Some (VALUE_int (rq_socktype r))
      else if n = 0x112 then Some (VALUE_int (rq_protocol r))
      else if n = 0x200 then Some (VALUE_int (rq_ifindex r))
      else if n = 0x210 \<or> n = 0x211 then Some (VALUE_address (rq_address r))
      else if n = 0x220 then Some (VALUE_int (rq_port r))
      else if n = 0x300 then Some (VALUE_string (rq_dns_name r))
      else if n = 0x301 then Some (VALUE_int (rq_dns_class r))
      else if n = 0x302 then Some (VALUE_int (rq_dns_type r))
      else None)"

fun netresolve_request_get_options_from_va ::
    "netresolve_request \<Rightarrow> int list \<Rightarrow> bool \<times> option_value list" where
  "netresolve_request_get_options_from_va r [] = (True, [])"
| "netresolve_request_get_options_from_va r (n # ns) =
     (case get_option r n of None \<Rightarrow> (False, [])
      | Some v \<Rightarrow> (case netresolve_request_get_options_from_va r ns of (ok, vs) \<Rightarrow> (ok, v # vs)))"

section \<open>Properties\<close>

text \<open>
  What reading an option back must deliver after it was set: the argument, for a numeric option
  only if it is positive (otherwise the old value stays), for an address its four or sixteen
  bytes in front of the old contents.
\<close>

fun option_effect :: "netresolve_request \<Rightarrow> netresolve_option \<Rightarrow> option_value" where
  "option_effect r (OPTION_DEFAULT_LOOPBACK b) = VALUE_bool b"
| "option_effect r (OPTION_DNS_SRV_LOOKUP b) = VALUE_bool b"
| "option_effect r (OPTION_NODE_NAME s) = VALUE_string s"
| "option_effect r (OPTION_SERVICE_NAME s) = VALUE_string s"
| "option_effect r (OPTION_FAMILY n) = VALUE_int (if n > 0 then n else rq_family r)"
| "option_effect r (OPTION_SOCKTYPE n) = VALUE_int (if n > 0 then n else rq_socktype r)"
| "option_effect r (OPTION_PROTOCOL n) = VALUE_int (if n > 0 then n else rq_protocol r)"
| "option_effect r (OPTION_IFINDEX n) = VALUE_int (if n > 0 then n else rq_ifindex r)"
| "option_effect r (OPTION_IP4_ADDRESS a) = VALUE_address (mem_read 4 a @ drop 4 (rq_address r))"
| "option_effect r (OPTION_IP6_ADDRESS a) = VALUE_address (mem_read 16 a @ drop 16 (rq_address r))"
| "option_effect r (OPTION_PORT n) = VALUE_int (if n > 0 then n else rq_port r)"
| "option_effect r (OPTION_DNS_NAME s) = VALUE_string s"
| "option_effect r (OPTION_DNS_CLASS n) = VALUE_int n"
| "option_effect r (OPTION_DNS_TYPE n) = VALUE_int n"
| "option_effect r (OPTION_OTHER n) = VALUE_int n"

lemma set_option_get:
  "set_option r o1 = Some r' \<Longrightarrow> get_option r' (option_code o1) = Some (option_effect r o1)"
  by (cases o1) (auto simp: get_option_def copy_positive_def mem_write_def)

text \<open>An option leaves every option with another number alone, save that an address sets the family.\<close>

lemma set_option_other:
  assumes "set_option r o1 = Some r'" and "n \<noteq> option_code o1"
    and "\<not> (n = 0x110 \<and> option_code o1 \<in> {0x210, 0x211})"
    and "\<not> (n \<in> {0x210, 0x211} \<and> option_code o1 \<in> {0x210, 0x211})"
  shows "get_option r' n = get_option r n"
  using assms by (cases o1) (auto simp: get_option_def)

lemma set_options_append:
  "netresolve_request_set_options_from_va r (os @ ps) =
     (case netresolve_request_set_options_from_va r os of
        (True, r') \<Rightarrow> netresolve_request_set_options_from_va r' ps
      | (False, r') \<Rightarrow> (False, r'))"
  by (induction os arbitrary: r) (auto split: option.splits)

text \<open>Fields of a request that no option can reach.\<close>

definition request_fixed :: "netresolve_request \<Rightarrow> netresolve_request_type \<times> bool \<times> int \<times> int \<times> int" where
  "request_fixed r = (rq_type r, rq_dns_search r, rq_clamp_ttl r, rq_request_timeout r,
     rq_result_timeout r)"

lemma set_option_fixed: "set_option r o1 = Some r' \<Longrightarrow> request_fixed r' = request_fixed r"
  by (cases o1) (auto simp: request_fixed_def)

lemma set_options_fixed [frame_simps]:
  "request_fixed (snd (netresolve_request_set_options_from_va r os)) = request_fixed r"
  by (induction os arbitrary: r) (auto split: option.splits dest: set_option_fixed)

lemma set_option_None_iff: "set_option r o1 = None \<longleftrightarrow> (\<exists>n. o1 = OPTION_OTHER n)"
  by (cases o1) auto

lemma set_options_ok_iff:
  "fst (netresolve_request_set_options_from_va r os) \<longleftrightarrow> (\<forall>n. OPTION_OTHER n \<notin> set os)"
proof (induction os arbitrary: r)
  case Nil
  then show ?case by simp
next
  case (Cons o1 os)
  then show ?case
    by (cases "set_option r o1") (auto simp: set_option_None_iff)
qed



end
