(* ===== verification/Service.thy ===== *)
theory Service
  imports Types
begin

text \<open>
  The service database, after \<open>lib/service.c\<close>: the table of socket type and protocol
  pairs, the growing list of services, the parser of a line of the services file, the
  1024-byte buffered reader, and the query that reports every matching service through a
  callback. The file is the list of what successive \<open>read()\<close> calls deliver.
\<close>

section \<open>Protocols\<close>

record netresolve_protocol =
  pr_socktype :: int
  pr_protocol :: int
  pr_defaultpair :: bool
  pr_name :: string

definition protocols :: "netresolve_protocol list" where
  "protocols =
    [\<lparr>pr_socktype = SOCK_STREAM, pr_protocol = IPPROTO_TCP, pr_defaultpair = True, pr_name = ''tcp''\<rparr>,
     \<lparr>pr_socktype = SOCK_DGRAM, pr_protocol = IPPROTO_UDP, pr_defaultpair = True, pr_name = ''udp''\<rparr>,
     \<lparr>pr_socktype = SOCK_DCCP, pr_protocol = IPPROTO_DCCP, pr_defaultpair = False, pr_name = ''dccp''\<rparr>,
     \<lparr>pr_socktype = SOCK_DGRAM, pr_protocol = IPPROTO_UDPLITE, pr_defaultpair = False, pr_name = ''udplite''\<rparr>,
     \<lparr>pr_socktype = SOCK_STREAM, pr_protocol = IPPROTO_SCTP, pr_defaultpair = False, pr_name = ''sctp''\<rparr>,
     \<lparr>pr_socktype = SOCK_SEQPACKET, pr_protocol = IPPROTO_SCTP, pr_defaultpair = False, pr_name = ''sctp''\<rparr>,
     \<lparr>pr_socktype = SOCK_RAW, pr_protocol = 0, pr_defaultpair = True, pr_name = ''raw''\<rparr>]"

definition protocol_from_string :: "string option \<Rightarrow> int" where
  "protocol_from_string str = (case str of None \<Rightarrow> 0
     | Some s \<Rightarrow> (case find (\<lambda>p. s = pr_name p) protocols of None \<Rightarrow> 0 | Some p \<Rightarrow> pr_protocol p))"

section \<open>The list of services\<close>

definition items_of :: "netresolve_service_list \<Rightarrow> netresolve_service list" where
  "items_of sl = (case sl_items sl of None \<Rightarrow> [] | Some xs \<Rightarrow> xs)"

definition empty_services :: netresolve_service_list where
  "empty_services = \<lparr>sl_items = None, sl_count = 0, sl_reserved = 0\<rparr>"

definition add_service ::
    "netresolve_service_list \<Rightarrow> int \<Rightarrow> int \<Rightarrow> string option \<Rightarrow> netresolve_service_list" where
  "add_service sl protocol port name =
     (let reserved = (if sl_count sl = sl_reserved sl
                      then (if sl_reserved sl = 0 then 256 else sl_reserved sl * 2)
                      else sl_reserved sl)
      in \<lparr>sl_items = Some (items_of sl @ [\<lparr>sv_protocol = protocol, sv_port = port, sv_name = name\<rparr>]),
          sl_count = sl_count sl + 1, sl_reserved = reserved\<rparr>)"

fun add_services ::
    "netresolve_service_list \<Rightarrow> int \<Rightarrow> int \<Rightarrow> string list \<Rightarrow> netresolve_service_list" where
  "add_services sl protocol port [] = sl"
| "add_services sl protocol port (a # as) = add_services (add_service sl protocol port (Some a)) protocol port as"

text \<open>
  One line of the file. The second \<open>strtok_r\<close> may deliver NULL, which \<open>strtol\<close> reads.
\<close>

definition read_service :: "netresolve_service_list \<Rightarrow> string \<Rightarrow> netresolve_service_list res" where
  "read_service sl line =
     (case strtok [CHR '' '', TAB] line of
        (None, _) \<Rightarrow> Inr sl
      | (Some name, p1) \<Rightarrow>
          (case strtok ''/'' p1 of
             (None, _) \<Rightarrow> Inl Null_dereference
           | (Some portstr, p2) \<Rightarrow>
               (let port = to_int (fst (strtol portstr))
                in if port = 0 then Inr sl
                   else (case strtok [CHR '' '', TAB] p2 of (prototok, p3) \<Rightarrow>
                     (let protocol = protocol_from_string prototok
                      in if protocol = 0 then Inr sl
                         else Inr (add_services (add_service sl protocol port (Some name)) protocol port
                                     (strtok_all [CHR '' '', TAB] p3)))))))"

section \<open>The buffered reader\<close>

abbreviation SIZE :: nat where "SIZE \<equiv> 1024"

text \<open>
  The scan over the buffer contents \<open>buf\<close> (from \<open>buffer\<close> to \<open>current\<close>) at position
  \<open>new\<close>: a comment character becomes NUL, a newline ends a record, which is parsed and
  moved out of the buffer, and the scan restarts at the front.
\<close>

function scan_services ::
    "netresolve_service_list \<Rightarrow> string \<Rightarrow> nat \<Rightarrow> (netresolve_service_list \<times> string) res" where
  "scan_services sl buf new =
     (if new < length buf then
        (let buf1 = (if buf ! new = CHR ''#'' then buf[new := NUL] else buf)
         in if buf1 ! new = NL
            then rbind (read_service sl (cstring (take new buf1)))
                   (\<lambda>sl'. scan_services sl' (drop (new + 1) buf1) 0)
            else scan_services sl buf1 (new + 1))
      else Inr (sl, buf))"
  by pat_completeness auto
termination
  by (relation "measures [\<lambda>(sl, buf, new). length buf, \<lambda>(sl, buf, new). length buf - new]")
    (auto simp: Let_def)

declare scan_services.simps [simp del]

definition finish_services :: "netresolve_service_list \<Rightarrow> netresolve_service_list" where
  "finish_services sl = (let sl1 = add_service sl 0 0 None in sl1\<lparr>sl_reserved := sl_count sl1\<rparr>)"

text \<open>An empty chunk is a \<open>read()\<close> that returned zero.\<close>

function read_services_loop ::
    "netresolve_service_list \<Rightarrow> string \<Rightarrow> string list \<Rightarrow> netresolve_service_list res" where
  "read_services_loop sl buf [] = Inr (finish_services sl)"
| "read_services_loop sl buf (c # cs) =
     (if length buf \<ge> SIZE \<or> c = [] then Inr (finish_services sl)
      else (let room = SIZE - length buf; rest = drop room c
            in rbind (scan_services sl (buf @ take room c) 0)
                 (\<lambda>(sl', buf'). read_services_loop sl' buf' (if rest = [] then cs else rest # cs))))"
  by pat_completeness auto
termination
  by (relation "measure (\<lambda>(sl, buf, cs). length (concat cs) + length cs)")
    (auto simp: Let_def)

definition read_services ::
    "env \<Rightarrow> netresolve_service_list \<Rightarrow> string option \<Rightarrow> netresolve_service_list res" where
  "read_services E sl path =
     (case (case path of Some p \<Rightarrow> open_read E p
            | None \<Rightarrow> (case open_read E ''/etc/netresolve/services'' of
                Some c \<Rightarrow> Some c | None \<Rightarrow> open_read E ''/etc/services''))
      of None \<Rightarrow> Inr sl | Some chunks \<Rightarrow> read_services_loop sl [] chunks)"

definition netresolve_service_list_new :: "env \<Rightarrow> string option \<Rightarrow> netresolve_service_list res" where
  "netresolve_service_list_new E path =
     read_services E empty_services
       (case path of None \<Rightarrow> secure_getenv E ''NETRESOLVE_SERVICES'' | Some p \<Rightarrow> Some p)"

text \<open>The loop over the items runs to the element without a name.\<close>

definition netresolve_service_list_free :: "netresolve_service_list option \<Rightarrow> unit res" where
  "netresolve_service_list_free services = (case services of None \<Rightarrow> Inr ()
     | Some sl \<Rightarrow> (case sl_items sl of None \<Rightarrow> Inl Null_dereference
         | Some xs \<Rightarrow> if \<exists>x \<in> set xs. sv_name x = None then Inr () else Inl Out_of_bounds))"

section \<open>Queries\<close>

type_synonym 's service_callback = "string option \<Rightarrow> int \<Rightarrow> int \<Rightarrow> int \<Rightarrow> 's \<Rightarrow> 's res"

definition found_port ::
    "string option \<Rightarrow> int \<Rightarrow> int \<Rightarrow> int \<Rightarrow> 's service_callback \<Rightarrow> 's \<Rightarrow> 's res" where
  "found_port name socktype proto port callback =
     foreach (\<lambda>p s.
       if socktype \<noteq> 0 \<and> socktype \<noteq> pr_socktype p then Inr s
       else if proto \<noteq> 0 \<and> proto \<noteq> pr_protocol p then Inr s
       else if (socktype = 0 \<or> proto = 0) \<and> \<not> pr_defaultpair p then Inr s
       else callback name (pr_socktype p) (pr_protocol p) port s) protocols"

definition service_matches :: "string option \<Rightarrow> int \<Rightarrow> int \<Rightarrow> netresolve_service \<Rightarrow> bool" where
  "service_matches name protocol port sv \<longleftrightarrow>
     \<not> (name \<noteq> None \<and> name \<noteq> sv_name sv) \<and>
     \<not> (protocol \<noteq> 0 \<and> protocol \<noteq> sv_protocol sv) \<and>
     \<not> ((port \<noteq> 0 \<or> name = None) \<and> port \<noteq> sv_port sv)"

text \<open>The search through the list, and the answer when nothing was found.\<close>

definition service_list_search ::
    "netresolve_service list \<Rightarrow> string option \<Rightarrow> int \<Rightarrow> int \<Rightarrow> int \<Rightarrow> 's service_callback \<Rightarrow> 's \<Rightarrow> 's res" where
  "service_list_search items name socktype protocol port callback s =
     (let found = filter (service_matches name protocol port) (takeWhile (\<lambda>sv. sv_name sv \<noteq> None) items)
      in rbind (foreach (\<lambda>sv. found_port (sv_name sv) socktype (sv_protocol sv) (sv_port sv) callback) found s)
           (\<lambda>s1. if found = []
                  then found_port (if port \<noteq> 0 then Some (show_int port) else None)
                         socktype protocol port callback s1
                  else Inr s1))"

definition netresolve_service_list_query ::
    "env \<Rightarrow> (netresolve_service_list option \<Rightarrow> 's \<Rightarrow> 's) \<Rightarrow> string option \<Rightarrow> int \<Rightarrow> int \<Rightarrow> int \<Rightarrow>
     's service_callback \<Rightarrow> 's \<Rightarrow> 's res" where
  "netresolve_service_list_query E set_services name socktype protocol port0 callback s =
     (let numeric = (case name of Some n \<Rightarrow> if port0 = 0 then Some (strtol n) else None | None \<Rightarrow> None);
          port = (case numeric of Some (v, _) \<Rightarrow> to_int v | None \<Rightarrow> port0)
      in if (case numeric of Some (_, rest) \<Rightarrow> rest = [] | None \<Rightarrow> False)
         then found_port name socktype protocol port callback s
         else rbind (netresolve_service_list_new E None) (\<lambda>sl.
           (let s1 = set_services (Some sl) s
            in service_list_search (items_of sl) name socktype protocol port callback s1)))"

section \<open>Well-formed lists\<close>

text \<open>The array holds \<open>count\<close> elements and has room for them.\<close>

definition sl_ok :: "netresolve_service_list \<Rightarrow> bool" where
  "sl_ok sl \<longleftrightarrow> length (items_of sl) = sl_count sl \<and> sl_count sl \<le> sl_reserved sl"

lemma items_of_add_service [simp]:
  "items_of (add_service sl pr po n) =
     items_of sl @ [\<lparr>sv_protocol = pr, sv_port = po, sv_name = n\<rparr>]"
  by (simp add: add_service_def items_of_def Let_def)

lemma sl_items_add_service [simp]: "sl_items (add_service sl pr po n) \<noteq> None"
  by (simp add: add_service_def Let_def)

lemma add_service_ok: "sl_ok sl \<Longrightarrow> sl_ok (add_service sl pr po n)"
  by (auto simp: sl_ok_def) (auto simp: add_service_def Let_def)

text \<open>The slot written by \<open>add_service\<close> lies inside the reallocated array.\<close>

lemma add_service_in_bounds: "sl_ok sl \<Longrightarrow> sl_count sl < sl_reserved (add_service sl pr po n)"
  by (auto simp: sl_ok_def add_service_def Let_def)

lemma items_of_add_services:
  "items_of (add_services sl pr po as) =
     items_of sl @ map (\<lambda>a. \<lparr>sv_protocol = pr, sv_port = po, sv_name = Some a\<rparr>) as"
  by (induction as arbitrary: sl) simp_all

lemma add_services_ok: "sl_ok sl \<Longrightarrow> sl_ok (add_services sl pr po as)"
  by (induction as arbitrary: sl) (simp_all add: add_service_ok)

text \<open>Every element has a name and a port and a protocol that the table knows.\<close>

definition named :: "netresolve_service_list \<Rightarrow> bool" where
  "named sl \<longleftrightarrow> (\<forall>sv \<in> set (items_of sl). sv_name sv \<noteq> None \<and> sv_port sv \<noteq> 0 \<and> sv_protocol sv \<noteq> 0)"

definition services_inv :: "netresolve_service_list \<Rightarrow> bool" where
  "services_inv sl \<longleftrightarrow> sl_ok sl \<and> named sl"

lemma services_inv_empty: "services_inv empty_services"
  by (simp add: services_inv_def sl_ok_def named_def items_of_def empty_services_def)

lemma read_service_inv:
  assumes "services_inv sl" and "read_service sl line = Inr sl'"
  shows "services_inv sl'"
  using assms
  by (auto simp: read_service_def Let_def services_inv_def named_def items_of_add_services
      add_service_ok add_services_ok split: prod.splits option.splits if_splits)

lemma scan_services_inv:
  "services_inv sl \<Longrightarrow> scan_services sl buf new = Inr (sl', buf') \<Longrightarrow> services_inv sl'"
proof (induction sl buf new rule: scan_services.induct)
  case (1 sl buf new)
  let ?buf1 = "if buf ! new = CHR ''#'' then buf[new := NUL] else buf"
  show ?case
  proof (cases "new < length buf")
    case False
    with 1 show ?thesis by (simp add: scan_services.simps [of sl buf new])
  next
    case less: True
    show ?thesis
    proof (cases "?buf1 ! new = NL")
      case True
      with less "1.prems"(2) obtain sl1 where
        sl1: "read_service sl (cstring (take new ?buf1)) = Inr sl1" and
        rec: "scan_services sl1 (drop (new + 1) ?buf1) 0 = Inr (sl', buf')"
        by (auto simp: scan_services.simps [of sl buf new] Let_def)
      from "1.prems"(1) sl1 have "services_inv sl1" by (rule read_service_inv)
      then show ?thesis using "1.IH"(1) [OF less refl True] rec by blast
    next
      case False
      with less "1.prems" show ?thesis
        using "1.IH"(2) [OF less refl False]
        by (simp add: scan_services.simps [of sl buf new] Let_def)
    qed
  qed
qed

lemma finish_services_ok:
  assumes "services_inv sl"
  shows "\<exists>xs. sl_items (finish_services sl) = Some (xs @ [\<lparr>sv_protocol = 0, sv_port = 0, sv_name = None\<rparr>])
      \<and> (\<forall>sv \<in> set xs. sv_name sv \<noteq> None \<and> sv_port sv \<noteq> 0 \<and> sv_protocol sv \<noteq> 0)
      \<and> sl_count (finish_services sl) = length xs + 1
      \<and> sl_reserved (finish_services sl) = length xs + 1"
  using assms
  by (auto simp: finish_services_def add_service_def Let_def services_inv_def sl_ok_def named_def)

section \<open>The reader against a line-by-line reference\<close>

text \<open>
  The reference reads the text as lines: every line that ends with a newline is parsed up to its
  comment character, a last line without newline is dropped.
\<close>

fun complete_lines :: "string \<Rightarrow> string list" where
  "complete_lines [] = []"
| "complete_lines (c # cs) =
     (if c = NL then [] # complete_lines cs
      else if NL \<in> set cs then (c # hd (complete_lines cs)) # tl (complete_lines cs)
      else [])"

definition strip_comment :: "string \<Rightarrow> string" where
  "strip_comment l = takeWhile (\<lambda>c. c \<noteq> CHR ''#'' \<and> c \<noteq> NUL) l"

fun read_lines :: "netresolve_service_list \<Rightarrow> string list \<Rightarrow> netresolve_service_list res" where
  "read_lines sl [] = Inr sl"
| "read_lines sl (l # ls) = rbind (read_service sl (strip_comment l)) (\<lambda>sl'. read_lines sl' ls)"

text \<open>Every line, also the last one, is shorter than the buffer.\<close>

fun lines_fit :: "nat \<Rightarrow> string \<Rightarrow> bool" where
  "lines_fit n [] \<longleftrightarrow> n < SIZE"
| "lines_fit n (c # cs) \<longleftrightarrow> n < SIZE \<and> lines_fit (if c = NL then 0 else Suc n) cs"

text \<open>The reader as a machine that takes one character at a time.\<close>

definition mask_comment :: "char \<Rightarrow> char" where
  "mask_comment c = (if c = CHR ''#'' then NUL else c)"

fun feed :: "netresolve_service_list \<Rightarrow> string \<Rightarrow> string \<Rightarrow> (netresolve_service_list \<times> string) res" where
  "feed sl acc [] = Inr (sl, acc)"
| "feed sl acc (c # cs) =
     (if c = NL then rbind (read_service sl (cstring acc)) (\<lambda>sl'. feed sl' [] cs)
      else feed sl (acc @ [mask_comment c]) cs)"

definition masked :: "string \<Rightarrow> bool" where
  "masked acc \<longleftrightarrow> (\<forall>c \<in> set acc. c \<noteq> NL \<and> c \<noteq> CHR ''#'')"

lemma masked_simps [simp]: "masked []" "masked (acc @ [mask_comment c]) \<longleftrightarrow> masked acc \<and> mask_comment c \<noteq> NL"
  by (auto simp: masked_def mask_comment_def)

lemma mask_NL [simp]: "mask_comment c = NL \<longleftrightarrow> c = NL"
  by (simp add: mask_comment_def)

lemma feed_append:
  "feed sl acc (xs @ ys) = rbind (feed sl acc xs) (\<lambda>(sl', acc'). feed sl' acc' ys)"
  by (induction xs arbitrary: sl acc) (simp_all add: rbind_assoc)

lemma feed_masked: "masked acc \<Longrightarrow> feed sl acc xs = Inr (sl', acc') \<Longrightarrow> masked acc'"
proof (induction xs arbitrary: sl acc)
  case (Cons c xs)
  show ?case
  proof (cases "c = NL")
    case True
    with Cons.prems(2) obtain sl1 where "feed sl1 [] xs = Inr (sl', acc')" by auto
    then show ?thesis by (rule Cons.IH [rotated]) simp
  next
    case False
    with Cons.prems show ?thesis by (intro Cons.IH [of "acc @ [mask_comment c]" sl]) simp_all
  qed
qed simp

lemma scan_step:
  assumes "masked acc"
  shows "scan_services sl (acc @ c # cs) (length acc) =
    (if c = NL then rbind (read_service sl (cstring acc)) (\<lambda>sl'. scan_services sl' cs 0)
     else scan_services sl ((acc @ [mask_comment c]) @ cs) (length (acc @ [mask_comment c])))"
  by (subst scan_services.simps) (auto simp: mask_comment_def nth_append list_update_append)

lemma scan_feed: "masked acc \<Longrightarrow> scan_services sl (acc @ cs) (length acc) = feed sl acc cs"
proof (induction cs arbitrary: sl acc)
  case Nil
  then show ?case by (subst scan_services.simps) simp
next
  case (Cons c cs)
  have "scan_services sl' cs 0 = feed sl' [] cs" for sl'
    using Cons.IH [of "[]" sl'] by simp
  moreover have "scan_services sl ((acc @ [mask_comment c]) @ cs) (length (acc @ [mask_comment c])) =
      feed sl (acc @ [mask_comment c]) cs" if "c \<noteq> NL"
    using that Cons.prems by (intro Cons.IH) simp
  ultimately show ?case
    by (simp only: scan_step [OF Cons.prems] feed.simps) (simp cong: if_cong)
qed

lemma feed_skip: "masked acc \<Longrightarrow> feed sl pre (acc @ cs) = feed sl (pre @ acc) cs"
proof (induction acc arbitrary: pre)
  case Nil
  then show ?case by simp
next
  case (Cons c acc)
  then have "c \<noteq> NL" and "mask_comment c = c" and "masked acc"
    by (auto simp: masked_def mask_comment_def)
  then show ?case using Cons.IH [of "pre @ [c]"] by simp
qed

text \<open>A scan from the front of the buffer sees the already masked part as it is.\<close>

lemma scan_from_front: "masked acc \<Longrightarrow> scan_services sl (acc @ cs) 0 = feed sl acc cs"
  using scan_feed [of "[]" sl "acc @ cs"] feed_skip [of acc sl "[]" cs] by simp

lemma lines_fit_less: "lines_fit n cs \<Longrightarrow> n < SIZE"
  by (cases cs) simp_all

lemma lines_fit_feed:
  "lines_fit (length acc) (xs @ ys) \<Longrightarrow> feed sl acc xs = Inr (sl', acc') \<Longrightarrow> lines_fit (length acc') ys"
proof (induction xs arbitrary: sl acc)
  case (Cons c xs)
  show ?case
  proof (cases "c = NL")
    case True
    with Cons.prems(2) obtain sl1 where "feed sl1 [] xs = Inr (sl', acc')" by auto
    then show ?thesis using Cons.prems(1) True by (intro Cons.IH [of "[]" sl1]) simp_all
  next
    case False
    with Cons.prems show ?thesis by (intro Cons.IH [of "acc @ [mask_comment c]" sl]) simp_all
  qed
qed simp

lemma loop_feed:
  assumes "masked acc" and "lines_fit (length acc) (concat cs)" and "[] \<notin> set cs"
  shows "read_services_loop sl acc cs =
    rbind (feed sl acc (concat cs)) (\<lambda>(sl', _). Inr (finish_services sl'))"
  using assms
proof (induction sl acc cs rule: read_services_loop.induct)
  case (1 sl acc)
  then show ?case by simp
next
  case (2 sl acc c cs)
  let ?room = "SIZE - length acc"
  let ?rest = "drop ?room c"
  let ?cs = "if ?rest = [] then cs else ?rest # cs"
  have go: "\<not> (length acc \<ge> SIZE \<or> c = [])"
    using "2.prems" lines_fit_less [of "length acc"] by auto
  have split: "concat (c # cs) = take ?room c @ concat ?cs" by simp
  have ne: "[] \<notin> set ?cs" using "2.prems"(3) by auto
  have "read_services_loop sl' acc' ?cs =
      rbind (feed sl' acc' (concat ?cs)) (\<lambda>(sl', _). Inr (finish_services sl'))"
    if f: "feed sl acc (take ?room c) = Inr (sl', acc')" for sl' acc'
  proof (rule "2.IH" [OF go refl refl])
    show "masked acc'" using feed_masked [OF "2.prems"(1) f] .
    show "lines_fit (length acc') (concat ?cs)"
      using lines_fit_feed [OF _ f] "2.prems"(2) split by metis
  qed (use ne in simp_all)
  then have "rbind (feed sl acc (take ?room c)) (\<lambda>(sl', acc'). read_services_loop sl' acc' ?cs) =
      rbind (rbind (feed sl acc (take ?room c)) (\<lambda>(sl', acc'). feed sl' acc' (concat ?cs)))
        (\<lambda>(sl', _). Inr (finish_services sl'))"
    by (cases "feed sl acc (take ?room c)") auto
  then show ?case
    using go by (simp only: read_services_loop.simps if_False Let_def
        scan_from_front [OF "2.prems"(1)] split feed_append)
qed

lemma cstring_map_mask: "cstring (map mask_comment l) = strip_comment l"
  by (induction l) (auto simp: cstring_def strip_comment_def mask_comment_def)

lemma feed_line: "NL \<notin> set l \<Longrightarrow> feed sl acc (l @ cs) = feed sl (acc @ map mask_comment l) cs"
  by (induction l arbitrary: acc) auto

lemma split_first_line:
  assumes "NL \<in> set cs"
  obtains l rest where "cs = l @ NL # rest" and "NL \<notin> set l"
  using assms by (metis split_list_first)

lemma complete_lines_append:
  "NL \<notin> set l \<Longrightarrow> complete_lines (l @ NL # rest) = l # complete_lines rest"
  by (induction l) auto

lemma complete_lines_none: "NL \<notin> set cs \<Longrightarrow> complete_lines cs = []"
  by (cases cs) auto

lemma feed_read_lines:
  "rbind (feed sl [] cs) (\<lambda>(sl', _). Inr (f sl')) =
   rbind (read_lines sl (complete_lines cs)) (\<lambda>sl'. Inr (f sl'))"
proof (induction "length cs" arbitrary: sl cs rule: less_induct)
  case less
  show ?case
  proof (cases "NL \<in> set cs")
    case False
    have "feed sl [] (cs @ []) = feed sl ([] @ map mask_comment cs) []"
      by (rule feed_line) (rule False)
    then show ?thesis using False by (simp add: complete_lines_none)
  next
    case True
    then obtain l rest where cs: "cs = l @ NL # rest" and l: "NL \<notin> set l"
      by (rule split_first_line)
    have "feed sl [] cs = rbind (read_service sl (strip_comment l)) (\<lambda>sl'. feed sl' [] rest)"
      using l by (simp add: cs feed_line cstring_map_mask)
    moreover have "rbind (feed sl' [] rest) (\<lambda>(sl', _). Inr (f sl')) =
        rbind (read_lines sl' (complete_lines rest)) (\<lambda>sl'. Inr (f sl'))" for sl'
      by (rule less) (simp add: cs)
    ultimately show ?thesis
      by (simp add: cs complete_lines_append [OF l] rbind_assoc)
  qed
qed



section \<open>Queries\<close>

text \<open>The pairs reported for one port, and the sequence of all reports of a query.\<close>

definition port_pairs :: "int \<Rightarrow> int \<Rightarrow> netresolve_protocol list" where
  "port_pairs socktype proto =
     filter (\<lambda>p. (socktype = 0 \<or> socktype = pr_socktype p) \<and> (proto = 0 \<or> proto = pr_protocol p) \<and>
       (socktype \<noteq> 0 \<and> proto \<noteq> 0 \<or> pr_defaultpair p)) protocols"

lemma foreach_filter:
  "foreach (\<lambda>x s. if b x then f x s else Inr s) xs = foreach f (filter b xs)"
proof (induction xs)
  case Nil
  show ?case by (intro ext) simp
next
  case (Cons x xs)
  then show ?case by (intro ext) simp
qed

lemma found_port_pairs:
  "found_port name socktype proto port callback =
   foreach (\<lambda>p. callback name (pr_socktype p) (pr_protocol p) port) (port_pairs socktype proto)"
proof -
  have "found_port name socktype proto port callback =
      foreach (\<lambda>p s. if (socktype = 0 \<or> socktype = pr_socktype p) \<and> (proto = 0 \<or> proto = pr_protocol p) \<and>
        (socktype \<noteq> 0 \<and> proto \<noteq> 0 \<or> pr_defaultpair p)
        then callback name (pr_socktype p) (pr_protocol p) port s else Inr s) protocols"
    unfolding found_port_def by (intro arg_cong2 [where f = foreach] refl ext) auto
  then show ?thesis by (simp only: foreach_filter port_pairs_def)
qed

lemma preserves_found_port [pres_intros]:
  "(\<And>st pr. preserves I (callback name st pr port)) \<Longrightarrow>
   preserves I (found_port name socktype proto port callback)"
  by (simp add: found_port_pairs preserves_foreach)

text \<open>A request for a socket type or a protocol is only ever answered with that type or protocol.\<close>

lemma port_pairs_match:
  "p \<in> set (port_pairs socktype proto) \<Longrightarrow>
     (socktype \<noteq> 0 \<longrightarrow> pr_socktype p = socktype) \<and> (proto \<noteq> 0 \<longrightarrow> pr_protocol p = proto)"
  by (auto simp: port_pairs_def)

lemma port_pairs_default:
  "port_pairs 0 0 = [protocols ! 0, protocols ! 1, protocols ! 6]"
  by (simp add: port_pairs_def protocols_def)

lemma preserves_service_search [pres_intros]:
  assumes "\<And>name st pr port. preserves I (callback name st pr port)"
  shows "preserves I (service_list_search items name socktype protocol port callback)"
proof -
  let ?found = "filter (service_matches name protocol port) (takeWhile (\<lambda>sv. sv_name sv \<noteq> None) items)"
  have "service_list_search items name socktype protocol port callback =
    (\<lambda>s. rbind (foreach (\<lambda>sv. found_port (sv_name sv) socktype (sv_protocol sv) (sv_port sv) callback) ?found s)
      (if ?found = [] then found_port (if port \<noteq> 0 then Some (show_int port) else None) socktype protocol port callback
       else Inr))"
    by (intro ext) (auto simp: service_list_search_def Let_def)
  moreover have "preserves I (if ?found = [] then found_port (if port \<noteq> 0 then Some (show_int port) else None)
      socktype protocol port callback else Inr)"
    using assms by (auto intro!: pres_intros)
  ultimately show ?thesis
    using assms by (auto intro!: preserves_bind preserves_foreach preserves_found_port)
qed

text \<open>
  A numeric service name is answered directly: every pair compatible with the request, with the
  number as the port, and the services file is not read.
\<close>

lemma returns_found_port:
  assumes "\<And>n a b c s. P s \<Longrightarrow> returns F (cb n a b c s) P" and "P s"
  shows "returns F (found_port name socktype proto port cb s) P"
  unfolding found_port_def by (rule returns_foreach) (use assms in auto)

lemma returns_service_search:
  assumes "\<And>n a b c s. P s \<Longrightarrow> returns F (cb n a b c s) P" and "P s"
  shows "returns F (service_list_search items name socktype protocol port cb s) P"
proof -
  have "returns F (foreach (\<lambda>sv. found_port (sv_name sv) socktype (sv_protocol sv) (sv_port sv) cb) xs s) P" for xs
    by (rule returns_foreach) (use assms returns_found_port [of P F cb] in auto)
  then show ?thesis
    unfolding service_list_search_def Let_def
    by (rule returns_bind) (use assms(1) returns_found_port [of P F cb] in auto)
qed

text \<open>Reading the services file can only fail at a line without a port.\<close>

lemma read_service_fault: "returns {Null_dereference} (read_service sl line) (\<lambda>_. True)"
  by (auto simp: read_service_def Let_def split: prod.splits option.splits)

lemma scan_services_fault: "returns {Null_dereference} (scan_services sl buf new) (\<lambda>_. True)"
proof (induction sl buf new rule: scan_services.induct)
  case (1 sl buf new)
  then show ?case
    unfolding scan_services.simps [of sl buf new] Let_def
    using read_service_fault by (auto intro!: returns_bind [OF read_service_fault])
qed

lemma read_services_loop_fault: "returns {Null_dereference} (read_services_loop sl buf cs) (\<lambda>_. True)"
proof (induction sl buf cs rule: read_services_loop.induct)
  case (1 sl buf)
  then show ?case by simp
next
  case (2 sl buf c cs)
  then show ?case
    by (auto simp: Let_def intro!: returns_bind [OF scan_services_fault] split: prod.splits)
qed

lemma service_list_new_fault: "returns {Null_dereference} (netresolve_service_list_new E path) (\<lambda>_. True)"
  using read_services_loop_fault
  by (auto simp: netresolve_service_list_new_def read_services_def split: option.splits)

lemma returns_service_query:
  assumes cb: "\<And>n a b c s. P s \<Longrightarrow> returns F (cb n a b c s) P" and set: "\<And>sl s. P s \<Longrightarrow> P (set_sl sl s)"
    and F: "Null_dereference \<in> F" and s: "P s"
  shows "returns F (netresolve_service_list_query E set_sl name socktype protocol port cb s) P"
proof -
  have "returns F (rbind (netresolve_service_list_new E None) (\<lambda>sl.
      service_list_search (items_of sl) name socktype protocol port' cb (set_sl (Some sl) s))) P" for port'
    by (rule returns_bind [OF returns_mono [OF service_list_new_fault]])
      (use F s cb set returns_service_search [of P F cb] in auto)
  then show ?thesis
    using returns_found_port [of P F cb s] cb s
    by (simp add: netresolve_service_list_query_def Let_def split: option.splits prod.splits)
qed

text \<open>Two callbacks that agree on the states that can come up give the same lookup.\<close>

lemma found_port_cong:
  assumes "\<And>n a b c s. P s \<Longrightarrow> cb n a b c s = cb' n a b c s"
    and "\<And>n a b c s. P s \<Longrightarrow> returns UNIV (cb' n a b c s) P" and "P s"
  shows "found_port name socktype proto port cb s = found_port name socktype proto port cb' s"
  unfolding found_port_def by (rule foreach_cong [where P = P]) (use assms in auto)

lemma service_query_cong:
  assumes eq: "\<And>n a b c s. P s \<Longrightarrow> cb n a b c s = cb' n a b c s"
    and cb: "\<And>n a b c s. P s \<Longrightarrow> returns UNIV (cb' n a b c s) P"
    and set: "\<And>sl s. P s \<Longrightarrow> P (set_sl sl s)" and s: "P s"
  shows "netresolve_service_list_query E set_sl name socktype protocol port cb s =
    netresolve_service_list_query E set_sl name socktype protocol port cb' s"
proof -
  note fp = found_port_cong [of P cb cb', OF eq cb]
  have search: "service_list_search items name socktype protocol port' cb t =
      service_list_search items name socktype protocol port' cb' t" if t: "P t" for items port' t
  proof -
    let ?f = "\<lambda>cb xs. foreach (\<lambda>sv. found_port (sv_name sv) socktype (sv_protocol sv) (sv_port sv) cb) xs t"
    have e: "?f cb xs = ?f cb' xs" for xs
      by (rule foreach_cong [where P = P]) (use fp returns_found_port [of P UNIV cb'] cb t in auto)
    have r: "returns UNIV (?f cb' xs) P" for xs
      by (rule returns_foreach) (use returns_found_port [of P UNIV cb'] cb t in auto)
    show ?thesis
      unfolding service_list_search_def Let_def e
      by (rule rbind_cong_on [OF r]) (use fp in auto)
  qed
  show ?thesis
    unfolding netresolve_service_list_query_def Let_def
    using fp [OF _ _ s] search [OF set [OF s]] by (simp add: rbind_def split: sum.splits)
qed

lemma query_numeric:
  assumes "strtol name = (v, [])"
  shows "netresolve_service_list_query E set_services (Some name) socktype protocol 0 callback s =
    found_port (Some name) socktype protocol (to_int v) callback s"
  using assms by (simp add: netresolve_service_list_query_def Let_def)

text \<open>
  C10: a service given as a decimal port number is reported with exactly that port, for exactly
  the socket type and protocol pairs that agree with the request, in the order of the table.
\<close>

theorem query_port_number:
  assumes "int_range port"
  shows "netresolve_service_list_query E set_services (Some (show_int port)) socktype protocol 0
      (\<lambda>name st pr po log. Inr (log @ [(name, st, pr, po)])) [] =
    Inr (map (\<lambda>p. (Some (show_int port), pr_socktype p, pr_protocol p, port))
      (port_pairs socktype protocol))"
proof -
  have collect: "foreach (\<lambda>p log. Inr (log @ [g p])) ps log = Inr (log @ map g ps)" for g ps log
    by (induction ps arbitrary: log) simp_all
  have "strtol (show_int port) = (port, [])"
    using assms by (intro strtol_show_int) (simp_all add: int_range_def)
  then show ?thesis
    using assms collect
      [of "\<lambda>p. (Some (show_int port), pr_socktype p, pr_protocol p, port)" "port_pairs socktype protocol" "[]"]
    by (simp add: query_numeric found_port_pairs)
qed

theorem query_port_number_witness:
  "\<exists>E set_services. netresolve_service_list_query E set_services (Some (show_int 443)) 0 IPPROTO_TCP 0
      (\<lambda>name st pr po log. Inr (log @ [(name, st, pr, po)])) [] =
    Inr [(Some (show_int 443), SOCK_STREAM, IPPROTO_TCP, 443)]"
proof -
  have "int_range 443" by (simp add: int_range_def)
  from query_port_number [OF this, of undefined undefined 0 IPPROTO_TCP]
  show ?thesis
    by (intro exI [of _ undefined]) (simp add: port_pairs_def protocols_def)
qed

section \<open>Faults\<close>

text \<open>
  A line of the services file that holds a single word (a service name and nothing behind
  it) makes the parser hand a null pointer to \<open>strtol\<close>.
\<close>

theorem read_service_single_word:
  assumes "word \<noteq> []" and "\<forall>c \<in> set word. c \<noteq> CHR '' '' \<and> c \<noteq> TAB"
  shows "read_service sl word = Inl Null_dereference"
proof -
  have "strtok [CHR '' '', TAB] word = (Some word, [])"
    using assms by (intro strtok_word) auto
  then show ?thesis by (simp add: read_service_def)
qed

theorem read_service_single_word_witness:
  "read_service empty_services ''discard'' = Inl Null_dereference"
  by (rule read_service_single_word) simp_all

end
