(* ===== verification/Links.thy ===== *)
theory Links
  imports Prelude
begin

text \<open>
  The circular doubly linked lists that hold the queries of a context, the watches of a query
  and the queries of the asyncns front end: a head node and the pointers \<open>next\<close> and
  \<open>previous\<close> of every node. Linking a node in front of the head and unlinking a node are
  shown to refine appending to and removing from a list, which is how the other theories
  model these collections.
\<close>

record links =
  nxt :: "nat \<Rightarrow> nat"
  prv :: "nat \<Rightarrow> nat"

definition link_init :: "nat \<Rightarrow> links \<Rightarrow> links" where
  "link_init h l = l\<lparr>nxt := (nxt l)(h := h), prv := (prv l)(h := h)\<rparr>"

definition enqueue :: "nat \<Rightarrow> nat \<Rightarrow> links \<Rightarrow> links" where
  "enqueue h q l =
     (let l1 = l\<lparr>prv := (prv l)(q := prv l h)\<rparr>;
          l2 = l1\<lparr>nxt := (nxt l1)(q := h)\<rparr>;
          l3 = l2\<lparr>nxt := (nxt l2)(prv l2 q := q)\<rparr>
      in l3\<lparr>prv := (prv l3)(nxt l3 q := q)\<rparr>)"

definition dequeue :: "nat \<Rightarrow> links \<Rightarrow> links" where
  "dequeue q l =
     (let l1 = l\<lparr>nxt := (nxt l)(prv l q := nxt l q)\<rparr>
      in l1\<lparr>prv := (prv l1)(nxt l1 q := prv l1 q)\<rparr>)"

section \<open>Rings\<close>

fun chain :: "links \<Rightarrow> nat list \<Rightarrow> bool" where
  "chain l (x # y # zs) \<longleftrightarrow> nxt l x = y \<and> prv l y = x \<and> chain l (y # zs)"
| "chain l _ \<longleftrightarrow> True"

definition ring :: "nat \<Rightarrow> nat list \<Rightarrow> links \<Rightarrow> bool" where
  "ring h xs l \<longleftrightarrow> distinct (h # xs) \<and> chain l (h # xs @ [h])"

lemma chain_split: "chain l (xs @ y # zs) \<longleftrightarrow> chain l (xs @ [y]) \<and> chain l (y # zs)"
proof (induction xs)
  case Nil
  then show ?case by simp
next
  case (Cons x xs)
  then show ?case by (cases xs) auto
qed

lemma chain_cong:
  "(\<And>a. a \<in> set (butlast xs) \<Longrightarrow> nxt l' a = nxt l a) \<Longrightarrow>
   (\<And>a. a \<in> set (tl xs) \<Longrightarrow> prv l' a = prv l a) \<Longrightarrow> chain l' xs = chain l xs"
proof (induction l xs rule: chain.induct)
  case (1 l x y zs)
  have "chain l' (y # zs) = chain l (y # zs)"
    by (rule "1.IH") (use "1.prems" in \<open>auto split: if_splits\<close>)
  then show ?case using "1.prems"(1) [of x] "1.prems"(2) [of y] by simp
qed simp_all

lemma ring_init: "ring h [] (link_init h l)"
  by (simp add: ring_def link_init_def)

lemma ring_last: "ring h xs l \<Longrightarrow> prv l h = last (h # xs)"
proof -
  assume "ring h xs l"
  then have "chain l (butlast (h # xs) @ last (h # xs) # [h])"
    by (metis append.assoc append_Cons append_Nil append_butlast_last_id list.distinct(1) ring_def)
  then have "chain l [last (h # xs), h]"
    using chain_split by blast
  then show ?thesis by simp
qed

lemma enqueue_ring:
  assumes r: "ring h xs l" and q: "q \<notin> set (h # xs)"
  shows "ring h (xs @ [q]) (enqueue h q l)"
proof -
  define z where "z = last (h # xs)"
  define ys where "ys = butlast (h # xs)"
  have hx: "h # xs = ys @ [z]" by (simp add: ys_def z_def)
  have z: "prv l h = z" using ring_last [OF r] z_def by simp
  have d: "distinct (ys @ [z])" using r hx by (simp add: ring_def del: distinct.simps)
  have zq: "z \<noteq> q" using q hx by auto
  have hq: "h \<noteq> q" using q by auto
  let ?l = "enqueue h q l"
  have nx: "nxt ?l = ((nxt l)(q := h))(z := q)" and pv: "prv ?l = ((prv l)(q := z))(h := q)"
    using z zq hq by (auto simp: enqueue_def Let_def fun_eq_iff)
  have "chain l ((h # xs) @ [h])" using r by (simp add: ring_def)
  then have "chain l ((ys @ [z]) @ [h])" by (simp only: hx)
  then have "chain l (ys @ [z])" using chain_split [of l ys z "[h]"] by simp
  moreover have "chain ?l (ys @ [z]) = chain l (ys @ [z])"
  proof (rule chain_cong)
    fix a assume "a \<in> set (butlast (ys @ [z]))"
    then have "a \<in> set ys" by simp
    then have "a \<noteq> z" and "a \<noteq> q" using d q hx by auto
    then show "nxt ?l a = nxt l a" by (simp add: nx)
  next
    fix a assume "a \<in> set (tl (ys @ [z]))"
    then have "a \<in> set xs" using hx by (metis list.sel(3))
    then have "a \<noteq> h" and "a \<noteq> q" using r q by (auto simp: ring_def)
    then show "prv ?l a = prv l a" by (simp add: pv)
  qed
  moreover have "chain ?l (z # [q, h])" using zq hq by (simp add: nx pv)
  ultimately have "chain ?l ((ys @ [z]) @ [q, h])"
    using chain_split [of ?l ys z "[q, h]"] by simp
  then have "chain ?l (h # (xs @ [q]) @ [h])" using hx by (metis append.assoc append_Cons append_Nil)
  then show ?thesis using r q by (auto simp: ring_def)
qed

lemma dequeue_ring:
  assumes r: "ring h (as @ q # bs) l"
  shows "ring h (as @ bs) (dequeue q l)"
proof -
  define p where "p = last (h # as)"
  define ys where "ys = butlast (h # as)"
  have ha: "h # as = ys @ [p]" by (simp add: ys_def p_def)
  obtain n ns where bn: "bs @ [h] = n # ns" by (cases bs) auto
  have "chain l ((h # as) @ q # bs @ [h])" using r by (simp add: ring_def)
  then have "chain l ((ys @ [p]) @ q # n # ns)" by (simp only: ha bn)
  then have c1: "chain l (ys @ [p])" and c2: "chain l (p # q # n # ns)"
    using chain_split [of l ys p "q # n # ns"] by simp_all
  then have pq: "prv l q = p" and nq: "nxt l q = n" and c3: "chain l (n # ns)" by simp_all
  have d: "distinct ((ys @ [p]) @ q # bs)" using r ha by (metis append_Cons ring_def)
  then have pnq: "p \<noteq> q" by auto
  have n: "n \<noteq> q" using bn r by (cases bs) (auto simp: ring_def)
  let ?l = "dequeue q l"
  have nx: "nxt ?l = (nxt l)(p := n)" and pv: "prv ?l = (prv l)(n := p)"
    using pq nq pnq by (auto simp: dequeue_def Let_def fun_eq_iff)
  have sub: "set (butlast (n # ns)) = set bs"
    using bn by (metis butlast_snoc)
  have "chain ?l (ys @ [p]) = chain l (ys @ [p])"
  proof (rule chain_cong)
    fix a assume "a \<in> set (butlast (ys @ [p]))"
    then show "nxt ?l a = nxt l a" using d by (auto simp: nx)
  next
    fix a assume "a \<in> set (tl (ys @ [p]))"
    then have a: "a \<in> set as" using ha by (metis list.sel(3))
    have "n = h \<or> n \<in> set bs" using bn by (cases bs) auto
    then have "a \<noteq> n" using a r by (auto simp: ring_def)
    then show "prv ?l a = prv l a" by (simp add: pv)
  qed
  moreover have "chain ?l (n # ns) = chain l (n # ns)"
  proof (rule chain_cong)
    fix a assume "a \<in> set (butlast (n # ns))"
    then have "a \<noteq> p" using sub d by auto
    then show "nxt ?l a = nxt l a" by (simp add: nx)
  next
    have "distinct (bs @ [h])" using r by (auto simp: ring_def)
    then have dn: "distinct (n # ns)" by (simp only: bn)
    fix a assume "a \<in> set (tl (n # ns))"
    then show "prv ?l a = prv l a" using dn by (auto simp: pv)
  qed
  moreover have "chain ?l [p, n]" by (simp add: nx pv)
  ultimately have "chain ?l (ys @ p # n # ns)"
    using c1 c3 chain_split [of ?l ys p "n # ns"] by simp
  then have "chain ?l (h # (as @ bs) @ [h])"
    using ha bn by (metis append.assoc append_Cons append_Nil)
  then show ?thesis using r by (auto simp: ring_def)
qed

section \<open>The collection contract\<close>

text \<open>
  What the clients of a linked collection rely on: it starts empty, a new member goes to the end
  and a member can be taken out, wherever it is. \<open>repr l xs\<close> reads: the links \<open>l\<close> hold
  the members \<open>xs\<close>, in this order.
\<close>

datatype link_op = Link nat | Unlink nat

fun list_op :: "link_op \<Rightarrow> nat list \<Rightarrow> nat list" where
  "list_op (Link q) xs = xs @ [q]"
| "list_op (Unlink q) xs = remove1 q xs"

fun ops_valid :: "nat \<Rightarrow> link_op list \<Rightarrow> nat list \<Rightarrow> bool" where
  "ops_valid h [] xs \<longleftrightarrow> True"
| "ops_valid h (Link q # ops) xs \<longleftrightarrow> q \<noteq> h \<and> q \<notin> set xs \<and> ops_valid h ops (xs @ [q])"
| "ops_valid h (Unlink q # ops) xs \<longleftrightarrow> q \<in> set xs \<and> ops_valid h ops (remove1 q xs)"

locale linked_collection =
  fixes head :: nat
    and insert_last :: "nat \<Rightarrow> 'l \<Rightarrow> 'l"
    and take_out :: "nat \<Rightarrow> 'l \<Rightarrow> 'l"
    and repr :: "'l \<Rightarrow> nat list \<Rightarrow> bool"
  assumes insert_last: "repr l xs \<Longrightarrow> q \<noteq> head \<Longrightarrow> q \<notin> set xs \<Longrightarrow> repr (insert_last q l) (xs @ [q])"
    and take_out: "repr l xs \<Longrightarrow> q \<in> set xs \<Longrightarrow> repr (take_out q l) (remove1 q xs)"
    and members_distinct: "repr l xs \<Longrightarrow> distinct xs"
begin

lemma run_ops:
  assumes "repr l xs" and "ops_valid head ops xs"
  shows "repr (fold (\<lambda>op. case op of Link q \<Rightarrow> insert_last q | Unlink q \<Rightarrow> take_out q) ops l)
    (fold list_op ops xs)"
  using assms
proof (induction ops arbitrary: l xs)
  case Nil
  then show ?case by simp
next
  case (Cons op ops)
  then show ?case by (cases op) (auto intro!: Cons.IH insert_last take_out)
qed

lemma take_out_gone: "repr l xs \<Longrightarrow> q \<in> set xs \<Longrightarrow> \<exists>ys. repr (take_out q l) ys \<and> q \<notin> set ys"
  using take_out members_distinct by fastforce

end

lemma ring_remove1: "ring h xs l \<Longrightarrow> q \<in> set xs \<Longrightarrow> ring h (remove1 q xs) (dequeue q l)"
proof -
  assume r: "ring h xs l" and "q \<in> set xs"
  then obtain as bs where xs: "xs = as @ q # bs" and "q \<notin> set as"
    by (metis split_list_first)
  then show ?thesis using dequeue_ring [of h as q bs l] r by (simp add: remove1_append)
qed

interpretation rings: linked_collection h "enqueue h" dequeue "\<lambda>l xs. ring h xs l"
proof unfold_locales
  show "ring h (xs @ [q]) (enqueue h q l)" if "ring h xs l" "q \<noteq> h" "q \<notin> set xs" for l xs q
    using that by (intro enqueue_ring) simp_all
  show "ring h (remove1 q xs) (dequeue q l)" if "ring h xs l" "q \<in> set xs" for l xs q
    using that by (rule ring_remove1)
  show "distinct xs" if "ring h xs l" for l xs
    using that by (simp add: ring_def)
qed

fun link_run :: "nat \<Rightarrow> link_op list \<Rightarrow> links \<Rightarrow> links" where
  "link_run h [] l = l"
| "link_run h (Link q # ops) l = link_run h ops (enqueue h q l)"
| "link_run h (Unlink q # ops) l = link_run h ops (dequeue q l)"

lemma link_run_fold:
  "link_run h ops l =
     fold (\<lambda>op. case op of Link q \<Rightarrow> enqueue h q | Unlink q \<Rightarrow> dequeue q) ops l"
  by (induction h ops l rule: link_run.induct) simp_all

text \<open>
  C11: starting from an initialised head, any sequence of linking fresh nodes and unlinking linked
  ones leaves a well-formed ring whose members, read along the next pointers, are exactly the
  list that appending and removing gives.
\<close>

theorem link_run_refines_list:
  assumes "ops_valid h ops []"
  shows "ring h (fold list_op ops []) (link_run h ops (link_init h l))"
  using rings.run_ops [OF ring_init assms] by (simp only: link_run_fold)

theorem link_run_refines_list_witness:
  "ring 0 [1, 3] (link_run 0 [Link 1, Link 2, Link 3, Unlink 2] (link_init 0 \<lparr>nxt = id, prv = id\<rparr>))"
  using link_run_refines_list [of 0 "[Link 1, Link 2, Link 3, Unlink 2]" "\<lparr>nxt = id, prv = id\<rparr>"]
  by simp

end
