(* ===== verification/Loops.thy ===== *)
theory Loops
  imports Types
begin

text \<open>
  The file descriptor side of the two event loops of the library: registering and unregistering
  a watch in \<open>lib/epoll.c\<close> and in \<open>lib/select.c\<close>. The kernel's answer to
  \<open>epoll_ctl\<close> is part of the model: adding a descriptor that is already in the interest
  list and deleting one that is not in it fail, which the code answers with \<open>abort()\<close>.
\<close>

unbundle bit_operations_syntax

section \<open>epoll\<close>

definition epoll_add_watch :: "netresolve_epoll \<Rightarrow> int \<Rightarrow> int \<Rightarrow> nat \<Rightarrow> netresolve_epoll res" where
  "epoll_add_watch loop fd events watch =
     (if fd \<in> fst ` set (ep_interest loop) then Inl Aborted
      else Inr (loop\<lparr>ep_interest := ep_interest loop @ [(fd, watch)],
                     ep_count := ep_count loop + 1\<rparr>))"

text \<open>Pending events of the removed watch lose their pointer.\<close>

definition disable_events :: "nat \<Rightarrow> (nat option \<times> int) list \<Rightarrow> (nat option \<times> int) list" where
  "disable_events handle evs = map (\<lambda>(p, e). (if p = Some handle then None else p, e)) evs"

definition epoll_remove_watch :: "netresolve_epoll \<Rightarrow> int \<Rightarrow> nat \<Rightarrow> netresolve_epoll res" where
  "epoll_remove_watch loop fd handle =
     (if fd \<notin> fst ` set (ep_interest loop) then Inl Aborted
      else Inr (loop\<lparr>ep_interest := filter (\<lambda>x. fst x \<noteq> fd) (ep_interest loop),
                     ep_events := map_option (disable_events handle) (ep_events loop),
                     ep_count := ep_count loop - 1\<rparr>))"

definition epoll_cleanup_members :: "netresolve_epoll \<Rightarrow> netresolve_epoll res" where
  "epoll_cleanup_members loop = rbind (assert_that (ep_count loop = 0) loop) (\<lambda>_. Inr zero_epoll)"

section \<open>select\<close>

abbreviation FD_SETSIZE :: int where "FD_SETSIZE \<equiv> 1024"

definition FD_ISSET :: "int \<Rightarrow> int list \<Rightarrow> bool" where
  "FD_ISSET fd fds \<longleftrightarrow> fd \<in> set fds"

definition FD_SET :: "int \<Rightarrow> int list \<Rightarrow> int list" where
  "FD_SET fd fds = (if fd \<in> set fds then fds else fd # fds)"

definition FD_CLR :: "int \<Rightarrow> int list \<Rightarrow> int list" where
  "FD_CLR fd fds = filter (\<lambda>f. f \<noteq> fd) fds"

definition select_add_watch :: "netresolve_select \<Rightarrow> int \<Rightarrow> int \<Rightarrow> nat \<Rightarrow> netresolve_select res" where
  "select_add_watch loop fd events source =
     rbind (assert_that (fd \<ge> 0) loop) (\<lambda>_.
     if fd \<ge> FD_SETSIZE then Inl Out_of_bounds else
     rbind (assert_that (\<not> FD_ISSET fd (se_rfds loop) \<and> \<not> FD_ISSET fd (se_wfds loop)) loop) (\<lambda>_.
     rbind (assert_that (events AND (POLLIN OR POLLOUT) \<noteq> 0) loop) (\<lambda>_.
       Inr \<lparr>se_rfds = (if events AND POLLIN \<noteq> 0 then FD_SET fd (se_rfds loop) else se_rfds loop),
            se_wfds = (if events AND POLLOUT \<noteq> 0 then FD_SET fd (se_wfds loop) else se_wfds loop),
            se_nfds = (if fd \<ge> se_nfds loop then fd + 1 else se_nfds loop),
            se_sources = (se_sources loop)(fd \<mapsto> source)\<rparr>)))"

text \<open>The loop that lowers \<open>nfds\<close> to one more than the highest descriptor still set.\<close>

fun shrink_nfds :: "int list \<Rightarrow> int list \<Rightarrow> nat \<Rightarrow> nat" where
  "shrink_nfds r w 0 = 0"
| "shrink_nfds r w (Suc n) =
     (if \<not> FD_ISSET (int n) r \<and> \<not> FD_ISSET (int n) w then shrink_nfds r w n else Suc n)"

definition select_remove_watch :: "netresolve_select \<Rightarrow> int \<Rightarrow> nat option \<Rightarrow> netresolve_select res" where
  "select_remove_watch loop fd handle =
     rbind (assert_that (fd \<ge> 0) loop) (\<lambda>_.
     if fd \<ge> FD_SETSIZE then Inl Out_of_bounds else
     rbind (assert_that (FD_ISSET fd (se_rfds loop) \<or> FD_ISSET fd (se_wfds loop)) loop) (\<lambda>_.
     rbind (assert_that (handle = None) loop) (\<lambda>_.
     rbind (assert_that (se_nfds loop \<ge> 0) loop) (\<lambda>_.
       (let r = FD_CLR fd (se_rfds loop); w = FD_CLR fd (se_wfds loop);
            n = int (shrink_nfds r w (nat (se_nfds loop)))
        in Inr \<lparr>se_rfds = r, se_wfds = w, se_nfds = n,
                se_sources = (\<lambda>f. if f < n then se_sources loop f else None)\<rparr>)))))"

definition select_cleanup :: "netresolve_select \<Rightarrow> netresolve_select res" where
  "select_cleanup loop = rbind (assert_that (se_nfds loop = 0) loop) (\<lambda>_. Inr zero_select)"

section \<open>The contract of an event loop\<close>

definition events_ok :: "int \<Rightarrow> bool" where
  "events_ok events \<longleftrightarrow> events \<noteq> 0 \<and> events AND (NOT (POLLIN OR POLLOUT)) = 0"

lemma events_ok_cases: "events_ok e \<longleftrightarrow> e \<in> {POLLIN, POLLOUT, POLLIN + POLLOUT}"
proof
  assume e: "events_ok e"
  have "e = (e AND (NOT 5)) OR (e AND 5)"
    by (simp add: bit_eq_iff bit_simps) blast
  also have "\<dots> = e AND 5" using e by (simp add: events_ok_def)
  finally have "e = e AND 5" .
  moreover have "e AND 5 \<ge> 0" and "e AND 5 \<le> 5"
    by (simp_all add: AND_upper2)
  moreover have "e AND 5 \<notin> {2, 3}"
  proof -
    have "\<not> bit (e AND 5) 1" by (simp add: bit_simps bit_numeral_rec)
    then show ?thesis by (auto simp: bit_numeral_rec)
  qed
  ultimately have "e \<in> {0, 1, 4, 5}"
    by (smt (verit) insertCI)
  then show "e \<in> {POLLIN, POLLOUT, POLLIN + POLLOUT}"
    using e by (auto simp: events_ok_def)
next
  assume "e \<in> {POLLIN, POLLOUT, POLLIN + POLLOUT}"
  then show "events_ok e" by (auto simp: events_ok_def)
qed

text \<open>
  A loop knows which watch stands behind a descriptor. Registering a free descriptor and
  unregistering a registered one succeed and change the table at this descriptor only.
\<close>

locale fd_loop =
  fixes add_watch :: "'l \<Rightarrow> int \<Rightarrow> int \<Rightarrow> nat \<Rightarrow> 'l res"
    and remove_watch :: "'l \<Rightarrow> int \<Rightarrow> nat \<Rightarrow> 'l res"
    and watched :: "'l \<Rightarrow> int \<Rightarrow> nat option"
    and inv :: "'l \<Rightarrow> bool"
    and usable :: "int \<Rightarrow> bool"
  assumes add_watch: "inv l \<Longrightarrow> usable fd \<Longrightarrow> events_ok ev \<Longrightarrow> watched l fd = None \<Longrightarrow>
      \<exists>l'. add_watch l fd ev w = Inr l' \<and> inv l' \<and> watched l' = (watched l)(fd \<mapsto> w)"
    and remove_watch: "inv l \<Longrightarrow> watched l fd = Some w \<Longrightarrow>
      \<exists>l'. remove_watch l fd w = Inr l' \<and> inv l' \<and> watched l' = (watched l)(fd := None)"
begin

text \<open>Registering and unregistering again is possible and leaves the table as it was.\<close>

lemma add_remove:
  assumes "inv l" and "usable fd" and "events_ok ev" and "watched l fd = None"
  shows "\<exists>l1 l2. add_watch l fd ev w = Inr l1 \<and> remove_watch l1 fd w = Inr l2 \<and>
    inv l2 \<and> watched l2 = watched l"
proof -
  from add_watch [OF assms, of w] obtain l1 where
    l1: "add_watch l fd ev w = Inr l1" "inv l1" "watched l1 = (watched l)(fd \<mapsto> w)" by blast
  moreover from remove_watch [of l1 fd w] l1 obtain l2 where
    "remove_watch l1 fd w = Inr l2" "inv l2" "watched l2 = (watched l1)(fd := None)" by auto
  ultimately show ?thesis using assms(4) by (auto simp: fun_eq_iff)
qed

text \<open>Any number of watches on different free descriptors can be registered one after the other.\<close>

lemma add_many:
  assumes "inv l" and "\<forall>(fd, ev, w) \<in> set ws. usable fd \<and> events_ok ev \<and> watched l fd = None"
    and "distinct (map fst ws)"
  shows "\<exists>l'. foreach (\<lambda>(fd, ev, w) l. add_watch l fd ev w) ws l = Inr l' \<and> inv l' \<and>
    watched l' = (watched l) ++ map_of (map (\<lambda>(fd, ev, w). (fd, w)) ws)"
  using assms
proof (induction ws arbitrary: l)
  case Nil
  then show ?case by simp
next
  case (Cons x ws)
  obtain fd ev w where x: "x = (fd, ev, w)" by (cases x)
  from Cons.prems x obtain l1 where
    l1: "add_watch l fd ev w = Inr l1" "inv l1" "watched l1 = (watched l)(fd \<mapsto> w)"
    using add_watch [of l fd ev w] by auto
  have "\<forall>(fd', ev, w) \<in> set ws. usable fd' \<and> events_ok ev \<and> watched l1 fd' = None"
    using Cons.prems x l1(3) by force
  with Cons.IH [of l1] l1(2) Cons.prems(3) obtain l' where
    l': "foreach (\<lambda>(fd, ev, w) l. add_watch l fd ev w) ws l1 = Inr l'" "inv l'"
      "watched l' = (watched l1) ++ map_of (map (\<lambda>(fd, ev, w). (fd, w)) ws)"
    by auto
  have "fd \<notin> dom (map_of (map (\<lambda>(fd, ev, w). (fd, w)) ws))"
    using Cons.prems(3) x by (simp add: dom_map_of_conv_image_fst image_image case_prod_beta)
  then have "(watched l)(fd \<mapsto> w) ++ map_of (map (\<lambda>(fd, ev, w). (fd, w)) ws) =
      watched l ++ map_of (map (\<lambda>(fd, ev, w). (fd, w)) (x # ws))"
    by (auto simp: map_add_def fun_eq_iff domIff x split: option.splits)
  moreover have "foreach (\<lambda>(fd, ev, w) l. add_watch l fd ev w) (x # ws) l = Inr l'"
    using l1(1) l'(1) x by simp
  ultimately show ?case using l1(3) l'(2,3) by metis
qed

end

section \<open>Both loops keep the contract\<close>

definition epoll_watched :: "netresolve_epoll \<Rightarrow> int \<Rightarrow> nat option" where
  "epoll_watched loop = map_of (ep_interest loop)"

definition epoll_inv :: "netresolve_epoll \<Rightarrow> bool" where
  "epoll_inv loop \<longleftrightarrow> distinct (map fst (ep_interest loop)) \<and>
     ep_count loop = int (length (ep_interest loop))"

lemma epoll_watched_None: "epoll_watched l fd = None \<longleftrightarrow> fd \<notin> fst ` set (ep_interest l)"
  by (simp add: epoll_watched_def map_of_eq_None_iff)

lemma map_of_filter_fst: "map_of (filter (\<lambda>x. fst x \<noteq> k) xs) = (map_of xs)(k := None)"
  by (induction xs) (auto simp: fun_eq_iff)

lemma length_filter_distinct_fst:
  "distinct (map fst xs) \<Longrightarrow> k \<in> fst ` set xs \<Longrightarrow>
     Suc (length (filter (\<lambda>x. fst x \<noteq> k) xs)) = length xs"
proof (induction xs)
  case Nil
  then show ?case by simp
next
  case (Cons x xs)
  have "k \<notin> fst ` set xs \<Longrightarrow> filter (\<lambda>x. fst x \<noteq> k) xs = xs"
    by (force simp: filter_id_conv)
  with Cons show ?case by (cases "fst x = k") auto
qed

lemma map_of_snoc: "k \<notin> fst ` set xs \<Longrightarrow> map_of (xs @ [(k, v)]) = (map_of xs)(k \<mapsto> v)"
  by (induction xs) (auto simp: fun_eq_iff)

interpretation epoll_loop: fd_loop epoll_add_watch epoll_remove_watch epoll_watched epoll_inv "\<lambda>_. True"
proof unfold_locales
  fix l :: netresolve_epoll and fd ev w
  assume i: "epoll_inv l" and n: "epoll_watched l fd = None"
  then have nf: "fd \<notin> fst ` set (ep_interest l)" by (simp add: epoll_watched_None)
  have "map_of (ep_interest l @ [(fd, w)]) = (map_of (ep_interest l))(fd \<mapsto> w)"
    using nf by (rule map_of_snoc)
  with i nf show "\<exists>l'. epoll_add_watch l fd ev w = Inr l' \<and> epoll_inv l' \<and>
      epoll_watched l' = (epoll_watched l)(fd \<mapsto> w)"
    by (simp add: epoll_add_watch_def epoll_inv_def epoll_watched_def)
next
  fix l :: netresolve_epoll and fd w
  assume i: "epoll_inv l" and "epoll_watched l fd = Some w"
  then have f: "fd \<in> fst ` set (ep_interest l)"
    using epoll_watched_None [of l fd] by auto
  have "distinct (map fst (filter (\<lambda>x. fst x \<noteq> fd) (ep_interest l)))"
    using i by (simp add: epoll_inv_def distinct_map_filter)
  with i f show "\<exists>l'. epoll_remove_watch l fd w = Inr l' \<and> epoll_inv l' \<and>
      epoll_watched l' = (epoll_watched l)(fd := None)"
    using length_filter_distinct_fst [of "ep_interest l" fd]
    by (simp add: epoll_remove_watch_def epoll_inv_def epoll_watched_def map_of_filter_fst)
qed

definition select_watched :: "netresolve_select \<Rightarrow> int \<Rightarrow> nat option" where
  "select_watched loop fd =
     (if FD_ISSET fd (se_rfds loop) \<or> FD_ISSET fd (se_wfds loop) then se_sources loop fd else None)"

lemma select_watched_alt:
  "select_watched l f = (if f \<in> set (se_rfds l) \<union> set (se_wfds l) then se_sources l f else None)"
  by (simp add: select_watched_def FD_ISSET_def)

definition select_usable :: "int \<Rightarrow> bool" where
  "select_usable fd \<longleftrightarrow> 0 \<le> fd \<and> fd < FD_SETSIZE"

text \<open>
  Every registered descriptor has a source and lies below \<open>nfds\<close>, and \<open>nfds\<close> is not
  larger than needed.
\<close>

definition select_inv :: "netresolve_select \<Rightarrow> bool" where
  "select_inv loop \<longleftrightarrow> se_nfds loop \<ge> 0 \<and>
     (\<forall>fd \<in> set (se_rfds loop) \<union> set (se_wfds loop).
        select_usable fd \<and> fd < se_nfds loop \<and> se_sources loop fd \<noteq> None) \<and>
     (se_nfds loop > 0 \<longrightarrow> se_nfds loop - 1 \<in> set (se_rfds loop) \<union> set (se_wfds loop))"

lemma select_invD:
  "select_inv l \<Longrightarrow> fd \<in> set (se_rfds l) \<union> set (se_wfds l) \<Longrightarrow>
     select_usable fd \<and> fd < se_nfds l \<and> (\<exists>w. se_sources l fd = Some w)"
  by (simp add: select_inv_def)

lemma shrink_nfds_le: "shrink_nfds r w n \<le> n"
  by (induction n) auto

lemma shrink_nfds_top:
  "shrink_nfds r w n > 0 \<Longrightarrow> int (shrink_nfds r w n) - 1 \<in> set r \<union> set w"
  by (induction n) (auto simp: FD_ISSET_def)

lemma shrink_nfds_bound:
  "\<forall>fd \<in> set r \<union> set w. 0 \<le> fd \<and> fd < int n \<Longrightarrow> fd \<in> set r \<union> set w \<Longrightarrow> fd < int (shrink_nfds r w n)"
proof (induction n)
  case 0
  then show ?case by auto
next
  case (Suc n)
  show ?case
  proof (cases "FD_ISSET (int n) r \<or> FD_ISSET (int n) w")
    case True
    with Suc.prems show ?thesis by auto
  next
    case False
    have "\<forall>f \<in> set r \<union> set w. 0 \<le> f \<and> f < int n"
    proof
      fix f assume f: "f \<in> set r \<union> set w"
      with False have "f \<noteq> int n" by (auto simp: FD_ISSET_def)
      moreover have "0 \<le> f \<and> f < int (Suc n)" using Suc.prems(1) f by blast
      ultimately show "0 \<le> f \<and> f < int n" by simp
    qed
    with Suc.IH Suc.prems(2) False show ?thesis by simp
  qed
qed

interpretation select_loop: fd_loop select_add_watch "\<lambda>l fd w. select_remove_watch l fd None"
  select_watched select_inv select_usable
proof unfold_locales
  fix l :: netresolve_select and fd ev w
  assume i: "select_inv l" and u: "select_usable fd" and e: "events_ok ev"
    and n: "select_watched l fd = None"
  have free: "\<not> FD_ISSET fd (se_rfds l) \<and> \<not> FD_ISSET fd (se_wfds l)"
    using select_invD [OF i, of fd] n by (auto simp: select_watched_def FD_ISSET_def split: if_splits)
  let ?l = "\<lparr>se_rfds = (if ev AND POLLIN \<noteq> 0 then FD_SET fd (se_rfds l) else se_rfds l),
            se_wfds = (if ev AND POLLOUT \<noteq> 0 then FD_SET fd (se_wfds l) else se_wfds l),
            se_nfds = (if fd \<ge> se_nfds l then fd + 1 else se_nfds l),
            se_sources = (se_sources l)(fd \<mapsto> w)\<rparr>"
  have ev: "ev AND (POLLIN OR POLLOUT) \<noteq> 0" and "ev AND POLLIN \<noteq> 0 \<or> ev AND POLLOUT \<noteq> 0"
    using e by (auto simp: events_ok_cases)
  then have set: "set (se_rfds ?l) \<union> set (se_wfds ?l) = insert fd (set (se_rfds l) \<union> set (se_wfds l))"
    using free by (auto simp: FD_SET_def)
  have "select_add_watch l fd ev w = Inr ?l"
    using u free ev by (simp add: select_add_watch_def select_usable_def)
  moreover have "select_inv ?l"
    unfolding select_inv_def set
  proof (intro conjI ballI impI)
    show "se_nfds ?l \<ge> 0" using i u by (simp add: select_inv_def select_usable_def)
    show "se_nfds ?l - 1 \<in> insert fd (set (se_rfds l) \<union> set (se_wfds l))" if "se_nfds ?l > 0"
    proof (cases "fd \<ge> se_nfds l")
      case False
      with that have "se_nfds l > 0" by simp
      with i False show ?thesis by (simp add: select_inv_def)
    qed simp
    fix f assume f: "f \<in> insert fd (set (se_rfds l) \<union> set (se_wfds l))"
    have "f = fd \<or> select_usable f \<and> f < se_nfds l \<and> (\<exists>v. se_sources l f = Some v)"
      using f select_invD [OF i, of f] by blast
    then show "select_usable f" "f < se_nfds ?l" "se_sources ?l f \<noteq> None"
      using u by auto
  qed
  moreover have "select_watched ?l = (select_watched l)(fd \<mapsto> w)"
  proof
    fix f
    have "select_watched ?l f =
        (if f \<in> insert fd (set (se_rfds l) \<union> set (se_wfds l)) then se_sources ?l f else None)"
      by (simp only: select_watched_alt set)
    then show "select_watched ?l f = ((select_watched l)(fd \<mapsto> w)) f"
      by (simp add: select_watched_alt)
  qed
  ultimately show "\<exists>l'. select_add_watch l fd ev w = Inr l' \<and> select_inv l' \<and>
      select_watched l' = (select_watched l)(fd \<mapsto> w)" by blast
next
  fix l :: netresolve_select and fd w
  assume i: "select_inv l" and s: "select_watched l fd = Some w"
  let ?r = "FD_CLR fd (se_rfds l)" and ?w = "FD_CLR fd (se_wfds l)"
  let ?n = "shrink_nfds ?r ?w (nat (se_nfds l))"
  let ?l = "\<lparr>se_rfds = ?r, se_wfds = ?w, se_nfds = int ?n,
    se_sources = (\<lambda>f. if f < int ?n then se_sources l f else None)\<rparr>"
  have set: "set ?r \<union> set ?w = set (se_rfds l) \<union> set (se_wfds l) - {fd}"
    by (auto simp: FD_CLR_def)
  have fdset: "FD_ISSET fd (se_rfds l) \<or> FD_ISSET fd (se_wfds l)"
    using s by (auto simp: select_watched_def split: if_splits)
  have b: "\<forall>f \<in> set ?r \<union> set ?w. 0 \<le> f \<and> f < int (nat (se_nfds l))"
  proof
    fix f assume "f \<in> set ?r \<union> set ?w"
    then have "f \<in> set (se_rfds l) \<union> set (se_wfds l)" using set by blast
    from select_invD [OF i this] show "0 \<le> f \<and> f < int (nat (se_nfds l))"
      by (simp add: select_usable_def)
  qed
  have bound: "f < int ?n" if "f \<in> set ?r \<union> set ?w" for f
    using shrink_nfds_bound [OF b that] .
  have "0 \<le> fd \<and> fd < FD_SETSIZE \<and> se_nfds l \<ge> 0"
    using i select_invD [OF i, of fd] fdset by (auto simp: select_inv_def select_usable_def FD_ISSET_def)
  then have "select_remove_watch l fd None = Inr ?l"
    using fdset by (simp add: select_remove_watch_def Let_def)
  moreover have "select_inv ?l"
    unfolding select_inv_def
    using i bound set shrink_nfds_top [of ?r ?w "nat (se_nfds l)"] by (auto simp: select_inv_def)
  moreover have "select_watched ?l = (select_watched l)(fd := None)"
  proof
    fix f
    have "f \<in> set (se_rfds ?l) \<union> set (se_wfds ?l) \<longleftrightarrow> f \<in> set (se_rfds l) \<union> set (se_wfds l) \<and> f \<noteq> fd"
      using set by auto
    then show "select_watched ?l f = ((select_watched l)(fd := None)) f"
      using bound [of f] unfolding select_watched_alt by simp
  qed
  ultimately show "\<exists>l'. select_remove_watch l fd None = Inr l' \<and> select_inv l' \<and>
      select_watched l' = (select_watched l)(fd := None)" by blast
qed



end
