(* ===== verification/Event.thy ===== *)
theory Event
  imports Loops Links
begin

text \<open>
  Watches and timeouts of a query, after \<open>lib/event.c\<close>. A watch is registered with the
  context's event loop, linked to the query, and counted in the query and in the context; a
  timeout is a watch on a fresh timer descriptor.
\<close>

section \<open>File descriptors of the process\<close>

text \<open>The kernel hands out the lowest descriptor that is not open, within the limit.\<close>

definition lowest_fd :: "int list \<Rightarrow> int" where
  "lowest_fd fds = int (find_index (\<lambda>n. int n \<notin> set fds) [0..<Suc (length fds)])"

definition alloc_fd :: "os \<Rightarrow> (int \<times> os) option" where
  "alloc_fd o1 =
     (let fd = lowest_fd (os_open_fds o1)
      in if fd < int (os_fd_limit o1) then Some (fd, o1\<lparr>os_open_fds := fd # os_open_fds o1\<rparr>) else None)"

definition close_fd :: "int \<Rightarrow> sys \<Rightarrow> sys" where
  "close_fd fd = upd_os (\<lambda>o1. o1\<lparr>os_open_fds := remove1 fd (os_open_fds o1)\<rparr>)"

lemma lowest_fd_nonneg [simp]: "lowest_fd fds \<ge> 0"
  by (simp add: lowest_fd_def)

lemma lowest_fd_fresh: "lowest_fd fds \<notin> set fds"
proof -
  let ?p = "\<lambda>n. int n \<notin> set fds" and ?ns = "[0..<Suc (length fds)]"
  have "\<exists>n \<in> set ?ns. ?p n"
  proof (rule ccontr)
    assume "\<not> ?thesis"
    then have "\<forall>n \<in> set ?ns. int n \<in> set fds" by blast
    then have "int ` {0..<Suc (length fds)} \<subseteq> set fds"
      by (simp only: set_upt) blast
    then have "card (int ` {0..<Suc (length fds)}) \<le> card (set fds)"
      by (intro card_mono) simp_all
    also have "\<dots> \<le> length fds" by (rule card_length)
    finally show False by (simp add: card_image)
  qed
  then have less: "find_index ?p ?ns < length ?ns" by (simp only: find_index_less_iff)
  then have "?p (?ns ! find_index ?p ?ns)" by (rule find_index_nth)
  moreover have "?ns ! find_index ?p ?ns = find_index ?p ?ns"
    using less by (simp del: upt_Suc)
  ultimately show ?thesis by (simp only: lowest_fd_def not_False_eq_True)
qed

section \<open>Watches\<close>

definition call_add_watch :: "sys \<Rightarrow> int \<Rightarrow> int \<Rightarrow> nat \<Rightarrow> sys res" where
  "call_add_watch s fd events watch =
     (case cx_callbacks (s_ctx s) of
        FD_NONE \<Rightarrow> Inl Null_dereference
      | FD_EPOLL_INTERNAL \<Rightarrow> rbind (epoll_add_watch (cx_epoll (s_ctx s)) fd events watch)
          (\<lambda>l. Inr (upd_ctx (\<lambda>c. c\<lparr>cx_epoll := l\<rparr>) s))
      | FD_EPOLL \<Rightarrow> rbind (epoll_add_watch (cx_epoll (s_ctx s)) fd events watch)
          (\<lambda>l. Inr (upd_ctx (\<lambda>c. c\<lparr>cx_epoll := l\<rparr>) s))
      | FD_SELECT \<Rightarrow> rbind (select_add_watch (cx_select (s_ctx s)) fd events watch)
          (\<lambda>l. Inr (upd_ctx (\<lambda>c. c\<lparr>cx_select := l\<rparr>) s))
      | FD_APPLICATION \<Rightarrow> Inr s)"

definition call_remove_watch :: "sys \<Rightarrow> int \<Rightarrow> nat \<Rightarrow> sys res" where
  "call_remove_watch s fd watch =
     (case cx_callbacks (s_ctx s) of
        FD_NONE \<Rightarrow> Inl Null_dereference
      | FD_EPOLL_INTERNAL \<Rightarrow> rbind (epoll_remove_watch (cx_epoll (s_ctx s)) fd watch)
          (\<lambda>l. Inr (upd_ctx (\<lambda>c. c\<lparr>cx_epoll := l\<rparr>) s))
      | FD_EPOLL \<Rightarrow> rbind (epoll_remove_watch (cx_epoll (s_ctx s)) fd watch)
          (\<lambda>l. Inr (upd_ctx (\<lambda>c. c\<lparr>cx_epoll := l\<rparr>) s))
      | FD_SELECT \<Rightarrow> rbind (select_remove_watch (cx_select (s_ctx s)) fd None)
          (\<lambda>l. Inr (upd_ctx (\<lambda>c. c\<lparr>cx_select := l\<rparr>) s))
      | FD_APPLICATION \<Rightarrow> Inr s)"

definition netresolve_watch_add ::
    "int \<Rightarrow> int \<Rightarrow> watch_callback \<Rightarrow> watch_data \<Rightarrow> sys \<Rightarrow> (nat \<times> sys) res" where
  "netresolve_watch_add fd events callback data s =
     rbind (assert_that (fd \<ge> 0) s) (\<lambda>s.
     rbind (assert_that (events_ok events) s) (\<lambda>s.
       (let w = os_next_watch (s_os s);
            watch = \<lparr>w_id = w, w_fd = fd, w_callback = callback,
                     w_timeout_callback = TCB_NULL, w_data = data\<rparr>
        in rbind (call_add_watch (upd_os (\<lambda>o1. o1\<lparr>os_next_watch := Suc w\<rparr>) s) fd events w) (\<lambda>s.
           (let s1 = upd_query (\<lambda>q. q\<lparr>q_watches := q_watches q @ [watch], q_nfds := q_nfds q + 1\<rparr>) s;
                s2 = upd_ctx (\<lambda>c. c\<lparr>cx_nfds := cx_nfds c + 1\<rparr>) s1
            in Inr (w, s2))))))"

text \<open>A pointer to a watch that is not linked to the query would be dangling.\<close>

definition netresolve_watch_remove :: "nat \<Rightarrow> bool \<Rightarrow> sys \<Rightarrow> sys res" where
  "netresolve_watch_remove w do_close s =
     rbind (assert_that (q_nfds (s_query s) > 0) s) (\<lambda>s.
     rbind (assert_that (cx_nfds (s_ctx s) > 0) s) (\<lambda>s.
       (case find (\<lambda>x. w_id x = w) (q_watches (s_query s)) of
          None \<Rightarrow> Inl Out_of_bounds
        | Some watch \<Rightarrow>
            (let s1 = upd_query (\<lambda>q. q\<lparr>q_watches := filter (\<lambda>x. w_id x \<noteq> w) (q_watches q),
                                      q_nfds := q_nfds q - 1\<rparr>) s;
                 s2 = upd_ctx (\<lambda>c. c\<lparr>cx_nfds := cx_nfds c - 1\<rparr>) s1
             in rbind (call_remove_watch s2 (w_fd watch) w) (\<lambda>s3.
                  Inr (if do_close then close_fd (w_fd watch) s3 else s3))))))"

section \<open>Timeouts\<close>

text \<open>The value given to \<open>timerfd_settime\<close>; all zeros would disarm the timer.\<close>

definition timerspec :: "int \<Rightarrow> int \<Rightarrow> int \<times> int" where
  "timerspec sec nsec = (sec, if sec \<noteq> 0 \<or> nsec \<noteq> 0 then nsec else 1)"

definition timerspec_valid :: "int \<times> int \<Rightarrow> bool" where
  "timerspec_valid t \<longleftrightarrow> 0 \<le> fst t \<and> 0 \<le> snd t \<and> snd t \<le> 999999999"

definition netresolve_timeout_add ::
    "int \<Rightarrow> int \<Rightarrow> timeout_callback \<Rightarrow> watch_data \<Rightarrow> sys \<Rightarrow> (nat option \<times> sys) res" where
  "netresolve_timeout_add sec nsec callback data s =
     (case alloc_fd (s_os s) of
        None \<Rightarrow> Inr (None, s)
      | Some (fd, o1) \<Rightarrow>
          (let s1 = s\<lparr>s_os := o1\<rparr>
           in if \<not> timerspec_valid (timerspec sec nsec) then Inr (None, close_fd fd s1)
              else rbind (netresolve_watch_add fd POLLIN CB_NULL data s1) (\<lambda>(w, s2).
                (let set_callback = (\<lambda>x. if w_id x = w \<and> callback \<noteq> TCB_NULL
                       then x\<lparr>w_callback := CB_timeout, w_timeout_callback := callback\<rparr> else x)
                 in Inr (Some w, upd_query (\<lambda>q. q\<lparr>q_watches := map set_callback (q_watches q)\<rparr>) s2)))))"

definition netresolve_timeout_add_ms ::
    "int \<Rightarrow> timeout_callback \<Rightarrow> watch_data \<Rightarrow> sys \<Rightarrow> (nat option \<times> sys) res" where
  "netresolve_timeout_add_ms msec callback data =
     netresolve_timeout_add (c_div msec 1000) (c_mod msec 1000 * 1000000) callback data"

definition netresolve_timeout_remove :: "nat \<Rightarrow> sys \<Rightarrow> sys res" where
  "netresolve_timeout_remove timeout = netresolve_watch_remove timeout True"

definition netresolve_set_fd_callbacks :: "fd_callbacks \<Rightarrow> netresolve_context \<Rightarrow> netresolve_context res" where
  "netresolve_set_fd_callbacks callbacks c =
     rbind (assert_that (callbacks \<noteq> FD_NONE) c) (\<lambda>c.
     rbind (assert_that (cx_callbacks c = FD_NONE) c) (\<lambda>c. Inr (c\<lparr>cx_callbacks := callbacks\<rparr>)))"

text \<open>The watch that the context's own loop has registered for a descriptor.\<close>

definition loop_watched :: "netresolve_context \<Rightarrow> int \<Rightarrow> nat option" where
  "loop_watched c = (case cx_callbacks c of
     FD_EPOLL_INTERNAL \<Rightarrow> epoll_watched (cx_epoll c)
   | FD_EPOLL \<Rightarrow> epoll_watched (cx_epoll c)
   | FD_SELECT \<Rightarrow> select_watched (cx_select c)
   | _ \<Rightarrow> Map.empty)"

section \<open>What the routines leave alone\<close>

text \<open>
  The state without the event bookkeeping: watches, counters, loops and descriptors are wiped out,
  so that two states with the same base agree on everything else. The core also has what belongs to
  other queries of the context: their registrations and the number of their descriptors.
\<close>

definition base :: "sys \<Rightarrow> sys" where
  "base s = \<lparr>s_os = (s_os s)\<lparr>os_open_fds := [], os_next_watch := 0\<rparr>,
     s_ctx = (s_ctx s)\<lparr>cx_epoll := zero_epoll, cx_select := zero_select, cx_nfds := 0\<rparr>,
     s_query = (s_query s)\<lparr>q_watches := [], q_nfds := 0\<rparr>\<rparr>"

lemma base_upds [simp]:
  "base (upd_query (\<lambda>q. q\<lparr>q_watches := f q, q_nfds := g q\<rparr>) s) = base s"
  "base (upd_query (\<lambda>q. q\<lparr>q_watches := f q\<rparr>) s) = base s"
  "base (upd_ctx (\<lambda>c. c\<lparr>cx_nfds := h c\<rparr>) s) = base s"
  "base (upd_ctx (\<lambda>c. c\<lparr>cx_epoll := le\<rparr>) s) = base s"
  "base (upd_ctx (\<lambda>c. c\<lparr>cx_select := ls\<rparr>) s) = base s"
  "base (upd_os (\<lambda>o1. o1\<lparr>os_next_watch := n\<rparr>) s) = base s"
  "base (s\<lparr>s_os := (s_os s)\<lparr>os_open_fds := fds\<rparr>\<rparr>) = base s"
  "base (close_fd fd s) = base s"
  by (simp_all add: base_def upd_query_def upd_ctx_def upd_os_def close_fd_def)

lemma base_call_add_watch: "call_add_watch s fd ev w = Inr s' \<Longrightarrow> base s' = base s"
  by (auto simp: call_add_watch_def split: fd_callbacks.splits)

lemma base_call_remove_watch: "call_remove_watch s fd w = Inr s' \<Longrightarrow> base s' = base s"
  by (auto simp: call_remove_watch_def split: fd_callbacks.splits)

lemma base_watch_add: "netresolve_watch_add fd ev cb d s = Inr (w, s') \<Longrightarrow> base s' = base s"
  by (auto simp: netresolve_watch_add_def Let_def dest!: base_call_add_watch)

lemma base_watch_remove: "netresolve_watch_remove w cl s = Inr s' \<Longrightarrow> base s' = base s"
  by (auto simp: netresolve_watch_remove_def Let_def split: option.splits if_splits
      dest!: base_call_remove_watch)

lemma base_timeout_add: "netresolve_timeout_add sec nsec cb d s = Inr (w, s') \<Longrightarrow> base s' = base s"
  by (auto simp: netresolve_timeout_add_def alloc_fd_def Let_def split: option.splits if_splits
      dest!: base_watch_add)

lemma base_timeout_add_ms: "netresolve_timeout_add_ms ms cb d s = Inr (w, s') \<Longrightarrow> base s' = base s"
  unfolding netresolve_timeout_add_ms_def by (rule base_timeout_add)

lemma base_timeout_remove: "netresolve_timeout_remove w s = Inr s' \<Longrightarrow> base s' = base s"
  unfolding netresolve_timeout_remove_def by (rule base_watch_remove)

definition own_ids :: "sys \<Rightarrow> nat set" where
  "own_ids s = w_id ` set (q_watches (s_query s))"

definition without_ids :: "nat set \<Rightarrow> netresolve_context \<Rightarrow> int \<Rightarrow> nat option" where
  "without_ids ids c fd = (case loop_watched c fd of
     None \<Rightarrow> None | Some w \<Rightarrow> if w \<in> ids then None else Some w)"

definition foreign :: "sys \<Rightarrow> int \<Rightarrow> nat option" where
  "foreign s = without_ids (own_ids s) (s_ctx s)"

definition core :: "sys \<Rightarrow> sys" where
  "core s = (base s)\<lparr>s_ctx := (s_ctx (base s))\<lparr>cx_select := zero_select\<lparr>se_sources := foreign s\<rparr>,
     cx_nfds := cx_nfds (s_ctx s) - q_nfds (s_query s)\<rparr>\<rparr>"

lemma core_simps [simp]:
  "q_state (s_query (core s)) = q_state (s_query s)"
  "q_backend (s_query (core s)) = q_backend (s_query s)"
  "q_request (s_query (core s)) = q_request (s_query s)"
  "q_response (s_query (core s)) = q_response (s_query s)"
  "q_callback (s_query (core s)) = q_callback (s_query s)"
  "q_user_data (s_query (core s)) = q_user_data (s_query s)"
  "q_services (s_query (core s)) = q_services (s_query s)"
  "q_delayed (s_query (core s)) = q_delayed (s_query s)"
  "q_request_timeout (s_query (core s)) = q_request_timeout (s_query s)"
  "q_result_timeout (s_query (core s)) = q_result_timeout (s_query s)"
  "cx_backends (s_ctx (core s)) = cx_backends (s_ctx s)"
  "cx_callbacks (s_ctx (core s)) = cx_callbacks (s_ctx s)"
  "cx_force_family (s_ctx (core s)) = cx_force_family (s_ctx s)"
  "os_calls (s_os (core s)) = os_calls (s_os s)"
  "os_fd_limit (s_os (core s)) = os_fd_limit (s_os s)"
  "se_sources (cx_select (s_ctx (core s))) = foreign s"
  "cx_nfds (s_ctx (core s)) = cx_nfds (s_ctx s) - q_nfds (s_query s)"
  by (simp_all add: core_def base_def)

lemma core_eqD:
  assumes "core s' = core s"
  shows "q_state (s_query s') = q_state (s_query s)"
    "q_backend (s_query s') = q_backend (s_query s)"
    "q_request (s_query s') = q_request (s_query s)"
    "q_response (s_query s') = q_response (s_query s)"
    "q_callback (s_query s') = q_callback (s_query s)"
    "q_user_data (s_query s') = q_user_data (s_query s)"
    "q_services (s_query s') = q_services (s_query s)"
    "q_delayed (s_query s') = q_delayed (s_query s)"
    "q_request_timeout (s_query s') = q_request_timeout (s_query s)"
    "q_result_timeout (s_query s') = q_result_timeout (s_query s)"
    "cx_backends (s_ctx s') = cx_backends (s_ctx s)"
    "cx_callbacks (s_ctx s') = cx_callbacks (s_ctx s)"
    "cx_force_family (s_ctx s') = cx_force_family (s_ctx s)"
    "os_calls (s_os s') = os_calls (s_os s)"
    "os_fd_limit (s_os s') = os_fd_limit (s_os s)"
    "foreign s' = foreign s"
    "cx_nfds (s_ctx s') - q_nfds (s_query s') = cx_nfds (s_ctx s) - q_nfds (s_query s)"
  by (metis assms core_simps)+

lemmas core_unfold = core_def base_def foreign_def own_ids_def

lemma coreI:
  "base s' = base s \<Longrightarrow> foreign s' = foreign s \<Longrightarrow>
   cx_nfds (s_ctx s') - q_nfds (s_query s') = cx_nfds (s_ctx s) - q_nfds (s_query s) \<Longrightarrow> core s' = core s"
  by (simp add: core_def)

lemma core_os [simp]:
  "core (s\<lparr>s_os := (s_os s)\<lparr>os_open_fds := fds\<rparr>\<rparr>) = core s"
  "core (close_fd fd s) = core s"
  by (simp_all add: core_unfold close_fd_def upd_os_def)

section \<open>The bookkeeping invariant\<close>

definition loop_inv :: "sys \<Rightarrow> bool" where
  "loop_inv s \<longleftrightarrow> (case cx_callbacks (s_ctx s) of
     FD_EPOLL_INTERNAL \<Rightarrow> epoll_inv (cx_epoll (s_ctx s))
   | FD_EPOLL \<Rightarrow> epoll_inv (cx_epoll (s_ctx s))
   | FD_SELECT \<Rightarrow> select_inv (cx_select (s_ctx s)) \<and> os_fd_limit (s_os s) \<le> 1024
   | _ \<Rightarrow> False)"

text \<open>Open descriptors are distinct and below the limit, as the kernel keeps them.\<close>

definition fds_inv :: "os \<Rightarrow> bool" where
  "fds_inv o1 \<longleftrightarrow> distinct (os_open_fds o1) \<and>
     (\<forall>fd \<in> set (os_open_fds o1). 0 \<le> fd \<and> fd < int (os_fd_limit o1))"

text \<open>The watches that the events of the last wait still point to.\<close>

definition pending_watches :: "netresolve_context \<Rightarrow> nat set" where
  "pending_watches c =
     (if cx_callbacks c = FD_EPOLL \<or> cx_callbacks c = FD_EPOLL_INTERNAL
      then (case ep_events (cx_epoll c) of None \<Rightarrow> {} | Some evs \<Rightarrow> {w. \<exists>e. (Some w, e) \<in> set evs}) else {})"

text \<open>
  Every watch of the query is registered under its descriptor, the counters count, a watch is
  registered once, registered descriptors are open, and pending events are those of registered
  watches.
\<close>

definition ev_inv :: "sys \<Rightarrow> bool" where
  "ev_inv s \<longleftrightarrow> loop_inv s \<and> fds_inv (s_os s) \<and>
     q_nfds (s_query s) = int (length (q_watches (s_query s))) \<and>
     q_nfds (s_query s) \<le> cx_nfds (s_ctx s) \<and>
     distinct (map w_id (q_watches (s_query s))) \<and>
     (\<forall>w \<in> set (q_watches (s_query s)). loop_watched (s_ctx s) (w_fd w) = Some (w_id w)) \<and>
     (\<forall>fd w. loop_watched (s_ctx s) fd = Some w \<longrightarrow>
        fd \<in> set (os_open_fds (s_os s)) \<and> w < os_next_watch (s_os s)) \<and>
     (\<forall>fd fd' w. loop_watched (s_ctx s) fd = Some w \<longrightarrow> loop_watched (s_ctx s) fd' = Some w \<longrightarrow> fd = fd') \<and>
     pending_watches (s_ctx s) \<subseteq> ran (loop_watched (s_ctx s))"

lemma ev_invD:
  assumes "ev_inv s"
  shows "loop_inv s" "fds_inv (s_os s)"
    "q_nfds (s_query s) = int (length (q_watches (s_query s)))"
    "q_nfds (s_query s) \<le> cx_nfds (s_ctx s)"
    "distinct (map w_id (q_watches (s_query s)))"
    "w \<in> set (q_watches (s_query s)) \<Longrightarrow> loop_watched (s_ctx s) (w_fd w) = Some (w_id w)"
    "loop_watched (s_ctx s) fd = Some n \<Longrightarrow> fd \<in> set (os_open_fds (s_os s))"
    "loop_watched (s_ctx s) fd = Some n \<Longrightarrow> n < os_next_watch (s_os s)"
    "loop_watched (s_ctx s) fd = Some n \<Longrightarrow> loop_watched (s_ctx s) fd' = Some n \<Longrightarrow> fd = fd'"
    "pending_watches (s_ctx s) \<subseteq> ran (loop_watched (s_ctx s))"
  using assms unfolding ev_inv_def by blast+

lemma pending_simps [simp]:
  "pending_watches (c\<lparr>cx_nfds := n\<rparr>) = pending_watches c"
  "pending_watches (c\<lparr>cx_backends := b\<rparr>) = pending_watches c"
  by (simp_all add: pending_watches_def)

lemma disable_events_pending:
  "(Some v, e) \<in> set (disable_events w evs) \<Longrightarrow> (Some v, e) \<in> set evs \<and> v \<noteq> w"
  by (auto simp: disable_events_def split: if_splits)

lemma epoll_add_watch_events: "epoll_add_watch l fd ev w = Inr l' \<Longrightarrow> ep_events l' = ep_events l"
  by (auto simp: epoll_add_watch_def split: if_splits)

lemma epoll_remove_watch_events:
  "epoll_remove_watch l fd w = Inr l' \<Longrightarrow> ep_events l' = map_option (disable_events w) (ep_events l)"
  by (auto simp: epoll_remove_watch_def split: if_splits)

lemma call_add_watch_pending:
  "call_add_watch s fd ev w = Inr s' \<Longrightarrow> pending_watches (s_ctx s') = pending_watches (s_ctx s)"
  by (auto simp: call_add_watch_def pending_watches_def dest: epoll_add_watch_events split: fd_callbacks.splits)

lemma call_remove_watch_pending:
  "call_remove_watch s fd w = Inr s' \<Longrightarrow> pending_watches (s_ctx s') \<subseteq> pending_watches (s_ctx s) - {w}"
  by (auto simp: call_remove_watch_def pending_watches_def dest!: epoll_remove_watch_events disable_events_pending
      split: fd_callbacks.splits option.splits if_splits)

lemma loop_simps [simp]:
  "loop_watched (c\<lparr>cx_nfds := n\<rparr>) = loop_watched c"
  "loop_watched (c\<lparr>cx_backends := b\<rparr>) = loop_watched c"
  "without_ids ids (c\<lparr>cx_backends := b\<rparr>) = without_ids ids c"
  "loop_inv (upd_query f s) = loop_inv s"
  "loop_inv (upd_ctx (\<lambda>c. c\<lparr>cx_nfds := g c\<rparr>) s) = loop_inv s"
  "loop_inv (close_fd fd s) = loop_inv s"
  "loop_inv (upd_os (\<lambda>o1. o1\<lparr>os_next_watch := k\<rparr>) s) = loop_inv s"
  by (simp_all add: loop_watched_def loop_inv_def close_fd_def without_ids_def fun_eq_iff split: fd_callbacks.splits)

lemma call_add_watch_ok:
  assumes "loop_inv s" and "loop_watched (s_ctx s) fd = None" and "events_ok ev"
    and "0 \<le> fd" and "fd < int (os_fd_limit (s_os s))"
  shows "\<exists>c. call_add_watch s fd ev w = Inr (s\<lparr>s_ctx := c\<rparr>) \<and> loop_inv (s\<lparr>s_ctx := c\<rparr>) \<and>
    loop_watched c = (loop_watched (s_ctx s))(fd \<mapsto> w) \<and> cx_nfds c = cx_nfds (s_ctx s)"
proof (cases "cx_callbacks (s_ctx s) = FD_SELECT")
  case True
  have "select_usable fd" using True assms by (simp add: loop_inv_def select_usable_def)
  with True assms obtain l where l: "select_add_watch (cx_select (s_ctx s)) fd ev w = Inr l"
    "select_inv l" "select_watched l = (select_watched (cx_select (s_ctx s)))(fd \<mapsto> w)"
    using select_loop.add_watch [of "cx_select (s_ctx s)" fd ev w]
    by (auto simp: loop_inv_def loop_watched_def)
  show ?thesis
    by (rule exI [of _ "(s_ctx s)\<lparr>cx_select := l\<rparr>"])
      (use True l assms(1) in \<open>simp add: call_add_watch_def loop_inv_def loop_watched_def upd_ctx_def\<close>)
next
  case False
  with assms(1) have e: "cx_callbacks (s_ctx s) = FD_EPOLL \<or> cx_callbacks (s_ctx s) = FD_EPOLL_INTERNAL"
    by (auto simp: loop_inv_def split: fd_callbacks.splits)
  with assms obtain l where l: "epoll_add_watch (cx_epoll (s_ctx s)) fd ev w = Inr l"
    "epoll_inv l" "epoll_watched l = (epoll_watched (cx_epoll (s_ctx s)))(fd \<mapsto> w)"
    using epoll_loop.add_watch [of "cx_epoll (s_ctx s)" ev fd w]
    by (auto simp: loop_inv_def loop_watched_def)
  show ?thesis
    by (rule exI [of _ "(s_ctx s)\<lparr>cx_epoll := l\<rparr>"])
      (use e l in \<open>auto simp: call_add_watch_def loop_inv_def loop_watched_def upd_ctx_def\<close>)
qed

lemma call_remove_watch_ok:
  assumes "loop_inv s" and "loop_watched (s_ctx s) fd = Some w"
  shows "\<exists>c. call_remove_watch s fd w = Inr (s\<lparr>s_ctx := c\<rparr>) \<and> loop_inv (s\<lparr>s_ctx := c\<rparr>) \<and>
    loop_watched c = (loop_watched (s_ctx s))(fd := None) \<and> cx_nfds c = cx_nfds (s_ctx s)"
proof (cases "cx_callbacks (s_ctx s) = FD_SELECT")
  case True
  with assms obtain l where l: "select_remove_watch (cx_select (s_ctx s)) fd None = Inr l"
    "select_inv l" "select_watched l = (select_watched (cx_select (s_ctx s)))(fd := None)"
    using select_loop.remove_watch [of "cx_select (s_ctx s)" fd w]
    by (auto simp: loop_inv_def loop_watched_def)
  show ?thesis
    by (rule exI [of _ "(s_ctx s)\<lparr>cx_select := l\<rparr>"])
      (use True l assms(1) in \<open>simp add: call_remove_watch_def loop_inv_def loop_watched_def upd_ctx_def\<close>)
next
  case False
  with assms(1) have e: "cx_callbacks (s_ctx s) = FD_EPOLL \<or> cx_callbacks (s_ctx s) = FD_EPOLL_INTERNAL"
    by (auto simp: loop_inv_def split: fd_callbacks.splits)
  with assms obtain l where l: "epoll_remove_watch (cx_epoll (s_ctx s)) fd w = Inr l"
    "epoll_inv l" "epoll_watched l = (epoll_watched (cx_epoll (s_ctx s)))(fd := None)"
    using epoll_loop.remove_watch [of "cx_epoll (s_ctx s)" fd w]
    by (auto simp: loop_inv_def loop_watched_def)
  show ?thesis
    by (rule exI [of _ "(s_ctx s)\<lparr>cx_epoll := l\<rparr>"])
      (use e l in \<open>auto simp: call_remove_watch_def loop_inv_def loop_watched_def upd_ctx_def\<close>)
qed

text \<open>Watches of different identity stand on different descriptors.\<close>

lemma ev_inv_fd_inj:
  assumes "ev_inv s" and "w \<in> set (q_watches (s_query s))" and "v \<in> set (q_watches (s_query s))"
    and "w_fd w = w_fd v"
  shows "w = v"
proof -
  have "w_id w = w_id v" using ev_invD(6) [OF assms(1)] assms(2-4) by (metis option.inject)
  then show ?thesis using ev_invD(5) [OF assms(1)] assms(2,3) by (metis distinct_map inj_onD)
qed

lemma ev_inv_find:
  assumes "ev_inv s" and "w \<in> set (q_watches (s_query s))"
  shows "find (\<lambda>x. w_id x = w_id w) (q_watches (s_query s)) = Some w"
proof -
  have "distinct (map w_id ws) \<Longrightarrow> w \<in> set ws \<Longrightarrow> find (\<lambda>x. w_id x = w_id w) ws = Some w" for ws
    by (induction ws) auto
  then show ?thesis using assms ev_invD(5) by blast
qed

lemma watch_add_ok:
  assumes inv: "ev_inv s" and fd: "fd \<in> set (os_open_fds (s_os s))"
    and free: "loop_watched (s_ctx s) fd = None" and ev: "events_ok ev"
  obtains s' where "netresolve_watch_add fd ev cb d s = Inr (os_next_watch (s_os s), s')" "ev_inv s'"
    "q_watches (s_query s') = q_watches (s_query s) @
       [\<lparr>w_id = os_next_watch (s_os s), w_fd = fd, w_callback = cb, w_timeout_callback = TCB_NULL, w_data = d\<rparr>]"
    "os_open_fds (s_os s') = os_open_fds (s_os s)"
    "os_next_watch (s_os s') = Suc (os_next_watch (s_os s))"
    "loop_watched (s_ctx s') = (loop_watched (s_ctx s))(fd \<mapsto> os_next_watch (s_os s))"
    "core s' = core s"
proof -
  let ?w = "os_next_watch (s_os s)"
  let ?watch = "\<lparr>w_id = ?w, w_fd = fd, w_callback = cb, w_timeout_callback = TCB_NULL, w_data = d\<rparr>"
  let ?s = "upd_os (\<lambda>o1. o1\<lparr>os_next_watch := Suc ?w\<rparr>) s"
  have fdr: "0 \<le> fd" "fd < int (os_fd_limit (s_os s))"
    using fd ev_invD(2) [OF inv] by (auto simp: fds_inv_def)
  have "loop_inv ?s" using ev_invD(1) [OF inv] by simp
  then obtain c where c: "call_add_watch ?s fd ev ?w = Inr (?s\<lparr>s_ctx := c\<rparr>)" "loop_inv (?s\<lparr>s_ctx := c\<rparr>)"
    "loop_watched c = (loop_watched (s_ctx s))(fd \<mapsto> ?w)" "cx_nfds c = cx_nfds (s_ctx s)"
    using call_add_watch_ok [of ?s fd ev ?w] free ev fdr by auto
  let ?t = "upd_query (\<lambda>q. q\<lparr>q_watches := q_watches q @ [?watch], q_nfds := q_nfds q + 1\<rparr>) (?s\<lparr>s_ctx := c\<rparr>)"
  let ?u = "upd_ctx (\<lambda>c. c\<lparr>cx_nfds := cx_nfds c + 1\<rparr>) ?t"
  have add: "netresolve_watch_add fd ev cb d s = Inr (?w, ?u)"
    using c(1) fdr ev by (simp add: netresolve_watch_add_def Let_def)
  have fresh: "w_fd w \<noteq> fd \<and> w_id w < ?w" if "w \<in> set (q_watches (s_query s))" for w
    using ev_invD(6,8) [OF inv] that free by fastforce
  have "loop_inv ?u" using c(2) by simp
  moreover have "fds_inv (s_os ?u)" using ev_invD(2) [OF inv] by (simp add: fds_inv_def)
  moreover have "distinct (map w_id (q_watches (s_query ?u)))"
    using ev_invD(5) [OF inv] fresh by simp (metis imageE less_irrefl)
  moreover have "loop_watched (s_ctx ?u) (w_fd w) = Some (w_id w)" if "w \<in> set (q_watches (s_query ?u))" for w
    using that fresh ev_invD(6) [OF inv] c(3) by auto
  moreover have "f \<in> set (os_open_fds (s_os ?u)) \<and> n < os_next_watch (s_os ?u)"
    if "loop_watched (s_ctx ?u) f = Some n" for f n
    using that fd c(3) ev_invD(7,8) [OF inv] by (fastforce split: if_splits)
  moreover have "f = f'" if "loop_watched (s_ctx ?u) f = Some n" "loop_watched (s_ctx ?u) f' = Some n" for f f' n
    using that c(3) ev_invD(8,9) [OF inv] by (auto split: if_splits)
  moreover have "pending_watches (s_ctx ?u) \<subseteq> ran (loop_watched (s_ctx ?u))"
    using call_add_watch_pending [OF c(1)] ev_invD(10) [OF inv] c(3) free by (auto simp: ran_map_upd)
  ultimately have "ev_inv ?u"
    unfolding ev_inv_def using ev_invD(3,4) [OF inv] c(4) by simp
  moreover have "core ?u = core s"
  proof (rule coreI)
    have ids: "own_ids ?u = insert ?w (own_ids s)" by (simp add: own_ids_def)
    have old: "n \<noteq> ?w" if "loop_watched (s_ctx s) f = Some n" for f n using ev_invD(8) [OF inv that] by simp
    show "foreign ?u = foreign s"
      using free old by (auto simp: foreign_def without_ids_def ids c(3) fun_eq_iff split: option.splits)
  qed (use base_watch_add [OF add] c(4) in simp_all)
  ultimately show thesis using that [OF add] c(3) by simp
qed

lemma watch_remove_ok:
  assumes inv: "ev_inv s" and w: "w \<in> set (q_watches (s_query s))"
  obtains s' where "netresolve_watch_remove (w_id w) cl s = Inr s'" "ev_inv s'"
    "q_watches (s_query s') = filter (\<lambda>x. w_id x \<noteq> w_id w) (q_watches (s_query s))"
    "os_open_fds (s_os s') = (if cl then remove1 (w_fd w) (os_open_fds (s_os s)) else os_open_fds (s_os s))"
    "os_next_watch (s_os s') = os_next_watch (s_os s)"
    "loop_watched (s_ctx s') = (loop_watched (s_ctx s))(w_fd w := None)"
    "core s' = core s"
proof -
  let ?ws = "q_watches (s_query s)" and ?ws' = "filter (\<lambda>x. w_id x \<noteq> w_id w) (q_watches (s_query s))"
  let ?q = "upd_query (\<lambda>q. q\<lparr>q_watches := filter (\<lambda>x. w_id x \<noteq> w_id w) (q_watches q), q_nfds := q_nfds q - 1\<rparr>) s"
  let ?s = "upd_ctx (\<lambda>c. c\<lparr>cx_nfds := cx_nfds c - 1\<rparr>) ?q"
  have lw: "loop_watched (s_ctx s) (w_fd w) = Some (w_id w)" using ev_invD(6) [OF inv w] .
  have "length ?ws > 0" using w by (cases ?ws) auto
  then have pos: "q_nfds (s_query s) > 0" "cx_nfds (s_ctx s) > 0"
    using ev_invD(3,4) [OF inv] by linarith+
  have "loop_inv ?s" using ev_invD(1) [OF inv] by simp
  then obtain c where c: "call_remove_watch ?s (w_fd w) (w_id w) = Inr (?s\<lparr>s_ctx := c\<rparr>)"
    "loop_inv (?s\<lparr>s_ctx := c\<rparr>)" "loop_watched c = (loop_watched (s_ctx s))(w_fd w := None)"
    "cx_nfds c = cx_nfds (s_ctx s) - 1"
    using call_remove_watch_ok [of ?s "w_fd w" "w_id w"] lw by auto
  let ?t = "if cl then close_fd (w_fd w) (?s\<lparr>s_ctx := c\<rparr>) else ?s\<lparr>s_ctx := c\<rparr>"
  have rem: "netresolve_watch_remove (w_id w) cl s = Inr ?t"
    using c(1) pos ev_inv_find [OF inv w] by (simp add: netresolve_watch_remove_def Let_def)
  have qs: "q_watches (s_query ?t) = ?ws'" "q_nfds (s_query ?t) = q_nfds (s_query s) - 1"
    "s_ctx ?t = c" "os_next_watch (s_os ?t) = os_next_watch (s_os s)"
    "os_fd_limit (s_os ?t) = os_fd_limit (s_os s)"
    "os_open_fds (s_os ?t) = (if cl then remove1 (w_fd w) (os_open_fds (s_os s)) else os_open_fds (s_os s))"
    by (simp_all add: close_fd_def)
  have len: "Suc (length ?ws') = length ?ws"
    using length_filter_distinct_fst [of "map (\<lambda>x. (w_id x, x)) ?ws" "w_id w"] ev_invD(5) [OF inv] w
    by (simp add: filter_map o_def image_image)
  have other: "w_fd v \<noteq> w_fd w" if "v \<in> set ?ws'" for v
    using ev_inv_fd_inj [OF inv _ w, of v] that by auto
  have "loop_inv ?t" using c(2) by simp
  moreover have "fds_inv (s_os ?t)"
    using ev_invD(2) [OF inv] notin_set_remove1 unfolding fds_inv_def qs by auto
  moreover have "loop_watched c (w_fd v) = Some (w_id v)" if "v \<in> set ?ws'" for v
    using that other [OF that] ev_invD(6) [OF inv] c(3) by auto
  moreover have "f \<in> set (os_open_fds (s_os ?t)) \<and> n < os_next_watch (s_os s)"
    if "loop_watched c f = Some n" for f n
    using that c(3) ev_invD(7,8) [OF inv] unfolding qs by (auto split: if_splits)
  moreover have "f = f'" if "loop_watched c f = Some n" "loop_watched c f' = Some n" for f f' n
    using that c(3) ev_invD(9) [OF inv] by (auto split: if_splits)
  moreover have "pending_watches c \<subseteq> ran (loop_watched c)"
  proof
    fix n assume "n \<in> pending_watches c"
    then have "n \<in> ran (loop_watched (s_ctx s))" "n \<noteq> w_id w"
      using call_remove_watch_pending [OF c(1)] ev_invD(10) [OF inv] by auto
    then obtain f where f: "loop_watched (s_ctx s) f = Some n" by (auto simp: ran_def)
    with lw \<open>n \<noteq> w_id w\<close> have "f \<noteq> w_fd w" by auto
    then show "n \<in> ran (loop_watched c)" using c(3) f by (auto intro!: ranI [of _ f])
  qed
  ultimately have "ev_inv ?t"
    unfolding ev_inv_def qs
    using ev_invD(3,4) [OF inv] distinct_map_filter [OF ev_invD(5) [OF inv]] c(4) len by simp
  moreover have "core ?t = core s"
  proof (rule coreI)
    have ids: "own_ids ?t = own_ids s - {w_id w}" unfolding own_ids_def qs by auto
    have mine: "w_id w \<in> own_ids s" using w by (simp add: own_ids_def)
    have other_fd: "n \<noteq> w_id w" if "loop_watched (s_ctx s) f = Some n" "f \<noteq> w_fd w" for f n
      using ev_invD(9) [OF inv lw, of f] that by blast
    show "foreign ?t = foreign s"
      using mine other_fd lw by (auto simp: foreign_def without_ids_def ids qs(3) c(3) fun_eq_iff split: option.splits)
    show "cx_nfds (s_ctx ?t) - q_nfds (s_query ?t) = cx_nfds (s_ctx s) - q_nfds (s_query s)"
      unfolding qs c(4) by simp
  qed (rule base_watch_remove [OF rem])
  ultimately show thesis using that [OF rem] c(3) qs by simp
qed

text \<open>A timeout needs a free descriptor; without one nothing happens and NULL is returned.\<close>

definition timer_watch :: "nat \<Rightarrow> int \<Rightarrow> timeout_callback \<Rightarrow> watch_data \<Rightarrow> netresolve_watch" where
  "timer_watch w fd cb d = \<lparr>w_id = w, w_fd = fd, w_callback = (if cb = TCB_NULL then CB_NULL else CB_timeout),
     w_timeout_callback = cb, w_data = d\<rparr>"

lemma ev_inv_map_watches:
  assumes inv: "ev_inv s" and keep: "\<And>x. w_id (f x) = w_id x \<and> w_fd (f x) = w_fd x"
  shows "ev_inv (upd_query (\<lambda>q. q\<lparr>q_watches := map f (q_watches q)\<rparr>) s)"
  using inv unfolding ev_inv_def by (simp add: keep o_def)

lemma core_map_watches:
  assumes "\<And>x. w_id (f x) = w_id x"
  shows "core (upd_query (\<lambda>q. q\<lparr>q_watches := map f (q_watches q)\<rparr>) s) = core s"
proof (rule coreI)
  have "own_ids (upd_query (\<lambda>q. q\<lparr>q_watches := map f (q_watches q)\<rparr>) s) = own_ids s"
    by (simp add: own_ids_def image_image assms)
  then show "foreign (upd_query (\<lambda>q. q\<lparr>q_watches := map f (q_watches q)\<rparr>) s) = foreign s"
    by (simp add: foreign_def)
qed simp_all

lemma alloc_fd_ok:
  assumes "ev_inv s" and "alloc_fd (s_os s) = Some (fd, o1)"
  shows "ev_inv (s\<lparr>s_os := o1\<rparr>)" and "loop_watched (s_ctx s) fd = None"
    and "os_open_fds o1 = fd # os_open_fds (s_os s)" and "os_next_watch o1 = os_next_watch (s_os s)"
    and "core (s\<lparr>s_os := o1\<rparr>) = core s"
proof -
  have o1: "o1 = (s_os s)\<lparr>os_open_fds := fd # os_open_fds (s_os s)\<rparr>" and fd: "fd = lowest_fd (os_open_fds (s_os s))"
    and lim: "fd < int (os_fd_limit (s_os s))"
    using assms(2) by (auto simp: alloc_fd_def Let_def split: if_splits)
  have new: "fd \<notin> set (os_open_fds (s_os s))" using fd lowest_fd_fresh by simp
  have "0 \<le> fd" using fd by simp
  then show "ev_inv (s\<lparr>s_os := o1\<rparr>)"
    using assms(1) new lim unfolding ev_inv_def o1 by (auto simp: fds_inv_def loop_inv_def split: fd_callbacks.splits)
  show "loop_watched (s_ctx s) fd = None"
    using ev_invD(7) [OF assms(1)] new by (cases "loop_watched (s_ctx s) fd") auto
  show "os_open_fds o1 = fd # os_open_fds (s_os s)" "os_next_watch o1 = os_next_watch (s_os s)"
    "core (s\<lparr>s_os := o1\<rparr>) = core s"
    using o1 by simp_all
qed

lemma timeout_add_ok:
  assumes inv: "ev_inv s" and valid: "timerspec_valid (timerspec sec nsec)"
    and fd: "alloc_fd (s_os s) = Some (fd, o1)"
  obtains s' where "netresolve_timeout_add sec nsec cb d s = Inr (Some (os_next_watch (s_os s)), s')" "ev_inv s'"
    "q_watches (s_query s') = q_watches (s_query s) @ [timer_watch (os_next_watch (s_os s)) fd cb d]"
    "os_open_fds (s_os s') = fd # os_open_fds (s_os s)"
    "os_next_watch (s_os s') = Suc (os_next_watch (s_os s))"
    "loop_watched (s_ctx s') = (loop_watched (s_ctx s))(fd \<mapsto> os_next_watch (s_os s))"
    "core s' = core s"
proof -
  let ?n = "os_next_watch (s_os s)" and ?s = "s\<lparr>s_os := o1\<rparr>"
  note a = alloc_fd_ok [OF inv fd]
  obtain s' where s': "netresolve_watch_add fd POLLIN CB_NULL d ?s = Inr (?n, s')" "ev_inv s'"
    "q_watches (s_query s') = q_watches (s_query s) @
       [\<lparr>w_id = ?n, w_fd = fd, w_callback = CB_NULL, w_timeout_callback = TCB_NULL, w_data = d\<rparr>]"
    "os_open_fds (s_os s') = fd # os_open_fds (s_os s)" "os_next_watch (s_os s') = Suc ?n"
    "loop_watched (s_ctx s') = (loop_watched (s_ctx s))(fd \<mapsto> ?n)" "core s' = core s"
    using watch_add_ok [OF a(1), of fd POLLIN CB_NULL d] a by (auto simp: events_ok_def)
  let ?f = "\<lambda>x. if w_id x = ?n \<and> cb \<noteq> TCB_NULL
              then x\<lparr>w_callback := CB_timeout, w_timeout_callback := cb\<rparr> else x"
  let ?t = "upd_query (\<lambda>q. q\<lparr>q_watches := map ?f (q_watches q)\<rparr>) s'"
  have "netresolve_timeout_add sec nsec cb d s = Inr (Some ?n, ?t)"
    using fd valid s'(1) by (simp add: netresolve_timeout_add_def Let_def)
  moreover have "ev_inv ?t" by (rule ev_inv_map_watches) (use s'(2) in auto)
  moreover have old: "w_id w \<noteq> ?n" if "w \<in> set (q_watches (s_query s))" for w
    using ev_invD(6,8) [OF inv] that by fastforce
  have "map ?f (q_watches (s_query s)) = q_watches (s_query s)"
    by (rule map_idI) (use old in auto)
  then have "q_watches (s_query ?t) = q_watches (s_query s) @ [timer_watch ?n fd cb d]"
    using s'(3) by (simp add: timer_watch_def)
  moreover have "core ?t = core s"
    using s'(7) core_map_watches [of ?f s'] by simp
  ultimately show thesis using that s' by simp
qed

section \<open>Properties of timeouts\<close>

lemma timer_value_ok:
  assumes "0 \<le> msec"
  shows "timerspec_valid (timerspec (c_div msec 1000) (c_mod msec 1000 * 1000000))"
  using assms pos_mod_bound [of 1000 msec] pos_mod_sign [of 1000 msec]
  by (auto simp: timerspec_def timerspec_valid_def c_div_nonneg c_mod_nonneg pos_imp_zdiv_nonneg_iff)



text \<open>
  C14: with a free descriptor, a timeout of any non-negative length can be added and removed again;
  in between the query has exactly one more watch, which carries the given callback and data on a
  descriptor that was not open before; afterwards the watches, the registrations of the loop and
  the open descriptors are what they were.
\<close>

theorem timeout_add_remove:
  assumes inv: "ev_inv s" and ms: "0 \<le> ms"
    and fd: "lowest_fd (os_open_fds (s_os s)) < int (os_fd_limit (s_os s))"
  shows "\<exists>w fd s1 s2. netresolve_timeout_add_ms ms cb d s = Inr (Some w, s1) \<and>
    netresolve_timeout_remove w s1 = Inr s2 \<and> fd \<notin> set (os_open_fds (s_os s)) \<and>
    q_watches (s_query s1) = q_watches (s_query s) @ [timer_watch w fd cb d] \<and>
    ev_inv s1 \<and> ev_inv s2 \<and> q_watches (s_query s2) = q_watches (s_query s) \<and>
    loop_watched (s_ctx s2) = loop_watched (s_ctx s) \<and> os_open_fds (s_os s2) = os_open_fds (s_os s)"
proof -
  let ?n = "os_next_watch (s_os s)" and ?fd = "lowest_fd (os_open_fds (s_os s))"
  obtain o1 where o1: "alloc_fd (s_os s) = Some (?fd, o1)" using fd by (simp add: alloc_fd_def Let_def)
  have valid: "timerspec_valid (timerspec (c_div ms 1000) (c_mod ms 1000 * 1000000))"
    using ms by (rule timer_value_ok)
  obtain s1 where s1: "netresolve_timeout_add_ms ms cb d s = Inr (Some ?n, s1)" "ev_inv s1"
    "q_watches (s_query s1) = q_watches (s_query s) @ [timer_watch ?n ?fd cb d]"
    "os_open_fds (s_os s1) = ?fd # os_open_fds (s_os s)"
    "loop_watched (s_ctx s1) = (loop_watched (s_ctx s))(?fd \<mapsto> ?n)"
    using timeout_add_ok [OF inv valid o1] unfolding netresolve_timeout_add_ms_def by metis
  let ?w = "timer_watch ?n ?fd cb d"
  have "?w \<in> set (q_watches (s_query s1))" using s1(3) by simp
  from watch_remove_ok [OF s1(2) this, of True] obtain s2 where
    s2: "netresolve_timeout_remove ?n s1 = Inr s2" "ev_inv s2"
    "q_watches (s_query s2) = filter (\<lambda>x. w_id x \<noteq> ?n) (q_watches (s_query s1))"
    "os_open_fds (s_os s2) = remove1 ?fd (os_open_fds (s_os s1))"
    "loop_watched (s_ctx s2) = (loop_watched (s_ctx s1))(?fd := None)"
    by (auto simp: netresolve_timeout_remove_def timer_watch_def)
  have "w_id w \<noteq> ?n" if "w \<in> set (q_watches (s_query s))" for w
    using ev_invD(6,8) [OF inv] that by fastforce
  then have "q_watches (s_query s2) = q_watches (s_query s)"
    using s2(3) s1(3) by (simp add: timer_watch_def)
  moreover have "loop_watched (s_ctx s2) = loop_watched (s_ctx s)"
    using s2(5) s1(5) alloc_fd_ok(2) [OF inv o1] by (simp add: fun_eq_iff)
  moreover have "os_open_fds (s_os s2) = os_open_fds (s_os s)" using s2(4) s1(4) by simp
  ultimately show ?thesis using s1 s2 lowest_fd_fresh [of "os_open_fds (s_os s)"] by metis
qed

text \<open>A fresh process state with standard descriptors and the library's own epoll loop.\<close>

definition initial_sys :: sys where
  "initial_sys = \<lparr>s_os = \<lparr>os_open_fds = [0, 1, 2], os_fd_limit = 1024, os_next_watch = 0,
       os_clock = 0, os_calls = [], os_sockets = []\<rparr>,
     s_ctx = zero_context\<lparr>cx_callbacks := FD_EPOLL_INTERNAL\<rparr>,
     s_query = zero_query\<rparr>"

lemma ev_inv_initial_sys: "ev_inv initial_sys"
  by (simp add: initial_sys_def ev_inv_def loop_inv_def epoll_inv_def fds_inv_def loop_watched_def
      epoll_watched_def pending_watches_def zero_defs)

theorem timeout_add_remove_witness:
  "\<exists>w fd s1 s2. netresolve_timeout_add_ms 250 TCB_delayed DATA_NULL initial_sys = Inr (Some w, s1) \<and>
    netresolve_timeout_remove w s1 = Inr s2 \<and> q_watches (s_query s1) = [timer_watch w fd TCB_delayed DATA_NULL] \<and>
    os_open_fds (s_os s2) = [0, 1, 2]"
proof -
  have "lowest_fd (os_open_fds (s_os initial_sys)) < int (os_fd_limit (s_os initial_sys))"
    by (simp add: initial_sys_def lowest_fd_def)
  from timeout_add_remove [OF ev_inv_initial_sys _ this, of 250 TCB_delayed DATA_NULL]
  show ?thesis by (auto simp: initial_sys_def zero_defs)
qed

end
