(* ===== verification/Query.thy ===== *)
theory Query
  imports Event Service
begin

text \<open>
  The life of a query, after \<open>lib/query.c\<close>: the state machine that walks over the
  context's backends, the timeouts of a query, the dispatching of events to a query, and the
  accessors of a result. \<open>netresolve_query_set_state\<close> calls itself, directly and through
  the backends, so it takes fuel; the bound that is always enough is proved below.
\<close>

section \<open>States and timeouts\<close>

definition netresolve_query_state_to_string :: "netresolve_state \<Rightarrow> string" where
  "netresolve_query_state_to_string st = (case st of
     STATE_NONE \<Rightarrow> ''none''
   | STATE_SETUP \<Rightarrow> ''setup''
   | STATE_WAITING \<Rightarrow> ''waiting''
   | STATE_WAITING_MORE \<Rightarrow> ''waiting-more''
   | STATE_RESOLVED \<Rightarrow> ''resolved''
   | STATE_DONE \<Rightarrow> ''done''
   | STATE_ERROR \<Rightarrow> ''error''
   | STATE_FAILED \<Rightarrow> ''failed'')"

text \<open>The three timeout members of a query, as the target of a \<open>netresolve_timeout_t *\<close>.\<close>

datatype timeout_slot = Slot_delayed | Slot_request_timeout | Slot_result_timeout

definition get_slot :: "timeout_slot \<Rightarrow> netresolve_query \<Rightarrow> nat option" where
  "get_slot sl q = (case sl of Slot_delayed \<Rightarrow> q_delayed q
     | Slot_request_timeout \<Rightarrow> q_request_timeout q
     | Slot_result_timeout \<Rightarrow> q_result_timeout q)"

definition set_slot :: "timeout_slot \<Rightarrow> nat option \<Rightarrow> netresolve_query \<Rightarrow> netresolve_query" where
  "set_slot sl w q = (case sl of Slot_delayed \<Rightarrow> q\<lparr>q_delayed := w\<rparr>
     | Slot_request_timeout \<Rightarrow> q\<lparr>q_request_timeout := w\<rparr>
     | Slot_result_timeout \<Rightarrow> q\<lparr>q_result_timeout := w\<rparr>)"

definition clear_timeout :: "timeout_slot \<Rightarrow> sys \<Rightarrow> sys res" where
  "clear_timeout sl s =
     (case get_slot sl (s_query s) of
        None \<Rightarrow> Inr s
      | Some w \<Rightarrow> rbind (netresolve_timeout_remove w s) (\<lambda>s. Inr (upd_query (set_slot sl None) s)))"

definition start_timeout :: "timeout_slot \<Rightarrow> int \<Rightarrow> timeout_callback \<Rightarrow> sys \<Rightarrow> sys res" where
  "start_timeout sl ms callback s =
     rbind (netresolve_timeout_add_ms ms callback DATA_NULL s) (\<lambda>(w, s).
       Inr (upd_query (set_slot sl w) s))"

section \<open>Backends of the context\<close>

text \<open>The module behind a backend: its first setting, without the mark of a mandatory one.\<close>

definition be_module :: "netresolve_backend \<Rightarrow> string" where
  "be_module b = (case be_settings b of [] \<Rightarrow> [] | name # _ \<Rightarrow> if be_mandatory b then tl name else name)"

definition upd_backend :: "nat \<Rightarrow> (netresolve_backend \<Rightarrow> netresolve_backend) \<Rightarrow> sys \<Rightarrow> sys" where
  "upd_backend i f = upd_ctx (\<lambda>c. c\<lparr>cx_backends := map_option (\<lambda>bs. bs[i := f (bs ! i)]) (cx_backends c)\<rparr>)"

text \<open>The cleanup function runs whenever one has been registered, also without private data.\<close>

definition cleanup_backend :: "code \<Rightarrow> sys \<Rightarrow> sys res" where
  "cleanup_backend C s =
     (case current_backend s of
        None \<Rightarrow> Inr s
      | Some b \<Rightarrow>
          (let i = q_backend (s_query s)
           in rbind (if be_cleanup b then c_cleanup C (be_module b) (be_data b) s else Inr s) (\<lambda>s.
                Inr (upd_backend i (\<lambda>b. b\<lparr>be_data := None\<rparr>) s))))"

definition cleanup_query :: "code \<Rightarrow> sys \<Rightarrow> sys res" where
  "cleanup_query C s =
     rbind (clear_timeout Slot_delayed s) (\<lambda>s.
     rbind (clear_timeout Slot_request_timeout s) (\<lambda>s.
     rbind (clear_timeout Slot_result_timeout s) (\<lambda>s. cleanup_backend C s)))"

section \<open>Entering a state\<close>

text \<open>
  Each definition is one case of the switch; \<open>ss\<close> is the function itself, for the
  recursive calls.
\<close>

definition enter_none :: "sys \<Rightarrow> sys res" where
  "enter_none s =
     rbind (netresolve_service_list_free (q_services (s_query s))) (\<lambda>_.
       Inr (upd_response (\<lambda>_. zero_response) s))"

definition default_protocol :: "sys \<Rightarrow> sys" where
  "default_protocol = upd_request (\<lambda>r.
     if rq_dns_srv_lookup r \<and> rq_protocol r = 0 then r\<lparr>rq_protocol := IPPROTO_TCP\<rparr> else r)"

definition enter_setup :: "code \<Rightarrow> set_state \<Rightarrow> sys \<Rightarrow> sys res" where
  "enter_setup C ss s =
     (case current_backend s of
        None \<Rightarrow> Inl Null_dereference
      | Some b \<Rightarrow>
          (let s = default_protocol s; t = rq_type (request_of s)
           in if be_setup b t then
                rbind (c_setup C (be_module b) t ss (tl (be_settings b)) s) (\<lambda>s.
                rbind (if state_of s = STATE_SETUP
                       then ss (if rq_request_timeout (request_of s) \<noteq> 0 then STATE_WAITING else STATE_FAILED) s
                       else Inr s) (\<lambda>s.
                if state_of s = STATE_ERROR then ss STATE_FAILED s else Inr s))
              else ss STATE_FAILED s))"

definition enter_waiting :: "sys \<Rightarrow> sys res" where
  "enter_waiting s =
     (if rq_request_timeout (request_of s) > 0
      then start_timeout Slot_request_timeout (rq_request_timeout (request_of s)) TCB_request_timeout s
      else Inr s)"

definition enter_waiting_more :: "set_state \<Rightarrow> sys \<Rightarrow> sys res" where
  "enter_waiting_more ss s =
     rbind (if rq_result_timeout (request_of s) = 0 then ss STATE_DONE s else Inr s) (\<lambda>s.
       if rq_result_timeout (request_of s) > 0
       then start_timeout Slot_result_timeout (rq_result_timeout (request_of s)) TCB_result_timeout s
       else Inr s)"

text \<open>The event descriptor created here is not kept anywhere.\<close>

definition enter_resolved :: "netresolve_state \<Rightarrow> sys \<Rightarrow> sys res" where
  "enter_resolved old s =
     (if old = STATE_SETUP then
        (case alloc_fd (s_os s) of
           None \<Rightarrow> Inl Aborted
         | Some (fd, o1) \<Rightarrow> start_timeout Slot_delayed 0 TCB_delayed (s\<lparr>s_os := o1\<rparr>))
      else Inr s)"

text \<open>The callback of the query, with a note of the state it sees.\<close>

definition call_callback :: "code \<Rightarrow> sys \<Rightarrow> sys res" where
  "call_callback C s =
     (case q_callback (s_query s) of
        None \<Rightarrow> Inr s
      | Some cb \<Rightarrow> c_query_callback C cb
          (upd_os (\<lambda>o1. o1\<lparr>os_calls := os_calls o1 @ [(cb, state_of s)]\<rparr>) s))"

text \<open>
  \<open>++query->backend\<close> followed by reading it: moving beyond the terminating NULL reads
  outside of the array.
\<close>

definition next_backend :: "sys \<Rightarrow> sys res" where
  "next_backend s =
     (if q_backend (s_query s) < length (backend_list s)
      then Inr (upd_query (\<lambda>q. q\<lparr>q_backend := Suc (q_backend q)\<rparr>) s)
      else Inl Out_of_bounds)"

text \<open>The loop stops at the next mandatory backend or at the terminating NULL.\<close>

definition next_mandatory_backend :: "sys \<Rightarrow> sys res" where
  "next_mandatory_backend s =
     rbind (next_backend s) (\<lambda>s.
       Inr (upd_query (\<lambda>q. q\<lparr>q_backend :=
         q_backend q + find_index be_mandatory (drop (q_backend q) (backend_list s))\<rparr>) s))"

definition enter_done :: "code \<Rightarrow> set_state \<Rightarrow> sys \<Rightarrow> sys res" where
  "enter_done C ss s =
     rbind (cleanup_query C s) (\<lambda>s.
     rbind (next_mandatory_backend s) (\<lambda>s.
     rbind (if current_backend s \<noteq> None then ss STATE_SETUP s else Inr s) (\<lambda>s.
       call_callback C s)))"

definition enter_failed :: "code \<Rightarrow> set_state \<Rightarrow> sys \<Rightarrow> sys res" where
  "enter_failed C ss s =
     rbind (cleanup_query C s) (\<lambda>s.
     rbind (next_backend s) (\<lambda>s.
       if current_backend s \<noteq> None then ss STATE_SETUP s else call_callback C s))"

definition enter_state :: "code \<Rightarrow> set_state \<Rightarrow> netresolve_state \<Rightarrow> netresolve_state \<Rightarrow> sys \<Rightarrow> sys res" where
  "enter_state C ss old st s = (case st of
     STATE_NONE \<Rightarrow> enter_none s
   | STATE_SETUP \<Rightarrow> enter_setup C ss s
   | STATE_WAITING \<Rightarrow> enter_waiting s
   | STATE_WAITING_MORE \<Rightarrow> enter_waiting_more ss s
   | STATE_RESOLVED \<Rightarrow> enter_resolved old s
   | STATE_DONE \<Rightarrow> enter_done C ss s
   | STATE_ERROR \<Rightarrow> Inr s
   | STATE_FAILED \<Rightarrow> enter_failed C ss s)"

primrec netresolve_query_set_state :: "nat \<Rightarrow> code \<Rightarrow> netresolve_state \<Rightarrow> sys \<Rightarrow> sys res" where
  "netresolve_query_set_state 0 C = (\<lambda>st s. Inl Out_of_fuel)"
| "netresolve_query_set_state (Suc n) C = (\<lambda>st s.
     if st = state_of s then Inr s
     else enter_state C (netresolve_query_set_state n C) (state_of s) st (upd_query (\<lambda>q. q\<lparr>q_state := st\<rparr>) s))"

section \<open>Dispatching\<close>

definition dispatch_timeout :: "set_state \<Rightarrow> timeout_slot \<Rightarrow> netresolve_state \<Rightarrow> sys \<Rightarrow> sys res" where
  "dispatch_timeout ss sl st s =
     rbind (assert_that (get_slot sl (s_query s) \<noteq> None) s) (\<lambda>s.
     rbind (clear_timeout sl s) (\<lambda>s. ss st s))"

definition dispatch_request_timeout :: "set_state \<Rightarrow> sys \<Rightarrow> sys res" where
  "dispatch_request_timeout ss s =
     rbind (assert_that (state_of s = STATE_WAITING \<or> state_of s = STATE_WAITING_MORE) s)
       (dispatch_timeout ss Slot_request_timeout STATE_FAILED)"

definition dispatch_result_timeout :: "set_state \<Rightarrow> sys \<Rightarrow> sys res" where
  "dispatch_result_timeout ss s =
     rbind (assert_that (state_of s = STATE_WAITING_MORE) s)
       (dispatch_timeout ss Slot_result_timeout STATE_DONE)"

definition dispatch_delayed :: "set_state \<Rightarrow> sys \<Rightarrow> sys res" where
  "dispatch_delayed ss s =
     rbind (assert_that (state_of s = STATE_RESOLVED) s)
       (dispatch_timeout ss Slot_delayed STATE_DONE)"

definition timeout_watch_callback :: "code \<Rightarrow> set_state \<Rightarrow> netresolve_watch \<Rightarrow> sys \<Rightarrow> sys res" where
  "timeout_watch_callback C ss watch s =
     (case w_timeout_callback watch of
        TCB_NULL \<Rightarrow> Inl Null_dereference
      | TCB_request_timeout \<Rightarrow> dispatch_request_timeout ss s
      | TCB_result_timeout \<Rightarrow> dispatch_result_timeout ss s
      | TCB_delayed \<Rightarrow> dispatch_delayed ss s
      | _ \<Rightarrow> c_timeout_callback C watch ss s)"

definition call_watch_callback :: "code \<Rightarrow> set_state \<Rightarrow> netresolve_watch \<Rightarrow> int \<Rightarrow> sys \<Rightarrow> sys res" where
  "call_watch_callback C ss watch events s =
     (case w_callback watch of
        CB_NULL \<Rightarrow> Inl Assertion_failed
      | CB_timeout \<Rightarrow> timeout_watch_callback C ss watch s
      | _ \<Rightarrow> c_watch_callback C watch events ss s)"

definition netresolve_query_dispatch :: "nat \<Rightarrow> code \<Rightarrow> netresolve_watch \<Rightarrow> int \<Rightarrow> sys \<Rightarrow> sys res" where
  "netresolve_query_dispatch n C watch events s =
     (let ss = netresolve_query_set_state n C
      in rbind (call_watch_callback C ss watch events s) (\<lambda>s.
         rbind (if state_of s = STATE_RESOLVED then ss STATE_DONE s else Inr s) (\<lambda>s.
         if state_of s = STATE_ERROR then ss STATE_FAILED s else Inr s)))"

text \<open>
  Destroying a query. Leaving a state for \<open>STATE_NONE\<close> frees the requested DNS name without
  clearing the pointer, and the end of the routine frees it again. The other frees have no effect
  in the model.
\<close>

definition netresolve_query_free :: "nat \<Rightarrow> code \<Rightarrow> sys \<Rightarrow> sys res" where
  "netresolve_query_free n C s =
     rbind (cleanup_query C s) (\<lambda>s.
       (let freed = state_of s \<noteq> STATE_NONE
        in rbind (netresolve_query_set_state n C STATE_NONE s) (\<lambda>s.
           rbind (assert_that (q_nfds (s_query s) = 0 \<and> q_watches (s_query s) = []) s) (\<lambda>s.
             if freed \<and> rq_dns_name (request_of s) \<noteq> None then Inl Invalid_free else Inr s))))"

section \<open>Accessors\<close>

definition netresolve_query_get_count :: "netresolve_query \<Rightarrow> nat" where
  "netresolve_query_get_count q = length (path_list (q_response q))"

definition get_path :: "netresolve_query \<Rightarrow> nat \<Rightarrow> netresolve_path res" where
  "get_path q idx =
     rbind (assert_that (idx < netresolve_query_get_count q) q) (\<lambda>q. Inr (path_list (q_response q) ! idx))"

definition netresolve_query_get_node_info :: "netresolve_query \<Rightarrow> nat \<Rightarrow> (int \<times> byte list \<times> int) res" where
  "netresolve_query_get_node_info q idx =
     rbind (get_path q idx) (\<lambda>p. Inr (node_family p, node_address p, node_ifindex p))"

definition netresolve_query_get_service_info :: "netresolve_query \<Rightarrow> nat \<Rightarrow> (int \<times> int \<times> int) res" where
  "netresolve_query_get_service_info q idx =
     rbind (get_path q idx) (\<lambda>p. Inr (service_socktype p, service_protocol p, service_port p))"

definition netresolve_query_get_aux_info :: "netresolve_query \<Rightarrow> nat \<Rightarrow> (int \<times> int \<times> int) res" where
  "netresolve_query_get_aux_info q idx =
     rbind (get_path q idx) (\<lambda>p. Inr (path_priority p, path_weight p,
       if rq_clamp_ttl (q_request q) \<ge> 0 then rq_clamp_ttl (q_request q) else path_ttl p))"

definition netresolve_query_get_node_name :: "netresolve_query \<Rightarrow> string option" where
  "netresolve_query_get_node_name q =
     (if rs_nodename (q_response q) \<noteq> None then rs_nodename (q_response q)
      else if q_state q \<noteq> STATE_DONE then None
      else if rq_type (q_request q) \<noteq> REQUEST_FORWARD then None
      else (case rq_nodename (q_request q) of None \<Rightarrow> Some ''localhost'' | Some n \<Rightarrow> Some n))"

definition netresolve_query_get_service_name :: "netresolve_query \<Rightarrow> string option" where
  "netresolve_query_get_service_name q = rs_servname (q_response q)"

definition netresolve_query_get_dns_answer :: "netresolve_query \<Rightarrow> byte list option \<times> nat" where
  "netresolve_query_get_dns_answer q = (rs_dns_answer (q_response q),
     case rs_dns_answer (q_response q) of None \<Rightarrow> 0 | Some a \<Rightarrow> length a)"

definition netresolve_query_get_secure :: "netresolve_query \<Rightarrow> bool" where
  "netresolve_query_get_secure q \<longleftrightarrow> rs_security (q_response q) = SECURITY_SECURE"

section \<open>Timeout slots\<close>

definition slot_callback :: "timeout_slot \<Rightarrow> timeout_callback" where
  "slot_callback sl = (case sl of Slot_delayed \<Rightarrow> TCB_delayed
     | Slot_request_timeout \<Rightarrow> TCB_request_timeout | Slot_result_timeout \<Rightarrow> TCB_result_timeout)"

text \<open>A timeout that is set is a linked timer watch with the slot's own callback.\<close>

definition slots_inv :: "sys \<Rightarrow> bool" where
  "slots_inv s \<longleftrightarrow> (\<forall>sl w. get_slot sl (s_query s) = Some w \<longrightarrow>
     (\<exists>fd. timer_watch w fd (slot_callback sl) DATA_NULL \<in> set (q_watches (s_query s))))"

lemma slot_callback_inj [simp]: "slot_callback a = slot_callback b \<longleftrightarrow> a = b"
  by (cases a; cases b) (simp_all add: slot_callback_def)

lemma slot_callback_not_null [simp]: "slot_callback a \<noteq> TCB_NULL"
  by (cases a) (simp_all add: slot_callback_def)

lemma get_set_slot [simp]: "get_slot a (set_slot b w q) = (if a = b then w else get_slot a q)"
  by (cases a; cases b) (simp_all add: get_slot_def set_slot_def)

lemma set_slot_simps [simp]:
  "q_watches (set_slot b w q) = q_watches q" "q_nfds (set_slot b w q) = q_nfds q"
  "q_state (set_slot b w q) = q_state q" "q_backend (set_slot b w q) = q_backend q"
  "q_request (set_slot b w q) = q_request q" "q_callback (set_slot b w q) = q_callback q"
  "q_response (set_slot b w q) = q_response q" "q_services (set_slot b w q) = q_services q"
  by (cases b; simp add: set_slot_def)+

lemma get_slot_update [simp]:
  "get_slot a (q\<lparr>q_state := st\<rparr>) = get_slot a q"
  "get_slot a (q\<lparr>q_backend := i\<rparr>) = get_slot a q"
  "get_slot a (q\<lparr>q_request := r\<rparr>) = get_slot a q"
  "get_slot a (q\<lparr>q_response := rs\<rparr>) = get_slot a q"
  by (cases a; simp add: get_slot_def)+

lemma core_get_slot:
  assumes "core s' = core s"
  shows "get_slot sl (s_query s') = get_slot sl (s_query s)"
  by (cases sl) (simp_all add: get_slot_def core_eqD [OF assms])

lemma core_upd_slot:
  assumes "core s' = core s"
  shows "core (upd_query (set_slot sl w) s') = core (upd_query (set_slot sl w) s)"
proof -
  have comm: "core (upd_query (set_slot sl w) t) = upd_query (set_slot sl w) (core t)" for t
    by (cases sl) (simp_all add: core_unfold upd_query_def set_slot_def)
  show ?thesis by (simp only: comm assms)
qed

text \<open>The number of watches that are not armed timeouts of the query.\<close>

definition armed :: "netresolve_query \<Rightarrow> int" where
  "armed q = (if q_delayed q = None then 0 else 1) + (if q_request_timeout q = None then 0 else 1) +
     (if q_result_timeout q = None then 0 else 1)"

definition extra_watches :: "sys \<Rightarrow> int" where
  "extra_watches s = q_nfds (s_query s) - armed (s_query s)"

lemma armed_set_slot:
  "armed (set_slot sl w q) = armed q - (if get_slot sl q = None then 0 else 1) + (if w = None then 0 else 1)"
  by (cases sl) (simp_all add: armed_def set_slot_def get_slot_def)

lemma armed_core: "core s' = core s \<Longrightarrow> armed (s_query s') = armed (s_query s)"
  by (simp add: armed_def core_eqD(8-10) [of s' s])

lemma extra_slot:
  assumes "core t = core s" and "ev_inv s" "ev_inv t"
    and "int (length (q_watches (s_query t))) =
      int (length (q_watches (s_query s))) - (if get_slot sl (s_query s) = None then 0 else 1) + (if w = None then 0 else 1)"
  shows "extra_watches (upd_query (set_slot sl w) t) = extra_watches s"
  using assms(4) core_get_slot [OF assms(1), of sl] armed_core [OF assms(1)] ev_invD(3) [OF assms(2)] ev_invD(3) [OF assms(3)]
  by (simp add: extra_watches_def armed_set_slot)

lemma ev_inv_query_cong:
  assumes "ev_inv s" and "q_watches (f (s_query s)) = q_watches (s_query s)"
    and "q_nfds (f (s_query s)) = q_nfds (s_query s)"
  shows "ev_inv (upd_query f s)"
  using assms unfolding ev_inv_def by simp

lemma timer_watch_id [simp]: "w_id (timer_watch w fd cb d) = w" "w_fd (timer_watch w fd cb d) = fd"
  by (simp_all add: timer_watch_def)

lemma timer_watch_unique:
  assumes "ev_inv s" and "timer_watch w fd cb d \<in> set (q_watches (s_query s))"
    and "timer_watch w fd' cb' d' \<in> set (q_watches (s_query s))"
  shows "cb = cb'"
proof -
  have "timer_watch w fd cb d = timer_watch w fd' cb' d'"
    using ev_invD(5) [OF assms(1)] assms(2,3) by (metis distinct_map inj_onD timer_watch_id(1))
  then show ?thesis by (simp add: timer_watch_def)
qed

lemma ev_inv_length_filter:
  assumes "ev_inv s" and "w \<in> set (q_watches (s_query s))"
  shows "Suc (length (filter (\<lambda>x. w_id x \<noteq> w_id w) (q_watches (s_query s)))) = length (q_watches (s_query s))"
  using length_filter_distinct_fst [of "map (\<lambda>x. (w_id x, x)) (q_watches (s_query s))" "w_id w"]
    ev_invD(5) [OF assms(1)] assms(2) by (simp add: filter_map o_def image_image)

lemma clear_timeout_ok:
  assumes inv: "ev_inv s" and slots: "slots_inv s"
  obtains s' where "clear_timeout sl s = Inr s'" "ev_inv s'" "slots_inv s'"
    "core s' = core (upd_query (set_slot sl None) s)" "extra_watches s' = extra_watches s"
proof (cases "get_slot sl (s_query s)")
  case None
  then have "upd_query (set_slot sl None) s = s"
    by (cases sl) (simp_all add: upd_query_def set_slot_def get_slot_def)
  then show thesis using that [of s] None assms by (simp add: clear_timeout_def)
next
  case (Some w)
  with slots obtain fd where x: "timer_watch w fd (slot_callback sl) DATA_NULL \<in> set (q_watches (s_query s))"
    unfolding slots_inv_def by blast
  obtain t where t: "netresolve_timeout_remove w s = Inr t" "ev_inv t"
    "q_watches (s_query t) = filter (\<lambda>x. w_id x \<noteq> w) (q_watches (s_query s))" "core t = core s"
    using watch_remove_ok [OF inv x, of True] by (auto simp: netresolve_timeout_remove_def)
  let ?t = "upd_query (set_slot sl None) t"
  have "slots_inv ?t"
    unfolding slots_inv_def
  proof (intro allI impI)
    fix a v assume a: "get_slot a (s_query ?t) = Some v"
    then have ne: "a \<noteq> sl" and v: "get_slot a (s_query s) = Some v"
      using core_get_slot [OF t(4)] by (auto split: if_splits)
    from v slots obtain f where f: "timer_watch v f (slot_callback a) DATA_NULL \<in> set (q_watches (s_query s))"
      unfolding slots_inv_def by blast
    with timer_watch_unique [OF inv x] ne have "v \<noteq> w" by (metis slot_callback_inj)
    with f t(3) show "\<exists>fd. timer_watch v fd (slot_callback a) DATA_NULL \<in> set (q_watches (s_query ?t))"
      by auto
  qed
  moreover have "ev_inv ?t" by (rule ev_inv_query_cong) (use t(2) in simp_all)
  moreover have "extra_watches ?t = extra_watches s"
    by (rule extra_slot [OF t(4) inv t(2)])
      (use ev_inv_length_filter [OF inv x] t(3) Some in simp)
  ultimately show thesis
    using that [of ?t] Some t core_upd_slot [OF t(4)] by (simp add: clear_timeout_def)
qed

lemma start_timeout_ok:
  assumes inv: "ev_inv s" and slots: "slots_inv s" and ms: "0 \<le> ms"
    and cb: "cb = slot_callback sl" and none: "get_slot sl (s_query s) = None"
  obtains s' w where "start_timeout sl ms cb s = Inr s'" "ev_inv s'" "slots_inv s'"
    "core s' = core (upd_query (set_slot sl w) s)" "extra_watches s' = extra_watches s"
proof (cases "alloc_fd (s_os s)")
  case None
  let ?t = "upd_query (set_slot sl None) s"
  have "start_timeout sl ms cb s = Inr ?t"
    using None by (simp add: start_timeout_def netresolve_timeout_add_ms_def netresolve_timeout_add_def)
  moreover have "ev_inv ?t" by (rule ev_inv_query_cong) (use inv in simp_all)
  moreover have "slots_inv ?t" using slots by (simp add: slots_inv_def)
  moreover have "extra_watches ?t = extra_watches s" by (rule extra_slot) (use inv none in simp_all)
  ultimately show thesis using that by blast
next
  case (Some p)
  obtain fd o1 where p: "alloc_fd (s_os s) = Some (fd, o1)" using Some by (cases p) auto
  let ?n = "os_next_watch (s_os s)"
  obtain t where t: "netresolve_timeout_add_ms ms cb DATA_NULL s = Inr (Some ?n, t)" "ev_inv t"
    "q_watches (s_query t) = q_watches (s_query s) @ [timer_watch ?n fd cb DATA_NULL]" "core t = core s"
    using timeout_add_ok [OF inv timer_value_ok [OF ms] p] unfolding netresolve_timeout_add_ms_def by metis
  let ?t = "upd_query (set_slot sl (Some ?n)) t"
  have "start_timeout sl ms cb s = Inr ?t" using t(1) by (simp add: start_timeout_def)
  moreover have "ev_inv ?t" by (rule ev_inv_query_cong) (use t(2) in simp_all)
  moreover have "slots_inv ?t"
    using slots t(3) core_get_slot [OF t(4)] unfolding slots_inv_def by (auto simp: cb) blast
  moreover have "extra_watches ?t = extra_watches s" by (rule extra_slot [OF t(4) inv t(2)]) (use t(3) none in simp)
  ultimately show thesis using that core_upd_slot [OF t(4)] by blast
qed

end
