(* ===== verification/Resolution.thy ===== *)
theory Resolution
  imports Query
begin

text \<open>
  Walking over the backends. The contract that the state machine of \<open>lib/query.c\<close> relies on
  is stated as a locale: a setup function does its work without touching the state machine and
  reports at most once, at its end; cleanup functions and query callbacks leave the machine alone.
  Under this contract the machine comes to rest with bounded fuel, and where it rests is described.
\<close>

section \<open>What the machine itself depends on\<close>

definition static_backend :: "netresolve_backend \<Rightarrow> netresolve_backend" where
  "static_backend b = b\<lparr>be_cleanup := False, be_data := None\<rparr>"

text \<open>
  The skeleton of a state leaves out the event bookkeeping, the response, the service table, the
  scratch buffers and the private data of the backends. The number of watches that are not timeouts
  of the query is kept, except where backends are allowed to wait (\<open>W\<close>), who add some.
\<close>

definition skeleton :: "bool \<Rightarrow> sys \<Rightarrow> sys" where
  "skeleton W s = (let c = core s in
     \<lparr>s_os = (s_os c)\<lparr>os_clock := 0\<rparr>,
      s_ctx = (s_ctx c)\<lparr>cx_backends := map_option (map static_backend) (cx_backends (s_ctx c))\<rparr>,
      s_query = (s_query c)\<lparr>q_response := zero_response, q_services := None, q_user_data := UD_NULL,
        q_sa_buffer := None, q_buffer := [], q_nfds := if W then 0 else extra_watches s\<rparr>\<rparr>)"

lemma skeleton_simps [simp]:
  "q_state (s_query (skeleton W s)) = q_state (s_query s)"
  "q_backend (s_query (skeleton W s)) = q_backend (s_query s)"
  "q_request (s_query (skeleton W s)) = q_request (s_query s)"
  "q_callback (s_query (skeleton W s)) = q_callback (s_query s)"
  "q_delayed (s_query (skeleton W s)) = q_delayed (s_query s)"
  "q_request_timeout (s_query (skeleton W s)) = q_request_timeout (s_query s)"
  "q_result_timeout (s_query (skeleton W s)) = q_result_timeout (s_query s)"
  "cx_callbacks (s_ctx (skeleton W s)) = cx_callbacks (s_ctx s)"
  "os_calls (s_os (skeleton W s)) = os_calls (s_os s)"
  "get_slot sl (s_query (skeleton W s)) = get_slot sl (s_query s)"
  "backend_list (skeleton W s) = map static_backend (backend_list s)"
  "se_sources (cx_select (s_ctx (skeleton W s))) = foreign s"
  "cx_nfds (s_ctx (skeleton W s)) = cx_nfds (s_ctx s) - q_nfds (s_query s)"
  "q_nfds (s_query (skeleton W s)) = (if W then 0 else extra_watches s)"
  by (simp_all add: skeleton_def Let_def core_unfold backend_list_def get_slot_def
      split: option.splits timeout_slot.splits)

lemma skeleton_eqD:
  assumes "skeleton W s' = skeleton W s"
  shows "q_state (s_query s') = q_state (s_query s)"
    "q_backend (s_query s') = q_backend (s_query s)"
    "q_request (s_query s') = q_request (s_query s)"
    "q_callback (s_query s') = q_callback (s_query s)"
    "os_calls (s_os s') = os_calls (s_os s)"
    "get_slot sl (s_query s') = get_slot sl (s_query s)"
    "map static_backend (backend_list s') = map static_backend (backend_list s)"
  by (metis assms skeleton_simps)+

text \<open>
  What all routines of a query keep: the configured backends (without their private data), the
  registrations and the number of descriptors of other queries, the number of other watches, and
  the kind of loop.
\<close>

definition statics :: "bool \<Rightarrow> sys \<Rightarrow> netresolve_backend list \<times> (int \<Rightarrow> nat option) \<times> int \<times> int \<times> fd_callbacks" where
  "statics W s = (map static_backend (backend_list s), foreign s,
     cx_nfds (s_ctx s) - q_nfds (s_query s), if W then 0 else extra_watches s, cx_callbacks (s_ctx s))"

lemma statics_eqD:
  assumes "statics W s' = statics W s"
  shows "map static_backend (backend_list s') = map static_backend (backend_list s)" "foreign s' = foreign s"
    "cx_nfds (s_ctx s') - q_nfds (s_query s') = cx_nfds (s_ctx s) - q_nfds (s_query s)"
    "\<not> W \<Longrightarrow> extra_watches s' = extra_watches s"
    "cx_callbacks (s_ctx s') = cx_callbacks (s_ctx s)"
  using assms by (auto simp: statics_def split: if_splits)

lemma statics_length: "statics W s' = statics W s \<Longrightarrow> length (backend_list s') = length (backend_list s)"
  by (drule statics_eqD(1)) (metis length_map)

lemma statics_skeleton: "statics W s =
  (backend_list (skeleton W s), se_sources (cx_select (s_ctx (skeleton W s))),
   cx_nfds (s_ctx (skeleton W s)), q_nfds (s_query (skeleton W s)), cx_callbacks (s_ctx (skeleton W s)))"
  by (simp add: statics_def)

lemma skeleton_statics: "skeleton W s' = skeleton W s \<Longrightarrow> statics W s' = statics W s"
  by (simp only: statics_skeleton)

lemma skeleton_length:
  "skeleton W s' = skeleton W s \<Longrightarrow> length (backend_list s') = length (backend_list s)"
  by (intro statics_length skeleton_statics)

lemma extra_simps [simp]:
  "extra_watches (upd_query (\<lambda>q. q\<lparr>q_state := st\<rparr>) s) = extra_watches s"
  "extra_watches (upd_query (\<lambda>q. q\<lparr>q_backend := f q\<rparr>) s) = extra_watches s"
  "extra_watches (upd_request g s) = extra_watches s"
  "extra_watches (upd_response h s) = extra_watches s"
  "extra_watches (upd_os o1 s) = extra_watches s"
  "extra_watches (upd_ctx c s) = extra_watches s"
  by (simp_all add: extra_watches_def armed_def)

lemma foreign_simps [simp]:
  "foreign (upd_query (\<lambda>q. q\<lparr>q_state := st\<rparr>) s) = foreign s"
  "foreign (upd_query (\<lambda>q. q\<lparr>q_backend := f q\<rparr>) s) = foreign s"
  "foreign (upd_request g s) = foreign s"
  "foreign (upd_response h s) = foreign s"
  "foreign (upd_os o1 s) = foreign s"
  by (simp_all add: foreign_def own_ids_def)

lemma statics_upd [simp]:
  "statics W (upd_query (\<lambda>q. q\<lparr>q_state := st\<rparr>) s) = statics W s"
  "statics W (upd_query (\<lambda>q. q\<lparr>q_backend := f q\<rparr>) s) = statics W s"
  "statics W (default_protocol s) = statics W s"
  by (simp_all add: statics_def backend_list_def default_protocol_def)

lemma skeleton_core: "core s' = core s \<Longrightarrow> extra_watches s' = extra_watches s \<Longrightarrow> skeleton W s' = skeleton W s"
  by (simp add: skeleton_def)

text \<open>Arming or clearing a timeout changes the skeleton at this timeout only.\<close>

lemma skeleton_slot:
  assumes "core s' = core (upd_query (set_slot sl w) s)" and "extra_watches s' = extra_watches s"
  shows "skeleton W s' = upd_query (set_slot sl w) (skeleton W s)"
proof -
  have "core (upd_query (set_slot sl w) s) = upd_query (set_slot sl w) (core s)"
    by (cases sl) (simp_all add: core_unfold upd_query_def set_slot_def)
  then show ?thesis
    by (cases sl) (simp_all add: skeleton_def assms Let_def upd_query_def set_slot_def)
qed

lemma skeleton_slotD:
  assumes "skeleton W s' = upd_query (set_slot sl w) (skeleton W s)"
  shows "q_state (s_query s') = q_state (s_query s)"
    "q_backend (s_query s') = q_backend (s_query s)"
    "q_callback (s_query s') = q_callback (s_query s)"
    "os_calls (s_os s') = os_calls (s_os s)"
    "get_slot a (s_query s') = (if a = sl then w else get_slot a (s_query s))"
    "statics W s' = statics W s"
    "length (backend_list s') = length (backend_list s)"
proof -
  show "q_state (s_query s') = q_state (s_query s)"
    "q_backend (s_query s') = q_backend (s_query s)"
    "q_callback (s_query s') = q_callback (s_query s)"
    "os_calls (s_os s') = os_calls (s_os s)"
    "get_slot a (s_query s') = (if a = sl then w else get_slot a (s_query s))"
    using arg_cong [OF assms, of "\<lambda>x. q_state (s_query x)"] arg_cong [OF assms, of "\<lambda>x. q_backend (s_query x)"]
      arg_cong [OF assms, of "\<lambda>x. q_callback (s_query x)"] arg_cong [OF assms, of "\<lambda>x. os_calls (s_os x)"]
      arg_cong [OF assms, of "\<lambda>x. get_slot a (s_query x)"]
    by simp_all
  show st: "statics W s' = statics W s"
    unfolding statics_skeleton assms by (simp add: backend_list_def)
  show "length (backend_list s') = length (backend_list s)" by (rule statics_length [OF st])
qed

lemma skeleton_upd:
  "skeleton W (upd_query (\<lambda>q. q\<lparr>q_state := st\<rparr>) s) = upd_query (\<lambda>q. q\<lparr>q_state := st\<rparr>) (skeleton W s)"
  "skeleton W (upd_query (\<lambda>q. q\<lparr>q_backend := f (q_backend q)\<rparr>) s) =
     upd_query (\<lambda>q. q\<lparr>q_backend := f (q_backend q)\<rparr>) (skeleton W s)"
  "skeleton W (upd_request g s) = upd_request g (skeleton W s)"
  "skeleton W (upd_os (\<lambda>o1. o1\<lparr>os_calls := os_calls o1 @ cs\<rparr>) s) =
     upd_os (\<lambda>o1. o1\<lparr>os_calls := os_calls o1 @ cs\<rparr>) (skeleton W s)"
  by (simp_all add: skeleton_def core_unfold extra_watches_def armed_def upd_query_def upd_request_def upd_os_def Let_def)

lemma skeleton_forget:
  "skeleton W (upd_response h s) = skeleton W s"
  "skeleton W (upd_backend i (\<lambda>b. b\<lparr>be_data := d\<rparr>) s) = skeleton W s"
proof -
  show "skeleton W (upd_response h s) = skeleton W s"
    by (simp add: skeleton_def core_unfold extra_watches_def armed_def upd_response_def upd_query_def Let_def)
  have "map static_backend (bs[i := (bs ! i)\<lparr>be_data := d\<rparr>]) = map static_backend bs" for bs
  proof (rule nth_equalityI)
    fix j assume "j < length (map static_backend (bs[i := (bs ! i)\<lparr>be_data := d\<rparr>]))"
    then show "map static_backend (bs[i := (bs ! i)\<lparr>be_data := d\<rparr>]) ! j = map static_backend bs ! j"
      by (cases "i = j") (simp_all add: static_backend_def)
  qed simp
  then show "skeleton W (upd_backend i (\<lambda>b. b\<lparr>be_data := d\<rparr>) s) = skeleton W s"
    by (simp add: skeleton_def core_unfold extra_watches_def upd_backend_def upd_ctx_def Let_def option.map_comp o_def)
qed

section \<open>The contract of backends and callbacks\<close>

definition tidy :: "sys \<Rightarrow> bool" where
  "tidy s \<longleftrightarrow> ev_inv s \<and> slots_inv s"

lemma tidy_query_cong:
  assumes "tidy s" and "q_watches (f (s_query s)) = q_watches (s_query s)"
    and "q_nfds (f (s_query s)) = q_nfds (s_query s)"
    and "\<And>sl. get_slot sl (f (s_query s)) = get_slot sl (s_query s)"
  shows "tidy (upd_query f s)"
  using assms ev_inv_query_cong unfolding tidy_def slots_inv_def by simp

definition quiet :: "bool \<Rightarrow> fault set \<Rightarrow> sys \<Rightarrow> sys res \<Rightarrow> bool" where
  "quiet W F s r \<longleftrightarrow> returns F r (\<lambda>s'. skeleton W s' = skeleton W s \<and> (tidy s \<longrightarrow> tidy s'))"

text \<open>
  Work, followed by a single report of success or failure, or by nothing, where waiting is
  allowed (\<open>W\<close>). A setup that is not allowed to wait is one that answers at once.
\<close>

definition reports :: "bool \<Rightarrow> fault set \<Rightarrow> (set_state \<Rightarrow> sys \<Rightarrow> sys res) \<Rightarrow> sys \<Rightarrow> bool" where
  "reports W F f s \<longleftrightarrow> (\<exists>r. quiet W F s r \<and>
     (W \<and> (\<forall>ss. f ss s = r) \<or> (\<exists>st \<in> {STATE_RESOLVED, STATE_ERROR}. \<forall>ss. f ss s = rbind r (ss st))))"

abbreviation prompt :: "fault set \<Rightarrow> (set_state \<Rightarrow> sys \<Rightarrow> sys res) \<Rightarrow> sys \<Rightarrow> bool" where
  "prompt \<equiv> reports False"

lemma prompt_def: "prompt F f s \<longleftrightarrow> (\<exists>r. quiet False F s r \<and>
     (\<exists>st \<in> {STATE_RESOLVED, STATE_ERROR}. \<forall>ss. f ss s = rbind r (ss st)))"
  by (simp add: reports_def)

lemma prompt_fault: "(\<And>ss. f ss s = Inl e) \<Longrightarrow> e \<in> F \<Longrightarrow> prompt F f s"
  unfolding prompt_def by (intro exI [of _ "Inl e"] conjI bexI [of _ STATE_ERROR]) (simp_all add: quiet_def)

section \<open>Steps of the machine\<close>

definition clear_slots :: "sys \<Rightarrow> sys" where
  "clear_slots s = upd_query (set_slot Slot_result_timeout None)
     (upd_query (set_slot Slot_request_timeout None) (upd_query (set_slot Slot_delayed None) s))"

lemma clear_slots_simps [simp]:
  "get_slot sl (s_query (clear_slots s)) = None"
  "q_state (s_query (clear_slots s)) = q_state (s_query s)"
  "q_backend (s_query (clear_slots s)) = q_backend (s_query s)"
  "q_request (s_query (clear_slots s)) = q_request (s_query s)"
  "q_callback (s_query (clear_slots s)) = q_callback (s_query s)"
  "os_calls (s_os (clear_slots s)) = os_calls (s_os s)"
  "backend_list (clear_slots s) = backend_list s"
  by (simp_all add: clear_slots_def backend_list_def) (metis timeout_slot.exhaust)

lemma skeleton_clearD:
  assumes "skeleton W t = clear_slots (skeleton W s)"
  shows "q_state (s_query t) = q_state (s_query s)"
    "q_backend (s_query t) = q_backend (s_query s)"
    "q_callback (s_query t) = q_callback (s_query s)"
    "os_calls (s_os t) = os_calls (s_os s)"
    "get_slot sl (s_query t) = None"
    "statics W t = statics W s"
    "length (backend_list t) = length (backend_list s)"
proof -
  show "q_state (s_query t) = q_state (s_query s)" "q_backend (s_query t) = q_backend (s_query s)"
    "q_callback (s_query t) = q_callback (s_query s)" "os_calls (s_os t) = os_calls (s_os s)"
    "get_slot sl (s_query t) = None"
    using arg_cong [OF assms, of "\<lambda>x. q_state (s_query x)"] arg_cong [OF assms, of "\<lambda>x. q_backend (s_query x)"]
      arg_cong [OF assms, of "\<lambda>x. q_callback (s_query x)"] arg_cong [OF assms, of "\<lambda>x. os_calls (s_os x)"]
      arg_cong [OF assms, of "\<lambda>x. get_slot sl (s_query x)"]
    by simp_all
  show st: "statics W t = statics W s"
    unfolding statics_skeleton assms by (simp add: clear_slots_def backend_list_def)
  show "length (backend_list t) = length (backend_list s)" by (rule statics_length [OF st])
qed

definition calls_for :: "netresolve_query \<Rightarrow> netresolve_state \<Rightarrow> (query_callback \<times> netresolve_state) list" where
  "calls_for q st = (case q_callback q of None \<Rightarrow> [] | Some cb \<Rightarrow> [(cb, st)])"

definition log_call :: "sys \<Rightarrow> sys" where
  "log_call s = (case q_callback (s_query s) of None \<Rightarrow> s
     | Some cb \<Rightarrow> upd_os (\<lambda>o1. o1\<lparr>os_calls := os_calls o1 @ [(cb, state_of s)]\<rparr>) s)"

lemma log_call_simps [simp]:
  "s_query (log_call s) = s_query s"
  "s_ctx (log_call s) = s_ctx s"
  "backend_list (log_call s) = backend_list s"
  "os_calls (s_os (log_call s)) = os_calls (s_os s) @ calls_for (s_query s) (state_of s)"
  by (simp_all add: log_call_def calls_for_def backend_list_def split: option.splits)

lemma log_call_extra [simp]: "extra_watches (log_call s) = extra_watches s" "foreign (log_call s) = foreign s"
  by (simp_all add: log_call_def split: option.splits)

lemma statics_log_call [simp]: "statics W (log_call s) = statics W s"
  by (simp add: statics_def)

lemma skeleton_log_call: "skeleton W (log_call s) = log_call (skeleton W s)"
  by (simp add: log_call_def skeleton_upd split: option.splits)

lemma tidy_log_call: "tidy s \<Longrightarrow> tidy (log_call s)"
  unfolding tidy_def slots_inv_def ev_inv_def loop_inv_def fds_inv_def log_call_def
  by (auto split: option.splits fd_callbacks.splits)

lemma tidy_upd_backend: "tidy s \<Longrightarrow> tidy (upd_backend i f s)"
  unfolding tidy_def slots_inv_def ev_inv_def loop_inv_def upd_backend_def
  by (auto split: fd_callbacks.splits)

lemma tidy_default_protocol: "tidy s \<Longrightarrow> tidy (default_protocol s)"
  unfolding default_protocol_def upd_request_def by (rule tidy_query_cong) simp_all

lemma clear_timeout_returns:
  assumes "tidy s"
  shows "returns F (clear_timeout sl s)
     (\<lambda>s'. tidy s' \<and> skeleton W s' = upd_query (set_slot sl None) (skeleton W s))"
proof -
  obtain s' where s': "clear_timeout sl s = Inr s'" "ev_inv s'" "slots_inv s'"
      "core s' = core (upd_query (set_slot sl None) s)" "extra_watches s' = extra_watches s"
    using clear_timeout_ok [of s sl] assms unfolding tidy_def by blast
  then show ?thesis using skeleton_slot [OF s'(4,5)] by (simp add: tidy_def)
qed

lemma start_timeout_returns:
  assumes "tidy s" and "0 \<le> ms" and "get_slot sl (s_query s) = None"
  shows "returns F (start_timeout sl ms (slot_callback sl) s)
     (\<lambda>s'. tidy s' \<and> (\<exists>w. skeleton W s' = upd_query (set_slot sl w) (skeleton W s)))"
proof -
  obtain s' w where s': "start_timeout sl ms (slot_callback sl) s = Inr s'" "ev_inv s'" "slots_inv s'"
      "core s' = core (upd_query (set_slot sl w) s)" "extra_watches s' = extra_watches s"
    using start_timeout_ok [of s ms "slot_callback sl" sl] assms unfolding tidy_def by blast
  then show ?thesis using skeleton_slot [OF s'(4,5)] by (auto simp: tidy_def)
qed

lemma enter_waiting_returns:
  assumes "tidy s" and "get_slot Slot_request_timeout (s_query s) = None"
  shows "returns F (enter_waiting s)
     (\<lambda>s'. tidy s' \<and> (\<exists>w. skeleton W s' = upd_query (set_slot Slot_request_timeout w) (skeleton W s)))"
proof (cases "rq_request_timeout (request_of s) > 0")
  case True
  then show ?thesis
    using start_timeout_returns [OF assms(1), of "rq_request_timeout (request_of s)" Slot_request_timeout F W] assms(2)
    by (simp add: enter_waiting_def slot_callback_def)
next
  case False
  have "upd_query (set_slot Slot_request_timeout (get_slot Slot_request_timeout (s_query s))) (skeleton W s) = skeleton W s"
    by (simp add: upd_query_def set_slot_def get_slot_def skeleton_def core_unfold Let_def)
  then show ?thesis using False assms(1) by (simp add: enter_waiting_def) metis
qed

lemma enter_resolved_returns:
  assumes "tidy s" and "Aborted \<in> F" and "get_slot Slot_delayed (s_query s) = None"
  shows "returns F (enter_resolved STATE_SETUP s)
     (\<lambda>s'. tidy s' \<and> (\<exists>w. skeleton W s' = upd_query (set_slot Slot_delayed w) (skeleton W s)))"
proof (cases "alloc_fd (s_os s)")
  case None
  then show ?thesis using assms by (simp add: enter_resolved_def)
next
  case (Some p)
  obtain fd o1 where p: "alloc_fd (s_os s) = Some (fd, o1)" using Some by (cases p) auto
  let ?s = "s\<lparr>s_os := o1\<rparr>"
  have ev: "ev_inv s" using assms(1) by (simp add: tidy_def)
  have "tidy ?s" using assms(1) alloc_fd_ok(1) [OF ev p] by (simp add: tidy_def slots_inv_def)
  moreover have "skeleton W ?s = skeleton W s" using alloc_fd_ok(5) [OF ev p] by (rule skeleton_core) (simp add: extra_watches_def)
  ultimately show ?thesis
    using start_timeout_returns [of ?s 0 Slot_delayed F W] p assms(3) by (simp add: enter_resolved_def slot_callback_def)
qed

section \<open>Where the machine rests\<close>

text \<open>Each timeout is armed only in the states whose assertions its handler makes.\<close>

definition slots_match :: "sys \<Rightarrow> bool" where
  "slots_match s \<longleftrightarrow>
     (get_slot Slot_delayed (s_query s) \<noteq> None \<longrightarrow> state_of s = STATE_RESOLVED) \<and>
     (get_slot Slot_request_timeout (s_query s) \<noteq> None \<longrightarrow> state_of s \<in> {STATE_WAITING, STATE_WAITING_MORE}) \<and>
     (get_slot Slot_result_timeout (s_query s) \<noteq> None \<longrightarrow> state_of s = STATE_WAITING_MORE)"

definition ready :: "sys \<Rightarrow> bool" where
  "ready s \<longleftrightarrow> tidy s \<and> (\<forall>sl. get_slot sl (s_query s) = None) \<and>
     q_backend (s_query s) < length (backend_list s)"

text \<open>
  At rest after starting a backend: some backend is being waited for or has answered, or all of
  them are exhausted, and exactly in the last case the callback has been called, once.
\<close>

definition at_rest :: "bool \<Rightarrow> sys \<Rightarrow> sys \<Rightarrow> bool" where
  "at_rest W s s' \<longleftrightarrow> tidy s' \<and> slots_match s' \<and>
     state_of s' \<in> {STATE_WAITING, STATE_RESOLVED, STATE_FAILED} \<and> (state_of s' = STATE_WAITING \<longrightarrow> W) \<and>
     q_backend (s_query s) \<le> q_backend (s_query s') \<and>
     statics W s' = statics W s \<and>
     q_callback (s_query s') = q_callback (s_query s) \<and>
     (if state_of s' = STATE_FAILED
      then q_backend (s_query s') = length (backend_list s) \<and>
        os_calls (s_os s') = os_calls (s_os s) @ calls_for (s_query s) STATE_FAILED
      else q_backend (s_query s') < length (backend_list s) \<and> os_calls (s_os s') = os_calls (s_os s))"

lemma at_rest_earlier:
  "at_rest W t s' \<Longrightarrow> q_backend (s_query s) \<le> q_backend (s_query t) \<Longrightarrow>
   statics W t = statics W s \<Longrightarrow>
   q_callback (s_query t) = q_callback (s_query s) \<Longrightarrow>
   os_calls (s_os t) = os_calls (s_os s) \<Longrightarrow> at_rest W s s'"
  using statics_length [of W t s] unfolding at_rest_def calls_for_def by (simp split: if_splits)

lemma ready_skeleton:
  assumes "ready s" and "tidy s'" and "skeleton W s' = skeleton W s"
  shows "ready s'"
  using assms(1,2) skeleton_eqD(2,6) [OF assms(3)] skeleton_length [OF assms(3)]
  by (simp add: ready_def)

lemma ready_state: "ready s \<Longrightarrow> ready (upd_query (\<lambda>q. q\<lparr>q_state := st\<rparr>) s)"
  unfolding ready_def by (auto simp: backend_list_def intro: tidy_query_cong)

lemma ready_default_protocol: "ready s \<Longrightarrow> ready (default_protocol s)"
  unfolding ready_def
  by (auto simp: backend_list_def default_protocol_def tidy_default_protocol [unfolded default_protocol_def])

lemma default_protocol_simps [simp]:
  "q_state (s_query (default_protocol s)) = q_state (s_query s)"
  "q_backend (s_query (default_protocol s)) = q_backend (s_query s)"
  "q_callback (s_query (default_protocol s)) = q_callback (s_query s)"
  "s_ctx (default_protocol s) = s_ctx s" "s_os (default_protocol s) = s_os s"
  "backend_list (default_protocol s) = backend_list s"
  by (simp_all add: default_protocol_def backend_list_def)

lemma backend_list_upd_query [simp]: "backend_list (upd_query f s) = backend_list s"
  by (simp add: backend_list_def)

text \<open>Resting in a waiting or resolved state, reached by arming the timeout of that state.\<close>

lemma at_rest_armed:
  assumes s: "ready s" and s': "tidy s'"
    and sk: "skeleton W s' = upd_query (set_slot sl w) (upd_query (\<lambda>q. q\<lparr>q_state := st\<rparr>) (skeleton W s))"
    and st: "st = STATE_WAITING \<longrightarrow> W"
      "(st, sl) \<in> {(STATE_WAITING, Slot_request_timeout), (STATE_RESOLVED, Slot_delayed)}"
  shows "at_rest W s s'"
proof -
  have sk': "skeleton W s' = upd_query (set_slot sl w) (skeleton W (upd_query (\<lambda>q. q\<lparr>q_state := st\<rparr>) s))"
    using sk by (simp add: skeleton_upd)
  from skeleton_slotD [OF sk'] show ?thesis
    using s s' st by (auto simp: at_rest_def slots_match_def ready_def)
qed

section \<open>The contract of backends and callbacks, as an interface\<close>

locale backend_code =
  fixes C :: code and F :: "fault set" and W :: bool
  assumes no_fuel: "Out_of_fuel \<notin> F" and aborts: "Aborted \<in> F"
    and setup_reports: "state_of s = STATE_SETUP \<Longrightarrow> reports W F (\<lambda>ss. c_setup C m t ss args) s"
    and cleanup_quiet: "quiet W F s (c_cleanup C m d s)"
    and callback_quiet: "quiet W F s (c_query_callback C cb s)"
begin

lemma cleanup_backend_quiet: "quiet W F s (cleanup_backend C s)"
proof (cases "current_backend s")
  case None
  then show ?thesis by (simp add: cleanup_backend_def quiet_def)
next
  case (Some b)
  have "quiet W F s (if be_cleanup b then c_cleanup C (be_module b) (be_data b) s else Inr s)"
    using cleanup_quiet by (simp add: quiet_def)
  then show ?thesis
    unfolding cleanup_backend_def quiet_def Some option.case Let_def
    by (rule returns_bind) (simp add: skeleton_forget tidy_upd_backend)
qed

lemma cleanup_query_returns:
  assumes "tidy s"
  shows "returns F (cleanup_query C s) (\<lambda>s'. tidy s' \<and> skeleton W s' = clear_slots (skeleton W s))"
  unfolding cleanup_query_def
  by (rule returns_bind [OF clear_timeout_returns [where W = W, OF assms]],
      rule returns_bind [OF clear_timeout_returns [where W = W]], simp,
      rule returns_bind [OF clear_timeout_returns [where W = W]], simp,
      rule returns_mono [OF cleanup_backend_quiet [unfolded quiet_def]])
    (simp_all add: clear_slots_def)

lemma call_callback_returns:
  "returns F (call_callback C s) (\<lambda>s'. skeleton W s' = log_call (skeleton W s) \<and> (tidy s \<longrightarrow> tidy s'))"
proof (cases "q_callback (s_query s)")
  case None
  then show ?thesis by (simp add: call_callback_def log_call_def)
next
  case (Some cb)
  have "call_callback C s = c_query_callback C cb (log_call s)"
    using Some by (simp add: call_callback_def log_call_def)
  then show ?thesis
    using callback_quiet [of "log_call s" cb] tidy_log_call [of s]
    unfolding quiet_def skeleton_log_call by (auto elim: returns_mono)
qed

lemma enter_failed_rests:
  assumes s: "tidy s" "state_of s = STATE_FAILED" "q_backend (s_query s) < length (backend_list s)"
    and next_one: "\<And>t. ready t \<Longrightarrow> state_of t \<noteq> STATE_SETUP \<Longrightarrow>
      q_backend (s_query t) = Suc (q_backend (s_query s)) \<Longrightarrow>
      length (backend_list t) = length (backend_list s) \<Longrightarrow> returns F (ss STATE_SETUP t) (at_rest W t)"
  shows "returns F (enter_failed C ss s) (at_rest W s)"
  unfolding enter_failed_def
proof (rule returns_bind [OF cleanup_query_returns [OF s(1)]])
  fix t assume t: "tidy t \<and> skeleton W t = clear_slots (skeleton W s)"
  then have sk: "skeleton W t = clear_slots (skeleton W s)" by simp
  have tq: "state_of t = STATE_FAILED" "q_backend (s_query t) = q_backend (s_query s)"
    "q_callback (s_query t) = q_callback (s_query s)" "os_calls (s_os t) = os_calls (s_os s)"
    "\<And>sl. get_slot sl (s_query t) = None" "statics W t = statics W s"
    using s(2) skeleton_clearD [OF sk] by simp_all
  have tl: "length (backend_list t) = length (backend_list s)" by (rule skeleton_clearD(7) [OF sk])
  let ?u = "upd_query (\<lambda>q. q\<lparr>q_backend := Suc (q_backend q)\<rparr>) t"
  have nb: "next_backend t = Inr ?u" using tq tl s(3) by (simp add: next_backend_def)
  have tu: "tidy ?u" using t by (auto intro: tidy_query_cong)
  have bl: "backend_list ?u = backend_list t" by (simp add: backend_list_def)
  show "returns F (rbind (next_backend t)
      (\<lambda>s. if current_backend s \<noteq> None then ss STATE_SETUP s else call_callback C s)) (at_rest W s)"
  proof (cases "Suc (q_backend (s_query s)) < length (backend_list s)")
    case True
    then have "ready ?u" using tu tq tl bl by (simp add: ready_def)
    then have "returns F (ss STATE_SETUP ?u) (at_rest W ?u)" using next_one [of ?u] tq tl bl by simp
    then have "returns F (ss STATE_SETUP ?u) (at_rest W s)"
      by (rule returns_mono) (use tq tl bl in \<open>auto elim!: at_rest_earlier\<close>)
    then show ?thesis using True tq tl bl nb by (simp add: current_backend_def)
  next
    case False
    have "returns F (call_callback C ?u) (at_rest W s)"
    proof (rule returns_mono [OF call_callback_returns])
      fix v assume v: "skeleton W v = log_call (skeleton W ?u) \<and> (tidy ?u \<longrightarrow> tidy v)"
      then have sv: "skeleton W v = skeleton W (log_call ?u)" by (simp add: skeleton_log_call)
      show "at_rest W s v"
        using v tu tq tl bl False s(3) skeleton_eqD(1,2,4,5,6) [OF sv] skeleton_length [OF sv] skeleton_statics [OF sv]
        by (simp add: at_rest_def slots_match_def calls_for_def split: option.splits)
    qed simp
    then show ?thesis using False tq tl bl nb s(3) by (simp add: current_backend_def)
  qed
qed

lemma failed_rests:
  assumes "ready s" and "state_of s \<noteq> STATE_FAILED"
    and "\<And>t. ready t \<Longrightarrow> state_of t \<noteq> STATE_SETUP \<Longrightarrow>
      q_backend (s_query t) = Suc (q_backend (s_query s)) \<Longrightarrow>
      length (backend_list t) = length (backend_list s) \<Longrightarrow>
      returns F (netresolve_query_set_state m C STATE_SETUP t) (at_rest W t)"
  shows "returns F (netresolve_query_set_state (Suc m) C STATE_FAILED s) (at_rest W s)"
proof -
  let ?s = "upd_query (\<lambda>q. q\<lparr>q_state := STATE_FAILED\<rparr>) s"
  have r: "ready ?s" using assms(1) by (rule ready_state)
  have "returns F (enter_failed C (netresolve_query_set_state m C) ?s) (at_rest W ?s)"
    by (rule enter_failed_rests) (use r assms(3) in \<open>auto simp: ready_def\<close>)
  then have "returns F (enter_failed C (netresolve_query_set_state m C) ?s) (at_rest W s)"
    by (rule returns_mono) (auto elim!: at_rest_earlier)
  then show ?thesis using assms(2) by (simp add: enter_state_def)
qed

lemma waiting_rests:
  assumes "ready s" and "state_of s = STATE_SETUP" and "W"
  shows "returns F (netresolve_query_set_state (Suc m) C STATE_WAITING s) (at_rest W s)"
proof -
  let ?s = "upd_query (\<lambda>q. q\<lparr>q_state := STATE_WAITING\<rparr>) s"
  have "tidy ?s" "get_slot Slot_request_timeout (s_query ?s) = None"
    using ready_state [OF assms(1)] by (simp_all add: ready_def)
  from enter_waiting_returns [OF this, of F W] have "returns F (enter_waiting ?s) (at_rest W s)"
    by (rule returns_mono) (use at_rest_armed [OF assms(1), where W = W] assms in \<open>auto simp: skeleton_upd\<close>)
  then show ?thesis using assms(2) by (simp add: enter_state_def)
qed

lemma resolved_rests:
  assumes "ready s" and "state_of s = STATE_SETUP"
  shows "returns F (netresolve_query_set_state (Suc m) C STATE_RESOLVED s) (at_rest W s)"
proof -
  let ?s = "upd_query (\<lambda>q. q\<lparr>q_state := STATE_RESOLVED\<rparr>) s"
  have "tidy ?s" "get_slot Slot_delayed (s_query ?s) = None"
    using ready_state [OF assms(1)] by (simp_all add: ready_def)
  from enter_resolved_returns [OF this(1) aborts this(2), of W] have "returns F (enter_resolved STATE_SETUP ?s) (at_rest W s)"
    by (rule returns_mono) (use at_rest_armed [OF assms(1), where W = W] assms in \<open>auto simp: skeleton_upd\<close>)
  then show ?thesis using assms(2) by (simp add: enter_state_def)
qed

text \<open>What follows the setup function, from each of the states it can leave behind.\<close>

lemma after_setup_rests:
  fixes m :: nat
  defines "ss \<equiv> netresolve_query_set_state (Suc m) C"
  defines "tail \<equiv> \<lambda>s. rbind (if state_of s = STATE_SETUP
      then ss (if rq_request_timeout (request_of s) \<noteq> 0 then STATE_WAITING else STATE_FAILED) s
      else Inr s) (\<lambda>s. if state_of s = STATE_ERROR then ss STATE_FAILED s else Inr s)"
  assumes failed: "\<And>t. ready t \<Longrightarrow> state_of t \<noteq> STATE_FAILED \<Longrightarrow> q_backend (s_query t) = i \<Longrightarrow>
      length (backend_list t) = l \<Longrightarrow> returns F (ss STATE_FAILED t) (at_rest W t)"
    and s: "ready s" "state_of s = STATE_SETUP" "q_backend (s_query s) = i" "length (backend_list s) = l"
    and f: "reports W F f s"
  shows "returns F (rbind (f ss s) tail) (at_rest W s)"
proof -
  have rest: "returns F (tail t) (at_rest W s)" if "at_rest W s t" for t
    using that by (auto simp: tail_def at_rest_def)
  have done_tail: "returns F (rbind x tail) (at_rest W s)" if "returns F x (at_rest W s)" for x
    using that rest by (rule returns_bind)
  from f obtain r where r: "quiet W F s r"
    and fr: "W \<and> (\<forall>ss. f ss s = r) \<or> (\<exists>st \<in> {STATE_RESOLVED, STATE_ERROR}. \<forall>ss. f ss s = rbind r (ss st))"
    unfolding reports_def by blast
  show ?thesis
  proof (cases r)
    case (Inl e)
    with r have "e \<in> F" by (simp add: quiet_def)
    with fr Inl show ?thesis by auto
  next
    case (Inr t)
    with r s(1) have sk: "skeleton W t = skeleton W s" and "tidy t"
      by (auto simp: quiet_def ready_def)
    with s(1) have t: "ready t" by (auto intro: ready_skeleton)
    have tq: "state_of t = STATE_SETUP" "q_backend (s_query t) = i" "length (backend_list t) = l"
      using s(2-4) skeleton_eqD(1,2) [OF sk] skeleton_length [OF sk] by simp_all
    have from_t: "returns F x (at_rest W s)" if "returns F x (at_rest W t)" for x
      by (rule returns_mono [OF that])
        (auto elim!: at_rest_earlier simp: skeleton_eqD(2,4,5) [OF sk] skeleton_statics [OF sk])
    let ?e = "upd_query (\<lambda>q. q\<lparr>q_state := STATE_ERROR\<rparr>) t"
    have e: "returns F (tail ?e) (at_rest W s)"
    proof -
      have "returns F (ss STATE_FAILED ?e) (at_rest W ?e)"
        using failed [of ?e] ready_state [OF t] tq by simp
      then have "returns F (ss STATE_FAILED ?e) (at_rest W t)"
        by (rule returns_mono) (auto elim!: at_rest_earlier)
      then show ?thesis using from_t by (simp add: tail_def)
    qed
    have silent: "returns F (tail t) (at_rest W s)" if "W"
    proof -
      have "returns F (ss (if rq_request_timeout (request_of t) \<noteq> 0 then STATE_WAITING else STATE_FAILED) t) (at_rest W t)"
        using failed [OF t] waiting_rests [OF t tq(1) that, of m] tq by (simp add: ss_def)
      from from_t [OF this] show ?thesis
        unfolding tail_def if_P [OF tq(1)] by (rule returns_bind) (auto simp: at_rest_def)
    qed
    have "ss STATE_ERROR t = Inr ?e" using tq by (simp add: ss_def enter_state_def)
    moreover have "returns F (rbind (ss STATE_RESOLVED t) tail) (at_rest W s)"
      using done_tail [OF from_t [OF resolved_rests [OF t tq(1), of m]]] by (simp add: ss_def)
    ultimately show ?thesis using fr Inr e silent by auto
  qed
qed

lemma setup_rests:
  assumes "ready s" and "state_of s \<noteq> STATE_SETUP"
    and "n \<ge> 2 * (length (backend_list s) - q_backend (s_query s))"
  shows "returns F (netresolve_query_set_state n C STATE_SETUP s) (at_rest W s)"
  using assms
proof (induction n arbitrary: s rule: less_induct)
  case (less n)
  have "length (backend_list s) - q_backend (s_query s) \<ge> 1"
    using less.prems(1) unfolding ready_def by linarith
  then have "n \<ge> 2" using less.prems(3) by linarith
  then obtain m where n: "n = Suc (Suc m)" by (metis add_2_eq_Suc le_Suc_ex)
  let ?ss = "netresolve_query_set_state (Suc m) C"
  let ?s1 = "upd_query (\<lambda>q. q\<lparr>q_state := STATE_SETUP\<rparr>) s" and ?s2 = "default_protocol (upd_query (\<lambda>q. q\<lparr>q_state := STATE_SETUP\<rparr>) s)"
  have r: "ready ?s2" using less.prems(1) by (intro ready_default_protocol ready_state)
  have failed: "returns F (?ss STATE_FAILED t) (at_rest W t)"
    if "ready t" "state_of t \<noteq> STATE_FAILED" "q_backend (s_query t) = q_backend (s_query s)"
      "length (backend_list t) = length (backend_list s)" for t
    using that(1,2)
  proof (rule failed_rests)
    fix u assume "ready u" "state_of u \<noteq> STATE_SETUP" "q_backend (s_query u) = Suc (q_backend (s_query t))"
      "length (backend_list u) = length (backend_list t)"
    then show "returns F (netresolve_query_set_state m C STATE_SETUP u) (at_rest W u)"
      using less.IH [of m u] less.prems(3) n that by simp
  qed
  from r obtain b where b: "current_backend ?s1 = Some b"
    by (auto simp: ready_def current_backend_def)
  let ?t = "rq_type (request_of ?s2)"
  have "returns F (enter_setup C ?ss ?s1) (at_rest W ?s2)"
  proof (cases "be_setup b ?t")
    case True
    have "reports W F (\<lambda>ss. c_setup C (be_module b) ?t ss (tl (be_settings b))) ?s2"
      by (rule setup_reports) simp
    then have "returns F (rbind (c_setup C (be_module b) ?t ?ss (tl (be_settings b)) ?s2) (\<lambda>s.
        rbind (if state_of s = STATE_SETUP
               then ?ss (if rq_request_timeout (request_of s) \<noteq> 0 then STATE_WAITING else STATE_FAILED) s
               else Inr s) (\<lambda>s. if state_of s = STATE_ERROR then ?ss STATE_FAILED s else Inr s))) (at_rest W ?s2)"
      by (intro after_setup_rests [where i = "q_backend (s_query s)" and l = "length (backend_list s)"] failed r)
        simp_all
    then show ?thesis unfolding enter_setup_def b option.case Let_def if_P [OF True] .
  next
    case False
    then show ?thesis using failed [of ?s2] r b
      by (simp add: enter_setup_def Let_def del: netresolve_query_set_state.simps)
  qed
  then have "returns F (enter_setup C ?ss ?s1) (at_rest W s)"
    by (rule returns_mono) (auto elim!: at_rest_earlier)
  then show ?case
    unfolding n netresolve_query_set_state.simps(2) [of "Suc m"] enter_state_def
    using less.prems(2) by (simp del: netresolve_query_set_state.simps)
qed

end

end
