(* ===== verification/Lifetime.thy ===== *)
theory Lifetime
  imports Resolution
begin

text \<open>
  The rest of a query's life under the contract of the backends: more fuel never changes a
  result, entering the final state and going on with mandatory backends, and the dispatching of
  the query's own timeouts. The last section puts the entry points together to a step relation
  and shows what holds in every reachable state.
\<close>

section \<open>Fuel\<close>

definition fuel_le :: "set_state \<Rightarrow> set_state \<Rightarrow> bool" where
  "fuel_le ss ss' \<longleftrightarrow> (\<forall>st s. ss st s \<noteq> Inl Out_of_fuel \<longrightarrow> ss' st s = ss st s)"

text \<open>A routine that ended without running out of fuel does the same with more of it.\<close>

definition fuel_mono :: "(set_state \<Rightarrow> sys \<Rightarrow> sys res) \<Rightarrow> sys \<Rightarrow> bool" where
  "fuel_mono f s \<longleftrightarrow> (\<forall>ss ss'. fuel_le ss ss' \<longrightarrow> f ss s \<noteq> Inl Out_of_fuel \<longrightarrow> f ss' s = f ss s)"

lemma fuel_monoD: "fuel_mono f s \<Longrightarrow> fuel_le ss ss' \<Longrightarrow> f ss s \<noteq> Inl Out_of_fuel \<Longrightarrow> f ss' s = f ss s"
  by (simp add: fuel_mono_def)

lemma fuel_mono_const: "fuel_mono (\<lambda>ss. f) s"
  by (simp add: fuel_mono_def)

lemma fuel_mono_call: "fuel_mono (\<lambda>ss s. ss (st s) s) s"
  by (simp add: fuel_mono_def fuel_le_def)

lemma fuel_mono_bind:
  assumes f: "fuel_mono f s" and g: "\<And>t. fuel_mono g t"
  shows "fuel_mono (\<lambda>ss s. rbind (f ss s) (g ss)) s"
  unfolding fuel_mono_def
proof (intro allI impI)
  fix ss ss' assume le: "fuel_le ss ss'" and n: "rbind (f ss s) (g ss) \<noteq> Inl Out_of_fuel"
  then have "f ss s \<noteq> Inl Out_of_fuel" by auto
  with f le have e: "f ss' s = f ss s" by (simp add: fuel_mono_def)
  show "rbind (f ss' s) (g ss') = rbind (f ss s) (g ss)"
  proof (cases "f ss s")
    case (Inr t)
    then have "g ss t \<noteq> Inl Out_of_fuel" using n by simp
    then show ?thesis using e Inr g [of t] le by (simp add: fuel_mono_def)
  qed (use e in simp)
qed

lemma fuel_mono_if:
  "fuel_mono f s \<Longrightarrow> fuel_mono g s \<Longrightarrow> fuel_mono (\<lambda>ss s. if b s then f ss s else g ss s) s"
  by (simp add: fuel_mono_def)

lemma fuel_mono_reports: "reports W F f s \<Longrightarrow> fuel_mono f s"
proof -
  assume "reports W F f s"
  then obtain r where r: "W \<and> (\<forall>ss. f ss s = r) \<or>
      (\<exists>st \<in> {STATE_RESOLVED, STATE_ERROR}. \<forall>ss. f ss s = rbind r (ss st))"
    unfolding reports_def by blast
  show ?thesis
    unfolding fuel_mono_def fuel_le_def using r by (cases r) auto
qed

lemmas fuel_mono_rules = fuel_mono_const fuel_mono_bind fuel_mono_if fuel_mono_call

lemma fuel_mono_enter_failed: "fuel_mono (enter_failed C) s"
  unfolding enter_failed_def
  by (intro fuel_mono_rules fuel_mono_call [where st = "\<lambda>_. STATE_SETUP"])

lemma fuel_mono_enter_done: "fuel_mono (enter_done C) s"
  unfolding enter_done_def
  by (intro fuel_mono_rules fuel_mono_call [where st = "\<lambda>_. STATE_SETUP"])

lemma fuel_mono_enter_waiting_more: "fuel_mono enter_waiting_more s"
  unfolding enter_waiting_more_def
  by (intro fuel_mono_rules fuel_mono_call [where st = "\<lambda>_. STATE_DONE"])

context backend_code
begin

lemma fuel_mono_enter_setup: "state_of s = STATE_SETUP \<Longrightarrow> fuel_mono (enter_setup C) s"
proof (cases "current_backend s")
  case None
  then show ?thesis by (simp add: enter_setup_def fuel_mono_def)
next
  case (Some b)
  assume s: "state_of s = STATE_SETUP"
  let ?s = "default_protocol s"
  have "reports W F (\<lambda>ss. c_setup C (be_module b) (rq_type (request_of ?s)) ss (tl (be_settings b))) ?s"
    by (rule setup_reports) (simp add: s)
  then have "fuel_mono (\<lambda>ss s. rbind (c_setup C (be_module b) (rq_type (request_of ?s)) ss (tl (be_settings b)) s) (\<lambda>s.
        rbind (if state_of s = STATE_SETUP
               then ss (if rq_request_timeout (request_of s) \<noteq> 0 then STATE_WAITING else STATE_FAILED) s
               else Inr s) (\<lambda>s. if state_of s = STATE_ERROR then ss STATE_FAILED s else Inr s))) ?s"
    by (intro fuel_mono_bind fuel_mono_if fuel_mono_const fuel_mono_call [where st = "\<lambda>_. STATE_FAILED"]
        fuel_mono_call [where st = "\<lambda>s. if rq_request_timeout (request_of s) \<noteq> 0 then STATE_WAITING else STATE_FAILED"]
        fuel_mono_reports)
  moreover have "fuel_mono (\<lambda>ss. ss STATE_FAILED) ?s"
    by (rule fuel_mono_call [where st = "\<lambda>_. STATE_FAILED"])
  ultimately show ?thesis
    unfolding fuel_mono_def enter_setup_def Some option.case Let_def by simp
qed

lemma fuel_mono_enter_state:
  "(st = STATE_SETUP \<Longrightarrow> state_of s = STATE_SETUP) \<Longrightarrow> fuel_mono (\<lambda>ss. enter_state C ss old st) s"
  using fuel_mono_enter_failed [of C s] fuel_mono_enter_done [of C s] fuel_mono_enter_waiting_more [of s]
    fuel_mono_enter_setup [of s]
  unfolding fuel_mono_def enter_state_def by (cases st) simp_all

lemma set_state_more_fuel:
  "fuel_le (netresolve_query_set_state n C) (netresolve_query_set_state (n + k) C)"
proof (induction n)
  case 0
  then show ?case by (simp add: fuel_le_def)
next
  case (Suc n)
  show ?case
    unfolding fuel_le_def
  proof (intro allI impI)
    fix st s assume n: "netresolve_query_set_state (Suc n) C st s \<noteq> Inl Out_of_fuel"
    let ?s = "upd_query (\<lambda>q. q\<lparr>q_state := st\<rparr>) s"
    have "fuel_mono (\<lambda>ss. enter_state C ss (state_of s) st) ?s"
      by (rule fuel_mono_enter_state) simp
    then show "netresolve_query_set_state (Suc n + k) C st s = netresolve_query_set_state (Suc n) C st s"
      using n fuel_monoD [OF _ Suc.IH] by (cases "st = state_of s") simp_all
  qed
qed

text \<open>Starting a backend: the result does not depend on the fuel, once there is enough of it.\<close>

lemma setup_fuel_irrelevant:
  assumes "ready s" and "state_of s \<noteq> STATE_SETUP"
    and "n \<ge> 2 * (length (backend_list s) - q_backend (s_query s))" and "m \<ge> n"
  shows "netresolve_query_set_state m C STATE_SETUP s = netresolve_query_set_state n C STATE_SETUP s"
proof -
  have "netresolve_query_set_state n C STATE_SETUP s \<noteq> Inl Out_of_fuel"
    using setup_rests [OF assms(1-3)] no_fuel by auto
  with set_state_more_fuel [of n "m - n"] show ?thesis using assms(4) by (simp add: fuel_le_def)
qed

end

section \<open>Finishing and going on\<close>

text \<open>Where the walk stops after a backend has answered: the next mandatory one, or the end.\<close>

definition next_mandatory :: "sys \<Rightarrow> nat" where
  "next_mandatory s = Suc (q_backend (s_query s)) +
     find_index be_mandatory (drop (Suc (q_backend (s_query s))) (backend_list s))"

lemma find_index_map: "find_index p (map f xs) = find_index (p \<circ> f) xs"
  by (induction xs) simp_all

lemma be_mandatory_static [simp]: "be_mandatory (static_backend b) = be_mandatory b"
  by (simp add: static_backend_def)

lemma next_mandatory_skeleton [simp]: "next_mandatory (skeleton W s) = next_mandatory s"
  by (simp add: next_mandatory_def find_index_map o_def drop_map)

lemma next_mandatory_clear_slots [simp]: "next_mandatory (clear_slots s) = next_mandatory s"
  by (simp add: next_mandatory_def)

lemma next_mandatory_set_slot [simp]: "next_mandatory (upd_query (set_slot sl w) s) = next_mandatory s"
  by (simp add: next_mandatory_def)

lemma next_mandatory_bounds:
  assumes "q_backend (s_query s) < length (backend_list s)"
  shows "q_backend (s_query s) < next_mandatory s" "next_mandatory s \<le> length (backend_list s)"
  using assms find_index_le [of be_mandatory "drop (Suc (q_backend (s_query s))) (backend_list s)"]
  by (simp_all add: next_mandatory_def)

lemma no_mandatory:
  assumes "q_backend (s_query s) < length (backend_list s)"
    and "\<forall>b \<in> set (backend_list s). \<not> be_mandatory b"
  shows "next_mandatory s = length (backend_list s)"
proof -
  let ?bs = "drop (Suc (q_backend (s_query s))) (backend_list s)"
  have "\<not> (\<exists>b \<in> set ?bs. be_mandatory b)" using assms(2) by (meson in_set_dropD)
  then have "find_index be_mandatory ?bs = length ?bs"
    using find_index_less_iff [of be_mandatory ?bs] find_index_le [of be_mandatory ?bs] by linarith
  then show ?thesis using assms(1) by (simp add: next_mandatory_def)
qed

lemma next_mandatory_backend_eq:
  "q_backend (s_query s) < length (backend_list s) \<Longrightarrow>
     next_mandatory_backend s = Inr (upd_query (\<lambda>q. q\<lparr>q_backend := next_mandatory s\<rparr>) s)"
  by (simp add: next_mandatory_backend_def next_backend_def next_mandatory_def upd_query_def backend_list_def)

text \<open>
  Entering the final state: if no mandatory backend follows, the query rests there and the
  callback has been called once. Otherwise the walk has gone on, and the callback has been called
  in whatever state the walk came to rest.
\<close>

definition done_rest :: "bool \<Rightarrow> sys \<Rightarrow> sys \<Rightarrow> bool" where
  "done_rest W s s' \<longleftrightarrow> tidy s' \<and> slots_match s' \<and>
     statics W s' = statics W s \<and>
     q_callback (s_query s') = q_callback (s_query s) \<and>
     (if next_mandatory s = length (backend_list s)
      then state_of s' = STATE_DONE \<and> q_backend (s_query s') = length (backend_list s) \<and>
        os_calls (s_os s') = os_calls (s_os s) @ calls_for (s_query s) STATE_DONE
      else state_of s' \<in> {STATE_WAITING, STATE_RESOLVED, STATE_FAILED} \<and> (state_of s' = STATE_WAITING \<longrightarrow> W) \<and>
        next_mandatory s \<le> q_backend (s_query s') \<and> q_backend (s_query s') \<le> length (backend_list s) \<and>
        (state_of s' \<noteq> STATE_FAILED \<longrightarrow> q_backend (s_query s') < length (backend_list s)) \<and>
        os_calls (s_os s') = os_calls (s_os s) @
          (if state_of s' = STATE_FAILED then calls_for (s_query s) STATE_FAILED else []) @
          calls_for (s_query s) (state_of s'))"

context backend_code
begin

lemma enter_done_rests:
  assumes s: "tidy s" "state_of s = STATE_DONE" "q_backend (s_query s) < length (backend_list s)"
    and n: "n \<ge> 2 * (length (backend_list s) - Suc (q_backend (s_query s)))"
  shows "returns F (enter_done C (netresolve_query_set_state n C) s) (done_rest W s)"
  unfolding enter_done_def
proof (rule returns_bind [OF cleanup_query_returns [OF s(1)]])
  fix t assume t: "tidy t \<and> skeleton W t = clear_slots (skeleton W s)"
  then have sk: "skeleton W t = clear_slots (skeleton W s)" by simp
  let ?j = "next_mandatory s" and ?l = "length (backend_list s)"
  have tq: "state_of t = STATE_DONE" "q_backend (s_query t) = q_backend (s_query s)"
    "q_callback (s_query t) = q_callback (s_query s)" "os_calls (s_os t) = os_calls (s_os s)"
    "\<And>sl. get_slot sl (s_query t) = None" "statics W t = statics W s" "next_mandatory t = ?j"
    using s(2) skeleton_clearD [OF sk] arg_cong [OF sk, of next_mandatory] by simp_all
  have tl: "length (backend_list t) = ?l" by (rule skeleton_clearD(7) [OF sk])
  let ?u = "upd_query (\<lambda>q. q\<lparr>q_backend := ?j\<rparr>) t"
  have j: "Suc (q_backend (s_query s)) \<le> ?j" "?j \<le> ?l" using next_mandatory_bounds [OF s(3)] by simp_all
  have nb: "next_mandatory_backend t = Inr ?u"
    using tq tl s(3) next_mandatory_backend_eq [of t] by simp
  have tu: "tidy ?u" using t by (auto intro: tidy_query_cong)
  have uq: "state_of ?u = STATE_DONE" "q_backend (s_query ?u) = ?j" "q_callback (s_query ?u) = q_callback (s_query s)"
    "os_calls (s_os ?u) = os_calls (s_os s)" "\<And>sl. get_slot sl (s_query ?u) = None"
    "length (backend_list ?u) = ?l" "statics W ?u = statics W s"
    using tq tl by simp_all
  show "returns F (rbind (next_mandatory_backend t) (\<lambda>s.
      rbind (if current_backend s \<noteq> None then netresolve_query_set_state n C STATE_SETUP s else Inr s)
        (call_callback C))) (done_rest W s)"
  proof (cases "?j < ?l")
    case True
    then have "ready ?u" using tu uq by (simp add: ready_def)
    then have "returns F (netresolve_query_set_state n C STATE_SETUP ?u) (at_rest W ?u)"
      using setup_rests [of ?u n] uq n j by simp
    then have "returns F (rbind (netresolve_query_set_state n C STATE_SETUP ?u) (call_callback C)) (done_rest W s)"
    proof (rule returns_bind)
      fix v assume v: "at_rest W ?u v"
      show "returns F (call_callback C v) (done_rest W s)"
      proof (rule returns_mono [OF call_callback_returns])
        fix w assume w: "skeleton W w = log_call (skeleton W v) \<and> (tidy v \<longrightarrow> tidy w)"
        then have sw: "skeleton W w = skeleton W (log_call v)" by (simp add: skeleton_log_call)
        have wq: "state_of w = state_of v" "q_backend (s_query w) = q_backend (s_query v)"
          "q_callback (s_query w) = q_callback (s_query s)" "statics W w = statics W s"
          "os_calls (s_os w) = os_calls (s_os v) @ calls_for (s_query s) (state_of v)" "slots_match w" "tidy w"
          using v w uq skeleton_eqD(1,2,4,5,6) [OF sw] skeleton_statics [OF sw]
          by (simp_all add: at_rest_def slots_match_def calls_for_def)
        have vq: "state_of v \<in> {STATE_WAITING, STATE_RESOLVED, STATE_FAILED}" "state_of v = STATE_WAITING \<longrightarrow> W" "?j \<le> q_backend (s_query v)"
          "q_backend (s_query v) \<le> ?l" "statics W v = statics W s" "state_of v \<noteq> STATE_FAILED \<longrightarrow> q_backend (s_query v) < ?l"
          "os_calls (s_os v) = os_calls (s_os s) @
             (if state_of v = STATE_FAILED then calls_for (s_query s) STATE_FAILED else [])"
          using v uq by (auto simp: at_rest_def calls_for_def split: if_splits)
        show "done_rest W s w" unfolding done_rest_def wq using True vq wq(6,7) by simp
      qed simp
    qed
    then show ?thesis using True uq nb by (simp add: current_backend_def)
  next
    case False
    have "returns F (call_callback C ?u) (done_rest W s)"
    proof (rule returns_mono [OF call_callback_returns])
      fix w assume w: "skeleton W w = log_call (skeleton W ?u) \<and> (tidy ?u \<longrightarrow> tidy w)"
      then have sw: "skeleton W w = skeleton W (log_call ?u)" by (simp add: skeleton_log_call)
      show "done_rest W s w"
        using w tu uq False j skeleton_eqD(1,2,4,5,6) [OF sw] skeleton_statics [OF sw]
        by (auto simp: done_rest_def slots_match_def calls_for_def split: option.splits)
    qed simp
    then show ?thesis using False uq nb j by (simp add: current_backend_def)
  qed
qed

text \<open>Going to the final state from a state in which some backend is current.\<close>

lemma done_rests:
  assumes "tidy s" "state_of s \<noteq> STATE_DONE" "q_backend (s_query s) < length (backend_list s)"
    and "n \<ge> 2 * (length (backend_list s) - Suc (q_backend (s_query s)))"
  shows "returns F (netresolve_query_set_state (Suc n) C STATE_DONE s) (done_rest W s)"
proof -
  let ?s = "upd_query (\<lambda>q. q\<lparr>q_state := STATE_DONE\<rparr>) s"
  have "tidy ?s" using assms(1) by (auto intro: tidy_query_cong)
  then have "returns F (enter_done C (netresolve_query_set_state n C) ?s) (done_rest W ?s)"
    using enter_done_rests [of ?s n] assms(3,4) by simp
  moreover have "done_rest W ?s = done_rest W s"
    by (rule ext) (simp add: done_rest_def next_mandatory_def calls_for_def)
  ultimately show ?thesis using assms(2) by (simp add: enter_state_def)
qed

lemma failed_rests_tidy:
  assumes "tidy s" "state_of s \<noteq> STATE_FAILED" "q_backend (s_query s) < length (backend_list s)"
    and "n \<ge> 2 * (length (backend_list s) - Suc (q_backend (s_query s)))"
  shows "returns F (netresolve_query_set_state (Suc n) C STATE_FAILED s) (at_rest W s)"
proof -
  let ?s = "upd_query (\<lambda>q. q\<lparr>q_state := STATE_FAILED\<rparr>) s"
  have "tidy ?s" using assms(1) by (auto intro: tidy_query_cong)
  then have "returns F (enter_failed C (netresolve_query_set_state n C) ?s) (at_rest W ?s)"
    by (rule enter_failed_rests) (use assms(3,4) setup_rests in auto)
  then have "returns F (enter_failed C (netresolve_query_set_state n C) ?s) (at_rest W s)"
    by (rule returns_mono) (auto elim!: at_rest_earlier)
  then show ?thesis using assms(2) by (simp add: enter_state_def)
qed

end

section \<open>Dispatching the query's own timeouts\<close>

text \<open>A query between two calls into the library.\<close>

definition settled :: "sys \<Rightarrow> bool" where
  "settled s \<longleftrightarrow> tidy s \<and> slots_match s \<and>
     state_of s \<in> {STATE_WAITING, STATE_WAITING_MORE, STATE_RESOLVED, STATE_DONE, STATE_FAILED} \<and>
     q_backend (s_query s) \<le> length (backend_list s) \<and>
     (state_of s \<in> {STATE_WAITING, STATE_WAITING_MORE, STATE_RESOLVED} \<longrightarrow>
        q_backend (s_query s) < length (backend_list s))"

lemma at_rest_length: "at_rest W s s' \<Longrightarrow> length (backend_list s') = length (backend_list s)"
  unfolding at_rest_def by (blast intro: statics_length)

lemma done_rest_length: "done_rest W s s' \<Longrightarrow> length (backend_list s') = length (backend_list s)"
  unfolding done_rest_def by (blast intro: statics_length)

lemma settled_at_rest: "at_rest W s s' \<Longrightarrow> settled s'"
  using at_rest_length [of W s s'] by (auto simp: at_rest_def settled_def split: if_splits)

lemma settled_done_rest: "done_rest W s s' \<Longrightarrow> settled s'"
  using done_rest_length [of W s s'] by (auto simp: done_rest_def settled_def split: if_splits)

lemma done_rest_progress:
  "q_backend (s_query s) < length (backend_list s) \<Longrightarrow> done_rest W s s' \<Longrightarrow>
     q_backend (s_query s) < q_backend (s_query s')"
  using next_mandatory_bounds [of s] by (auto simp: done_rest_def split: if_splits)

lemma done_rest_states:
  "done_rest False s s' \<Longrightarrow> state_of s' \<in> {STATE_RESOLVED, STATE_DONE, STATE_FAILED}"
  by (auto simp: done_rest_def split: if_splits)

lemma done_rest_statics: "done_rest W s s' \<Longrightarrow> statics W s' = statics W s"
  by (simp add: done_rest_def)

lemma at_rest_statics: "at_rest W s s' \<Longrightarrow> statics W s' = statics W s"
  by (simp add: at_rest_def)

lemma done_restD:
  assumes "q_backend (s_query s) < length (backend_list s)" and "done_rest W s s'"
  shows "settled s' \<and> statics W s' = statics W s \<and> q_backend (s_query s) < q_backend (s_query s') \<and>
    (\<not> W \<longrightarrow> state_of s' \<in> {STATE_RESOLVED, STATE_DONE, STATE_FAILED})"
  using settled_done_rest [OF assms(2)] done_rest_statics [OF assms(2)] done_rest_progress [OF assms]
    done_rest_states [of s s'] assms(2) by (cases W) auto

definition slot_target :: "timeout_slot \<Rightarrow> netresolve_state" where
  "slot_target sl = (case sl of Slot_delayed \<Rightarrow> STATE_DONE
     | Slot_request_timeout \<Rightarrow> STATE_FAILED | Slot_result_timeout \<Rightarrow> STATE_DONE)"

text \<open>The handlers' assertions hold for an armed timeout of a settled query.\<close>

lemma call_own_timeout:
  assumes "settled s" and "get_slot sl (s_query s) = Some w"
  shows "call_watch_callback C ss (timer_watch w fd (slot_callback sl) DATA_NULL) ev s =
    rbind (clear_timeout sl s) (ss (slot_target sl))"
  using assms
  by (cases sl)
    (simp_all add: settled_def slots_match_def call_watch_callback_def timer_watch_def slot_callback_def
      timeout_watch_callback_def dispatch_request_timeout_def dispatch_result_timeout_def
      dispatch_delayed_def dispatch_timeout_def slot_target_def)

context backend_code
begin

lemma dispatch_tail_settled:
  assumes s: "settled s" and n: "n \<ge> 2 * length (backend_list s)"
  shows "returns F (rbind (if state_of s = STATE_RESOLVED then netresolve_query_set_state (Suc n) C STATE_DONE s else Inr s)
     (\<lambda>s. if state_of s = STATE_ERROR then netresolve_query_set_state (Suc n) C STATE_FAILED s else Inr s))
     (\<lambda>s'. settled s' \<and> statics W s' = statics W s \<and> q_backend (s_query s) \<le> q_backend (s_query s') \<and>
        (\<not> W \<longrightarrow> state_of s \<in> {STATE_RESOLVED, STATE_DONE, STATE_FAILED} \<longrightarrow> state_of s' \<in> {STATE_RESOLVED, STATE_DONE, STATE_FAILED}))"
    (is "returns F _ ?ok")
proof (rule returns_bind [where P = "?ok"])
  show "returns F (if state_of s = STATE_RESOLVED then netresolve_query_set_state (Suc n) C STATE_DONE s else Inr s) ?ok"
  proof (cases "state_of s = STATE_RESOLVED")
    case True
    then have q: "q_backend (s_query s) < length (backend_list s)" using s by (simp add: settled_def)
    then have "returns F (netresolve_query_set_state (Suc n) C STATE_DONE s) (done_rest W s)"
      using True s n by (intro done_rests) (auto simp: settled_def)
    then have "returns F (netresolve_query_set_state (Suc n) C STATE_DONE s) ?ok"
      by (rule returns_mono) (auto dest!: done_restD [OF q])
    then show ?thesis using True by (simp only: if_True simp_thms)
  qed (use s in simp)
next
  fix t assume t: "?ok t"
  then have "settled t" by (rule conjunct1)
  then have ne: "state_of t \<noteq> STATE_ERROR" by (auto simp: settled_def)
  show "returns F (if state_of t = STATE_ERROR then netresolve_query_set_state (Suc n) C STATE_FAILED t else Inr t) ?ok"
    unfolding if_not_P [OF ne] returns_simps by (rule t)
qed

lemma dispatch_settled:
  assumes s: "settled s" and sl: "get_slot sl (s_query s) = Some w"
    and n: "n > 2 * length (backend_list s)"
  shows "returns F (netresolve_query_dispatch n C (timer_watch w fd (slot_callback sl) DATA_NULL) ev s)
    (\<lambda>s'. settled s' \<and> statics W s' = statics W s)"
proof -
  obtain m where m: "n = Suc m" "m \<ge> 2 * length (backend_list s)" using n by (cases n) auto
  have ts: "tidy s" using s by (simp add: settled_def)
  let ?ok = "\<lambda>s'. settled s' \<and> statics W s' = statics W s"
  have "returns F (rbind (clear_timeout sl s) (netresolve_query_set_state (Suc m) C (slot_target sl))) ?ok"
  proof (rule returns_bind [OF clear_timeout_returns [where W = W, OF ts]])
    fix t assume t: "tidy t \<and> skeleton W t = upd_query (set_slot sl None) (skeleton W s)"
    then have sk: "skeleton W t = upd_query (set_slot sl None) (skeleton W s)" by simp
    note tq = skeleton_slotD(1,2,6,7) [OF sk]
    have cur: "q_backend (s_query t) < length (backend_list t)" "state_of t \<notin> {STATE_DONE, STATE_FAILED}"
      using s sl tq by (cases sl; auto simp: settled_def slots_match_def)+
    have "returns F (netresolve_query_set_state (Suc m) C STATE_DONE t) (done_rest W t)"
      using t cur m tq by (intro done_rests) auto
    then have d: "returns F (netresolve_query_set_state (Suc m) C STATE_DONE t) ?ok"
      by (rule returns_mono) (auto simp: tq(3) dest: done_rest_statics settled_done_rest)
    have "returns F (netresolve_query_set_state (Suc m) C STATE_FAILED t) (at_rest W t)"
      using t cur m tq by (intro failed_rests_tidy) auto
    then have f: "returns F (netresolve_query_set_state (Suc m) C STATE_FAILED t) ?ok"
      by (rule returns_mono) (auto simp: tq(3) dest: at_rest_statics settled_at_rest)
    from d f show "returns F (netresolve_query_set_state (Suc m) C (slot_target sl) t) ?ok"
      by (cases sl) (simp_all only: slot_target_def timeout_slot.case)
  qed
  then show ?thesis
    unfolding netresolve_query_dispatch_def Let_def call_own_timeout [OF s sl] m(1)
  proof (rule returns_bind)
    fix t assume t: "settled t \<and> statics W t = statics W s"
    then have "m \<ge> 2 * length (backend_list t)" using m statics_length [of W t s] by simp
    with t show "returns F (rbind (if state_of t = STATE_RESOLVED then netresolve_query_set_state (Suc m) C STATE_DONE t else Inr t)
        (\<lambda>s. if state_of s = STATE_ERROR then netresolve_query_set_state (Suc m) C STATE_FAILED s else Inr s)) ?ok"
      using returns_mono [OF dispatch_tail_settled [of t m]] by auto
  qed
qed

text \<open>The delayed timeout takes a query at least to its next backend.\<close>

lemma delayed_dispatch:
  assumes s: "settled s" and sl: "q_delayed (s_query s) = Some w"
    and n: "n > 2 * length (backend_list s)"
  shows "returns F (netresolve_query_dispatch n C (timer_watch w fd TCB_delayed DATA_NULL) ev s)
    (\<lambda>s'. settled s' \<and> statics W s' = statics W s \<and> q_backend (s_query s) < q_backend (s_query s') \<and>
      (\<not> W \<longrightarrow> state_of s' \<in> {STATE_RESOLVED, STATE_DONE, STATE_FAILED}))"
proof -
  obtain m where m: "n = Suc m" "m \<ge> 2 * length (backend_list s)" using n by (cases n) auto
  have ts: "tidy s" and sl': "get_slot Slot_delayed (s_query s) = Some w"
    using s sl by (simp_all add: settled_def get_slot_def)
  let ?ok = "\<lambda>s'. settled s' \<and> statics W s' = statics W s \<and> q_backend (s_query s) < q_backend (s_query s') \<and>
      (\<not> W \<longrightarrow> state_of s' \<in> {STATE_RESOLVED, STATE_DONE, STATE_FAILED})"
  have "returns F (rbind (clear_timeout Slot_delayed s) (netresolve_query_set_state (Suc m) C STATE_DONE)) ?ok"
  proof (rule returns_bind [OF clear_timeout_returns [where W = W, OF ts]])
    fix t assume t: "tidy t \<and> skeleton W t = upd_query (set_slot Slot_delayed None) (skeleton W s)"
    then have sk: "skeleton W t = upd_query (set_slot Slot_delayed None) (skeleton W s)" by simp
    note tq = skeleton_slotD(1,2,6,7) [OF sk]
    have cur: "q_backend (s_query t) < length (backend_list t)" "state_of t \<noteq> STATE_DONE"
      using s sl' tq by (auto simp: settled_def slots_match_def)
    then have "returns F (netresolve_query_set_state (Suc m) C STATE_DONE t) (done_rest W t)"
      using t m tq by (intro done_rests) auto
    then show "returns F (netresolve_query_set_state (Suc m) C STATE_DONE t) ?ok"
      by (rule returns_mono) (use done_restD [OF cur(1), of W, unfolded tq(2,3)] in blast)+
  qed
  then have "returns F (call_watch_callback C (netresolve_query_set_state n C) (timer_watch w fd TCB_delayed DATA_NULL) ev s) ?ok"
    using call_own_timeout [OF s sl', of C "netresolve_query_set_state n C" fd ev] m(1)
    by (simp add: slot_callback_def slot_target_def)
  then show ?thesis
    unfolding netresolve_query_dispatch_def Let_def m(1)
  proof (rule returns_bind)
    fix t assume t: "?ok t"
    then have "m \<ge> 2 * length (backend_list t)" using m statics_length [of W t s] by simp
    with t show "returns F (rbind (if state_of t = STATE_RESOLVED then netresolve_query_set_state (Suc m) C STATE_DONE t else Inr t)
        (\<lambda>s. if state_of s = STATE_ERROR then netresolve_query_set_state (Suc m) C STATE_FAILED s else Inr s)) ?ok"
      using returns_mono [OF dispatch_tail_settled [of t m], of F ?ok] by auto
  qed
qed

end

section \<open>Runs of a query\<close>

text \<open>
  The entry points that move a query: starting it, and the event loop delivering one of the
  query's own timeouts.
\<close>

inductive query_step :: "code \<Rightarrow> nat \<Rightarrow> sys \<Rightarrow> sys \<Rightarrow> bool" for C n where
  start: "state_of s = STATE_NONE \<Longrightarrow> ready s \<Longrightarrow>
    netresolve_query_set_state n C STATE_SETUP s = Inr s' \<Longrightarrow> query_step C n s s'"
| timeout: "get_slot sl (s_query s) = Some w \<Longrightarrow>
    timer_watch w fd (slot_callback sl) DATA_NULL \<in> set (q_watches (s_query s)) \<Longrightarrow>
    netresolve_query_dispatch n C (timer_watch w fd (slot_callback sl) DATA_NULL) ev s = Inr s' \<Longrightarrow>
    query_step C n s s'"

inductive_cases query_stepE: "query_step C n s s'"

text \<open>Every armed timeout is a step that is possible.\<close>

lemma armed_watch:
  assumes "settled s" and "get_slot sl (s_query s) = Some w"
  obtains fd where "timer_watch w fd (slot_callback sl) DATA_NULL \<in> set (q_watches (s_query s))"
  using assms unfolding settled_def tidy_def slots_inv_def by blast

context backend_code
begin

lemma step_settled:
  assumes step: "query_step C n s s'" and s: "state_of s = STATE_NONE \<and> ready s \<or> settled s"
    and n: "n > 2 * length (backend_list s)"
  shows "settled s' \<and> statics W s' = statics W s"
  using step
proof (cases rule: query_step.cases)
  case start
  have "returns F (netresolve_query_set_state n C STATE_SETUP s) (at_rest W s)"
    using start n by (intro setup_rests) auto
  then show ?thesis using start(3) settled_at_rest by (auto simp: at_rest_def)
next
  case (timeout sl w fd ev)
  with s have "settled s" by (auto simp: ready_def)
  then have "returns F (netresolve_query_dispatch n C (timer_watch w fd (slot_callback sl) DATA_NULL) ev s)
      (\<lambda>s'. settled s' \<and> statics W s' = statics W s)"
    using dispatch_settled [OF _ timeout(1) n] by blast
  then show ?thesis using timeout(3) by simp
qed

lemma run_settled:
  assumes "(query_step C n)\<^sup>*\<^sup>* s0 s" and "state_of s0 = STATE_NONE" and "ready s0"
    and "n > 2 * length (backend_list s0)"
  shows "s = s0 \<or> settled s \<and> statics W s = statics W s0"
  using assms(1)
proof (induction rule: rtranclp_induct)
  case (step t u)
  have "length (backend_list t) = length (backend_list s0)"
    using step.IH statics_length [of W t s0] by auto
  then show ?case using step step_settled [of n t u] assms(2-4) by auto
qed simp

text \<open>
  Without mandatory backends an answered query is finished by its delayed timeout, and the
  callback is called exactly then.
\<close>

lemma delayed_completes:
  assumes s: "settled s" and sl: "q_delayed (s_query s) = Some w"
    and m: "next_mandatory s = length (backend_list s)" and n: "n > 2 * length (backend_list s)"
  shows "returns F (netresolve_query_dispatch n C (timer_watch w fd TCB_delayed DATA_NULL) ev s)
    (\<lambda>s'. state_of s' = STATE_DONE \<and> os_calls (s_os s') = os_calls (s_os s) @ calls_for (s_query s) STATE_DONE)"
proof -
  obtain k where k: "n = Suc k" "k \<ge> 2 * length (backend_list s)" using n by (cases n) auto
  have sl': "get_slot Slot_delayed (s_query s) = Some w" using sl by (simp add: get_slot_def)
  have ts: "tidy s" using s by (simp add: settled_def)
  let ?P = "\<lambda>s'. state_of s' = STATE_DONE \<and> os_calls (s_os s') = os_calls (s_os s) @ calls_for (s_query s) STATE_DONE"
  have "returns F (rbind (clear_timeout Slot_delayed s) (netresolve_query_set_state (Suc k) C STATE_DONE)) ?P"
  proof (rule returns_bind [OF clear_timeout_returns [OF ts]])
    fix t assume t: "tidy t \<and> skeleton W t = upd_query (set_slot Slot_delayed None) (skeleton W s)"
    then have sk: "skeleton W t = upd_query (set_slot Slot_delayed None) (skeleton W s)" by simp
    have tq: "state_of t = state_of s" "q_backend (s_query t) = q_backend (s_query s)"
      "length (backend_list t) = length (backend_list s)" "os_calls (s_os t) = os_calls (s_os s)"
      "q_callback (s_query t) = q_callback (s_query s)" "next_mandatory t = next_mandatory s"
      using skeleton_slotD [OF sk] arg_cong [OF sk, of next_mandatory] by simp_all
    have "q_backend (s_query t) < length (backend_list t)" "state_of t \<noteq> STATE_DONE"
      using s sl' tq by (auto simp: settled_def slots_match_def)
    then have "returns F (netresolve_query_set_state (Suc k) C STATE_DONE t) (done_rest W t)"
      using t k tq by (intro done_rests) auto
    then show "returns F (netresolve_query_set_state (Suc k) C STATE_DONE t) ?P"
      by (rule returns_mono) (use tq m in \<open>auto simp: done_rest_def calls_for_def\<close>)
  qed
  then have "returns F (call_watch_callback C (netresolve_query_set_state n C)
      (timer_watch w fd TCB_delayed DATA_NULL) ev s) ?P"
    using call_own_timeout [OF s sl', of C "netresolve_query_set_state n C" fd ev] k(1)
    by (simp add: slot_callback_def slot_target_def)
  then show ?thesis
    unfolding netresolve_query_dispatch_def Let_def by (rule returns_bind) simp
qed

end

end
