(* ===== verification/Backend.thy ===== *)
theory Backend
  imports Lifetime
begin

text \<open>
  The interface that the library offers to its backends, after \<open>lib/backend.c\<close>: reading the
  request, adding results (with the ordering of destination addresses and the expansion over
  services), private data, reporting, parsing of addresses and the conversion of the result
  structures of the C library. Debug output is not modelled.
\<close>

unbundle bit_operations_syntax

section \<open>Reading the request\<close>

definition netresolve_backend_get_nodename :: "sys \<Rightarrow> string option" where
  "netresolve_backend_get_nodename s =
     (if rq_dns_name (request_of s) \<noteq> None then rq_dns_name (request_of s) else rq_nodename (request_of s))"

definition netresolve_backend_get_servname :: "sys \<Rightarrow> string option" where
  "netresolve_backend_get_servname s = rq_servname (request_of s)"

definition netresolve_backend_get_family :: "sys \<Rightarrow> int" where
  "netresolve_backend_get_family s = rq_family (request_of s)"

definition netresolve_backend_get_socktype :: "sys \<Rightarrow> int" where
  "netresolve_backend_get_socktype s = rq_socktype (request_of s)"

definition netresolve_backend_get_protocol :: "sys \<Rightarrow> int" where
  "netresolve_backend_get_protocol s = rq_protocol (request_of s)"

definition netresolve_backend_get_default_loopback :: "sys \<Rightarrow> bool" where
  "netresolve_backend_get_default_loopback s = rq_default_loopback (request_of s)"

definition netresolve_backend_get_dns_srv_lookup :: "sys \<Rightarrow> bool" where
  "netresolve_backend_get_dns_srv_lookup s = rq_dns_srv_lookup (request_of s)"

definition netresolve_backend_get_dns_search :: "sys \<Rightarrow> bool" where
  "netresolve_backend_get_dns_search s = rq_dns_search (request_of s)"

definition netresolve_backend_get_address :: "sys \<Rightarrow> byte list" where
  "netresolve_backend_get_address s = rq_address (request_of s)"

text \<open>The return type \<open>uint16_t\<close> cuts the port to sixteen bits.\<close>

definition netresolve_backend_get_port :: "sys \<Rightarrow> int" where
  "netresolve_backend_get_port s = to_uint16 (rq_port (request_of s))"

definition netresolve_backend_get_dns_query :: "sys \<Rightarrow> string option \<times> int \<times> int" where
  "netresolve_backend_get_dns_query s =
     (rq_dns_name (request_of s), rq_dns_class (request_of s), rq_dns_type (request_of s))"

abbreviation AI_PASSIVE :: int where "AI_PASSIVE \<equiv> 1"

definition netresolve_backend_get_addrinfo_hints :: "sys \<Rightarrow> addrinfo" where
  "netresolve_backend_get_addrinfo_hints s =
     \<lparr>ai_flags = (if \<not> netresolve_backend_get_default_loopback s then AI_PASSIVE else 0),
      ai_family = netresolve_backend_get_family s,
      ai_socktype = netresolve_backend_get_socktype s,
      ai_protocol = netresolve_backend_get_protocol s,
      ai_addr = None\<rparr>"

section \<open>Adding a path\<close>

definition family_to_length :: "int \<Rightarrow> nat" where
  "family_to_length family = (if family = AF_INET then 4 else if family = AF_INET6 then 16 else 0)"

text \<open>
  A datagram socket is connected to find out whether there is a route; the socket needs a free
  descriptor and is closed again.
\<close>

definition check_reachability :: "env \<Rightarrow> os \<Rightarrow> netresolve_path \<Rightarrow> netresolve_path" where
  "check_reachability E o1 path =
     (if node_family path \<noteq> AF_INET \<and> node_family path \<noteq> AF_INET6 then path
      else (case alloc_fd o1 of
              None \<Rightarrow> path
            | Some _ \<Rightarrow>
                if udp_connect E (node_family path)
                     (mem_read (family_to_length (node_family path)) (node_address path))
                     (if node_family path = AF_INET6 then node_ifindex path else 0)
                then path\<lparr>node_reachable := True\<rparr> else path))"

definition path_cmp :: "env \<Rightarrow> netresolve_path \<Rightarrow> netresolve_path \<Rightarrow> int" where
  "path_cmp E p1 p2 =
     (if \<not> getenv_bool E ''NETRESOLVE_SORT_RESULTS'' True then 0
      else if node_reachable p1 \<and> \<not> node_reachable p2 then - 1
      else if \<not> node_reachable p1 \<and> node_reachable p2 then 1
      else if node_family p1 = AF_INET6 \<and> node_family p2 = AF_INET then - 1
      else if node_family p1 = AF_INET \<and> node_family p2 = AF_INET6 then 1
      else 0)"

definition insert_path :: "env \<Rightarrow> netresolve_path \<Rightarrow> netresolve_path list \<Rightarrow> netresolve_path list" where
  "insert_path E path paths =
     (let i = find_index (\<lambda>p. path_cmp E path p < 0) paths
      in take i paths @ path # drop i paths)"

definition add_path :: "env \<Rightarrow> set_state \<Rightarrow> netresolve_path \<Rightarrow> sys \<Rightarrow> sys res" where
  "add_path E ss orig_path s =
     (let path = check_reachability E (s_os s) orig_path;
          s1 = upd_response (\<lambda>r. r\<lparr>rs_paths := Some (insert_path E path (path_list r))\<rparr>) s
      in if state_of s1 = STATE_WAITING then ss STATE_WAITING_MORE s1 else Inr s1)"

definition path_callback :: "env \<Rightarrow> set_state \<Rightarrow> netresolve_path \<Rightarrow> sys service_callback" where
  "path_callback E ss data_path name socktype protocol port =
     add_path E ss (data_path\<lparr>service_socktype := socktype, service_protocol := protocol, service_port := port\<rparr>)"

definition set_services :: "netresolve_service_list option \<Rightarrow> sys \<Rightarrow> sys" where
  "set_services sl = upd_query (\<lambda>q. q\<lparr>q_services := sl\<rparr>)"

abbreviation ADDRESS_SIZE :: nat where "ADDRESS_SIZE \<equiv> 1024"

definition new_path ::
    "netresolve_request \<Rightarrow> int \<Rightarrow> byte list \<Rightarrow> int \<Rightarrow> int \<Rightarrow> int \<Rightarrow> int \<Rightarrow> int \<Rightarrow> int \<Rightarrow> int \<Rightarrow> netresolve_path" where
  "new_path rq family address ifindex socktype protocol port priority weight ttl =
     \<lparr>node_family = family,
      node_address = (if family_to_length family \<noteq> 0 then mem_read (family_to_length family) address
        else take (ADDRESS_SIZE - 1) (takeWhile (\<lambda>b. b \<noteq> 0) address)),
      node_ifindex = ifindex, node_reachable = False,
      service_socktype = (if socktype \<noteq> 0 then socktype else rq_socktype rq),
      service_protocol = (if protocol \<noteq> 0 then protocol else rq_protocol rq),
      service_port = port, path_priority = priority, path_weight = weight, path_ttl = ttl,
      socket_state = SOCKET_STATE_NONE, socket_watch = None, socket_fd = 0\<rparr>"

text \<open>The body behind the expansion of local sockets.\<close>

definition backend_add_typed_path ::
    "env \<Rightarrow> set_state \<Rightarrow> int \<Rightarrow> byte list \<Rightarrow> int \<Rightarrow> int \<Rightarrow> int \<Rightarrow> int \<Rightarrow> int \<Rightarrow> int \<Rightarrow> int \<Rightarrow> sys \<Rightarrow> sys res" where
  "backend_add_typed_path E ss family address ifindex socktype protocol port priority weight ttl s =
     (let rq = request_of s;
          path = new_path rq family address ifindex socktype protocol port priority weight ttl
      in if rq_family rq \<noteq> AF_UNSPEC \<and> rq_family rq \<noteq> family then Inr s
         else if rq_servname rq \<noteq> None \<and> (socktype = 0 \<or> protocol = 0 \<or> port = 0)
         then netresolve_service_list_query E set_services (rq_servname rq)
                (service_socktype path) (service_protocol path) 0 (path_callback E ss path) s
         else add_path E ss path s)"

definition netresolve_backend_add_path ::
    "env \<Rightarrow> set_state \<Rightarrow> int \<Rightarrow> byte list \<Rightarrow> int \<Rightarrow> int \<Rightarrow> int \<Rightarrow> int \<Rightarrow> int \<Rightarrow> int \<Rightarrow> int \<Rightarrow> sys \<Rightarrow> sys res" where
  "netresolve_backend_add_path E ss family address ifindex socktype protocol port priority weight ttl s =
     (if rq_family (request_of s) \<noteq> AF_UNSPEC \<and> rq_family (request_of s) \<noteq> family then Inr s
      else if family = AF_UNIX \<and> socktype = 0 then
        rbind (backend_add_typed_path E ss family address 0 SOCK_STREAM 0 0 priority weight ttl s)
          (backend_add_typed_path E ss family address 0 SOCK_DGRAM 0 0 priority weight ttl)
      else backend_add_typed_path E ss family address ifindex socktype protocol port priority weight ttl s)"

section \<open>Other results\<close>

definition netresolve_backend_set_canonical_name :: "string \<Rightarrow> sys \<Rightarrow> sys" where
  "netresolve_backend_set_canonical_name name = upd_response (\<lambda>r. r\<lparr>rs_nodename := Some name\<rparr>)"

definition service_callback :: "sys service_callback" where
  "service_callback name socktype protocol port s =
     (if rs_servname (response_of s) \<noteq> None then Inr s
      else Inr (upd_response (\<lambda>r. r\<lparr>rs_servname := name\<rparr>) s))"

text \<open>The service name given by the backend is only logged.\<close>

definition netresolve_backend_add_name_info ::
    "env \<Rightarrow> string option \<Rightarrow> string option \<Rightarrow> sys \<Rightarrow> sys res" where
  "netresolve_backend_add_name_info E nodename servname s =
     (if rs_nodename (response_of s) \<noteq> None then Inr s
      else (let s1 = upd_response (\<lambda>r. r\<lparr>rs_nodename := nodename\<rparr>) s
            in if rs_servname (response_of s1) = None
               then netresolve_service_list_query E set_services None 0
                      (netresolve_backend_get_protocol s1) (rq_port (request_of s1)) service_callback s1
               else Inr s1))"

definition netresolve_backend_set_secure :: "sys \<Rightarrow> sys" where
  "netresolve_backend_set_secure = upd_response (\<lambda>r. r\<lparr>rs_security := SECURITY_SECURE\<rparr>)"

definition netresolve_backend_set_dns_answer :: "byte list \<Rightarrow> sys \<Rightarrow> sys" where
  "netresolve_backend_set_dns_answer answer = upd_response (\<lambda>r. r\<lparr>rs_dns_answer := Some answer\<rparr>)"

section \<open>Private data and reporting\<close>

definition netresolve_backend_new_priv :: "priv \<Rightarrow> sys \<Rightarrow> sys res" where
  "netresolve_backend_new_priv p s =
     (case current_backend s of
        None \<Rightarrow> Inl Assertion_failed
      | Some b \<Rightarrow> rbind (assert_that (be_data b = None) s) (\<lambda>s.
          Inr (upd_backend (q_backend (s_query s)) (\<lambda>b. b\<lparr>be_cleanup := True, be_data := Some p\<rparr>) s)))"

definition netresolve_backend_get_priv :: "sys \<Rightarrow> priv option res" where
  "netresolve_backend_get_priv s =
     (case current_backend s of None \<Rightarrow> Inl Null_dereference | Some b \<Rightarrow> Inr (be_data b))"

definition netresolve_backend_finished :: "set_state \<Rightarrow> sys \<Rightarrow> sys res" where
  "netresolve_backend_finished ss = ss STATE_RESOLVED"

definition netresolve_backend_failed :: "set_state \<Rightarrow> sys \<Rightarrow> sys res" where
  "netresolve_backend_failed ss = ss STATE_ERROR"

section \<open>Parsing\<close>

text \<open>The interface after the first percent sign; without one it is the empty string.\<close>

definition parse_ifindex :: "env \<Rightarrow> string \<Rightarrow> int" where
  "parse_ifindex E ifname =
     (let idx = if_nametoindex E ifname
      in if idx \<noteq> 0 then idx
         else (case strtol ifname of (v, rest) \<Rightarrow> if rest \<noteq> [] then - 1 else to_int v))"

definition netresolve_backend_parse_address ::
    "env \<Rightarrow> string option \<Rightarrow> (byte list \<times> int \<times> int) option" where
  "netresolve_backend_parse_address E string_orig =
     (case string_orig of
        None \<Rightarrow> None
      | Some str \<Rightarrow>
          (let node = takeWhile (\<lambda>c. c \<noteq> CHR ''%'') str;
               ifname = tl (dropWhile (\<lambda>c. c \<noteq> CHR ''%'') str)
           in (case inet_pton E AF_INET node of
                 Some a \<Rightarrow> Some (a, AF_INET, parse_ifindex E ifname)
               | None \<Rightarrow>
                   (case inet_pton E AF_INET6 node of
                      Some a \<Rightarrow> Some (a, AF_INET6, parse_ifindex E ifname)
                    | None \<Rightarrow> None))))"

text \<open>
  The loop over the table returns in its first iteration, so that a table is never searched.
\<close>

definition enum_id_from_name :: "string option \<Rightarrow> (int \<times> string) list option \<Rightarrow> int" where
  "enum_id_from_name str table =
     (case str of
        None \<Rightarrow> 0
      | Some v \<Rightarrow> (case table of
            Some (item # _) \<Rightarrow> fst item
          | _ \<Rightarrow> to_int (fst (strtol v))))"

definition enum_socktypes :: "(int \<times> string) list" where
  "enum_socktypes = [(SOCK_STREAM, ''stream''), (SOCK_DGRAM, ''dgram''), (SOCK_SEQPACKET, ''seqpacket'')]"

definition enum_protocols :: "(int \<times> string) list" where
  "enum_protocols = [(IPPROTO_TCP, ''tcp''), (IPPROTO_UDP, ''udp''), (IPPROTO_SCTP, ''sctp'')]"

definition netresolve_backend_parse_path ::
    "env \<Rightarrow> string \<Rightarrow> (byte list \<times> int \<times> int \<times> int \<times> int \<times> int) option" where
  "netresolve_backend_parse_path E str =
     (case strtok '' '' str of (t0, p0) \<Rightarrow>
       (case netresolve_backend_parse_address E t0 of
          None \<Rightarrow> None
        | Some (address, family, ifindex) \<Rightarrow>
            (case strtok '' '' p0 of (t1, p1) \<Rightarrow>
            (case strtok '' '' p1 of (t2, p2) \<Rightarrow>
            (case strtok '' '' p2 of (t3, p3) \<Rightarrow>
               Some (address, family, ifindex, enum_id_from_name t1 (Some enum_socktypes),
                     enum_id_from_name t2 (Some enum_protocols), enum_id_from_name t3 None))))))"

section \<open>Result structures of the C library\<close>

text \<open>Byte order conversion on a little-endian machine.\<close>

definition htons :: "16 word \<Rightarrow> 16 word" where
  "htons w = push_bit 8 w OR drop_bit 8 w"

abbreviation ntohs :: "16 word \<Rightarrow> 16 word" where "ntohs \<equiv> htons"

abbreviation EAI_NONAME :: int where "EAI_NONAME \<equiv> - 2"
abbreviation EAI_NODATA :: int where "EAI_NODATA \<equiv> - 5"

definition IN6_IS_ADDR_LINKLOCAL :: "byte list \<Rightarrow> bool" where
  "IN6_IS_ADDR_LINKLOCAL a \<longleftrightarrow>
     mem_read 16 a ! 0 = 0xfe \<and> mem_read 16 a ! 1 AND 0xc0 = 0x80"

text \<open>Address, interface and port of an item; another family leaves all of them zero.\<close>

definition addrinfo_endpoint :: "addrinfo \<Rightarrow> (byte list \<times> int \<times> int) res" where
  "addrinfo_endpoint item =
     (if ai_family item = AF_INET then
        (case ai_addr item of
           Some (Sockaddr_in p a) \<Rightarrow> Inr (mem_read 4 a, 0, uint (ntohs p))
         | None \<Rightarrow> Inl Null_dereference
         | _ \<Rightarrow> Inl Out_of_bounds)
      else if ai_family item = AF_INET6 then
        (case ai_addr item of
           Some (Sockaddr_in6 p sc a) \<Rightarrow>
             Inr (mem_read 16 a, if IN6_IS_ADDR_LINKLOCAL a then sc else 0, uint (ntohs p))
         | None \<Rightarrow> Inl Null_dereference
         | _ \<Rightarrow> Inl Out_of_bounds)
      else Inr ([], 0, 0))"

definition netresolve_backend_apply_addrinfo ::
    "env \<Rightarrow> set_state \<Rightarrow> int \<Rightarrow> addrinfo list \<Rightarrow> int \<Rightarrow> sys \<Rightarrow> sys res" where
  "netresolve_backend_apply_addrinfo E ss status result ttl s =
     (if status = 0 then
        rbind (foreach (\<lambda>item s.
            rbind (addrinfo_endpoint item) (\<lambda>(address, ifindex, port).
              netresolve_backend_add_path E ss (ai_family item) address ifindex
                (ai_socktype item) (ai_protocol item) port 0 0 ttl s)) result s)
          (netresolve_backend_finished ss)
      else if status = EAI_NONAME \<or> status = EAI_NODATA then netresolve_backend_finished ss s
      else netresolve_backend_failed ss s)"

definition netresolve_backend_apply_addrtuple ::
    "env \<Rightarrow> set_state \<Rightarrow> nss_status \<Rightarrow> gaih_addrtuple list \<Rightarrow> int \<Rightarrow> sys \<Rightarrow> sys res" where
  "netresolve_backend_apply_addrtuple E ss status result ttl s =
     (if status = NSS_STATUS_SUCCESS then
        rbind (foreach (\<lambda>item.
            netresolve_backend_add_path E ss (at_family item) (at_addr item) (at_scopeid item) 0 0 0 0 0 ttl)
            result s)
          (netresolve_backend_finished ss)
      else netresolve_backend_failed ss s)"

definition netresolve_backend_apply_hostent ::
    "env \<Rightarrow> set_state \<Rightarrow> hostent \<Rightarrow> int \<Rightarrow> int \<Rightarrow> int \<Rightarrow> int \<Rightarrow> int \<Rightarrow> int \<Rightarrow> sys \<Rightarrow> sys res" where
  "netresolve_backend_apply_hostent E ss he socktype protocol port priority weight ttl s =
     rbind (foreach (\<lambda>addr.
         netresolve_backend_add_path E ss (h_addrtype he) addr 0 socktype protocol port priority weight ttl)
         (h_addr_list he) s) (\<lambda>s.
       Inr (case h_name he of None \<Rightarrow> s | Some n \<Rightarrow> netresolve_backend_set_canonical_name n s))"

section \<open>Backend operations keep the machine's contract\<close>

text \<open>
  Outside of the waiting state the operations that add results never call back into the state
  machine: the same result is obtained whatever stands for \<open>netresolve_query_set_state\<close>.
\<close>

definition same_skeleton :: "sys \<Rightarrow> sys \<Rightarrow> bool" where
  "same_skeleton s s' \<longleftrightarrow> skeleton False s' = skeleton False s \<and> (tidy s \<longrightarrow> tidy s')"

lemma same_skeleton_refl [simp]: "same_skeleton s s"
  by (simp add: same_skeleton_def)

lemma same_skeleton_trans: "same_skeleton s t \<Longrightarrow> same_skeleton t u \<Longrightarrow> same_skeleton s u"
  by (simp add: same_skeleton_def)

lemma same_skeleton_state: "same_skeleton s t \<Longrightarrow> state_of t = state_of s"
  unfolding same_skeleton_def by (blast dest: skeleton_eqD(1))

lemma returns_same_skeleton:
  "same_skeleton s t \<Longrightarrow> returns F r (same_skeleton t) \<Longrightarrow> returns F r (same_skeleton s)"
  by (cases r) (auto intro: same_skeleton_trans)

lemma quiet_alt: "quiet False F s r \<longleftrightarrow> returns F r (same_skeleton s)"
  by (simp add: quiet_def same_skeleton_def [abs_def])

lemma same_skeleton_response: "same_skeleton s t \<Longrightarrow> same_skeleton s (upd_response f t)"
  unfolding same_skeleton_def upd_response_def
  by (auto simp: skeleton_forget [unfolded upd_response_def] intro: tidy_query_cong)

lemma same_skeleton_services: "same_skeleton s t \<Longrightarrow> same_skeleton s (set_services sl t)"
proof -
  assume st: "same_skeleton s t"
  have "skeleton False (set_services sl t) = skeleton False t"
    by (simp add: skeleton_def core_unfold extra_watches_def armed_def set_services_def upd_query_def Let_def)
  moreover have "get_slot a (s_query t\<lparr>q_services := sl\<rparr>) = get_slot a (s_query t)" for a
    by (cases a) (simp_all add: get_slot_def)
  then have "tidy t \<Longrightarrow> tidy (set_services sl t)"
    unfolding set_services_def by (intro tidy_query_cong) auto
  ultimately show ?thesis using st by (simp add: same_skeleton_def)
qed

lemma quiet_bind:
  assumes "quiet False F s r" and "\<And>t. same_skeleton s t \<Longrightarrow> quiet False F t (f t)"
  shows "quiet False F s (rbind r f)"
  unfolding quiet_alt
  by (rule returns_bind [OF assms(1) [unfolded quiet_alt]])
    (use assms(2) returns_same_skeleton in \<open>auto simp: quiet_alt\<close>)

definition quiet_op :: "fault set \<Rightarrow> (set_state \<Rightarrow> sys \<Rightarrow> sys res) \<Rightarrow> bool" where
  "quiet_op F f \<longleftrightarrow> (\<forall>s. state_of s \<noteq> STATE_WAITING \<longrightarrow> (\<exists>r. quiet False F s r \<and> (\<forall>ss. f ss s = r)))"

lemma quiet_opI:
  "(\<And>s ss ss'. state_of s \<noteq> STATE_WAITING \<Longrightarrow> f ss s = f ss' s \<and> quiet False F s (f ss s)) \<Longrightarrow> quiet_op F f"
  unfolding quiet_op_def by metis

lemma quiet_opE:
  assumes "quiet_op F f" and "state_of s \<noteq> STATE_WAITING"
  obtains r where "quiet False F s r" "\<And>ss. f ss s = r"
  using assms unfolding quiet_op_def by blast

lemma quiet_op_pure: "(\<And>s. quiet False F s (f s)) \<Longrightarrow> quiet_op F (\<lambda>ss. f)"
  by (rule quiet_opI) simp

lemma quiet_op_Inr: "(\<And>s. same_skeleton s (f s)) \<Longrightarrow> quiet_op F (\<lambda>ss s. Inr (f s))"
  by (rule quiet_op_pure) (simp add: quiet_alt)

lemma quiet_op_bind:
  assumes f: "quiet_op F f" and g: "quiet_op F g"
  shows "quiet_op F (\<lambda>ss s. rbind (f ss s) (g ss))"
proof (rule quiet_opI)
  fix s :: sys and ss ss' :: set_state
  assume s: "state_of s \<noteq> STATE_WAITING"
  from f s obtain r where r: "quiet False F s r" "\<And>ss. f ss s = r" by (rule quiet_opE) blast
  have gt: "g ss t = g ss' t" "quiet False F t (g ss t)" if "same_skeleton s t" for t
    using g that s unfolding quiet_op_def by (metis same_skeleton_state)+
  have "rbind r (g ss) = rbind r (g ss')"
    by (cases r) (use r(1) gt in \<open>auto simp: quiet_alt\<close>)
  moreover have "quiet False F s (rbind r (g ss))"
    by (rule quiet_bind [OF r(1)]) (rule gt(2))
  ultimately show "rbind (f ss s) (g ss) = rbind (f ss' s) (g ss') \<and> quiet False F s (rbind (f ss s) (g ss))"
    using r(2) by simp
qed

lemma quiet_op_if:
  "quiet_op F f \<Longrightarrow> quiet_op F g \<Longrightarrow> quiet_op F (\<lambda>ss s. if b s then f ss s else g ss s)"
  unfolding quiet_op_def by (metis (full_types))

lemma quiet_op_foreach:
  assumes "\<And>x. quiet_op F (f x)"
  shows "quiet_op F (\<lambda>ss. foreach (\<lambda>x. f x ss) xs)"
proof (induction xs)
  case Nil
  have "quiet_op F (\<lambda>ss s. Inr s)" by (rule quiet_op_Inr) simp
  then show ?case by (simp add: quiet_op_def)
next
  case (Cons x xs)
  have "quiet_op F (\<lambda>ss s. rbind (f x ss s) (foreach (\<lambda>x. f x ss) xs))"
    using assms Cons.IH by (rule quiet_op_bind)
  then show ?case by (simp add: quiet_op_def)
qed

lemma quiet_op_add_path: "quiet_op F (\<lambda>ss. add_path E ss p)"
  by (rule quiet_opI) (simp add: add_path_def Let_def quiet_alt same_skeleton_response)

lemma quiet_op_path_callback: "quiet_op F (\<lambda>ss. path_callback E ss p n a b c)"
  using quiet_op_add_path by (simp add: path_callback_def)

text \<open>A service lookup whose callback is quiet is quiet.\<close>

lemma quiet_op_service_query:
  assumes cb: "\<And>n a b c. quiet_op F (\<lambda>ss. cb ss n a b c)" and F: "Null_dereference \<in> F"
  shows "quiet_op F (\<lambda>ss. netresolve_service_list_query E set_services name st pr po (cb ss))"
proof (rule quiet_opI)
  fix s :: sys and ss ss' :: set_state
  assume s: "state_of s \<noteq> STATE_WAITING"
  have step: "cb ss n a b c t = cb ss' n a b c t \<and> returns F (cb ss n a b c t) (same_skeleton s)"
    if t: "same_skeleton s t" for n a b c t ss ss'
  proof -
    have "state_of t \<noteq> STATE_WAITING" using s same_skeleton_state [OF t] by simp
    with cb obtain r where r: "quiet False F t r" "\<And>ss. cb ss n a b c t = r" by (rule quiet_opE) blast
    then show ?thesis using t by (auto simp: quiet_alt intro: returns_same_skeleton)
  qed
  have "netresolve_service_list_query E set_services name st pr po (cb ss) s =
      netresolve_service_list_query E set_services name st pr po (cb ss') s"
    by (rule service_query_cong [where P = "same_skeleton s"])
      (use step same_skeleton_services in \<open>blast intro: returns_UNIV same_skeleton_refl\<close>)+
  moreover have "returns F (netresolve_service_list_query E set_services name st pr po (cb ss) s) (same_skeleton s)"
    by (rule returns_service_query) (use step same_skeleton_services F in auto)
  ultimately show "netresolve_service_list_query E set_services name st pr po (cb ss) s =
      netresolve_service_list_query E set_services name st pr po (cb ss') s \<and>
      quiet False F s (netresolve_service_list_query E set_services name st pr po (cb ss) s)"
    by (simp add: quiet_alt)
qed

lemma if_agree:
  "a = a' \<and> Q a \<Longrightarrow> b = b' \<and> Q b \<Longrightarrow>
     (if c then a else b) = (if c then a' else b') \<and> Q (if c then a else b)"
  by auto

lemma quiet_op_add_typed_path:
  assumes "Null_dereference \<in> F"
  shows "quiet_op F (\<lambda>ss. backend_add_typed_path E ss fam addr idx st pr po prio wt ttl)"
proof (rule quiet_opI)
  fix s :: sys and ss ss' :: set_state
  assume s: "state_of s \<noteq> STATE_WAITING"
  let ?p = "new_path (request_of s) fam addr idx st pr po prio wt ttl"
  let ?q = "\<lambda>ss. netresolve_service_list_query E set_services (rq_servname (request_of s))
      (service_socktype ?p) (service_protocol ?p) 0 (path_callback E ss ?p) s"
  have "quiet_op F (\<lambda>ss. netresolve_service_list_query E set_services (rq_servname (request_of s))
      (service_socktype ?p) (service_protocol ?p) 0 (path_callback E ss ?p))"
    by (rule quiet_op_service_query) (use assms quiet_op_path_callback in auto)
  from this s have q: "?q ss = ?q ss' \<and> quiet False F s (?q ss)" by (rule quiet_opE) simp
  moreover have "add_path E ss ?p s = add_path E ss' ?p s \<and> quiet False F s (add_path E ss ?p s)"
    using quiet_op_add_path [of F E ?p] s by (rule quiet_opE) simp
  moreover have "quiet False F s (Inr s)" by (simp add: quiet_alt)
  ultimately show "backend_add_typed_path E ss fam addr idx st pr po prio wt ttl s =
      backend_add_typed_path E ss' fam addr idx st pr po prio wt ttl s \<and>
      quiet False F s (backend_add_typed_path E ss fam addr idx st pr po prio wt ttl s)"
    unfolding backend_add_typed_path_def Let_def by (intro if_agree) (assumption | blast)+
qed

lemma quiet_op_backend_add_path:
  assumes "Null_dereference \<in> F"
  shows "quiet_op F (\<lambda>ss. netresolve_backend_add_path E ss fam addr idx st pr po prio wt ttl)"
  unfolding netresolve_backend_add_path_def
  by (intro quiet_op_if quiet_op_bind quiet_op_add_typed_path quiet_op_Inr assms) simp

lemma quiet_add_name_info:
  assumes "Null_dereference \<in> F"
  shows "quiet False F s (netresolve_backend_add_name_info E n sv s)"
proof -
  let ?s = "upd_response (\<lambda>r. r\<lparr>rs_nodename := n\<rparr>) s"
  have "returns F (netresolve_service_list_query E set_services None 0
      (netresolve_backend_get_protocol ?s) (rq_port (request_of ?s)) service_callback ?s) (same_skeleton s)"
    by (rule returns_service_query)
      (auto simp: service_callback_def assms intro: same_skeleton_response same_skeleton_services)
  then show ?thesis
    by (simp add: netresolve_backend_add_name_info_def Let_def quiet_alt same_skeleton_response)
qed

lemma same_skeleton_set_secure [simp]: "same_skeleton s (netresolve_backend_set_secure s)"
  by (simp add: netresolve_backend_set_secure_def same_skeleton_response)

lemma same_skeleton_set_canonical_name [simp]: "same_skeleton s (netresolve_backend_set_canonical_name n s)"
  by (simp add: netresolve_backend_set_canonical_name_def same_skeleton_response)

text \<open>Reports at the end of quiet work.\<close>

lemma prompt_finished: "prompt F netresolve_backend_finished s"
  unfolding prompt_def netresolve_backend_finished_def
  by (intro exI [of _ "Inr s"] conjI) (simp_all add: quiet_alt)

lemma prompt_failed: "prompt F netresolve_backend_failed s"
  unfolding prompt_def netresolve_backend_failed_def
  by (intro exI [of _ "Inr s"] conjI) (simp_all add: quiet_alt)

lemma prompt_bind:
  assumes g: "quiet_op F g" and s: "state_of s = STATE_SETUP"
    and f: "\<And>t. state_of t = STATE_SETUP \<Longrightarrow> prompt F f t"
  shows "prompt F (\<lambda>ss s. rbind (g ss s) (f ss)) s"
proof -
  from g have "\<exists>r. quiet False F s r \<and> (\<forall>ss. g ss s = r)" using s by (simp add: quiet_op_def)
  then obtain r where r: "quiet False F s r" "\<And>ss. g ss s = r" by blast
  show ?thesis
  proof (cases r)
    case (Inl e)
    then show ?thesis using r by (intro prompt_fault [of _ s e]) (simp_all add: quiet_alt)
  next
    case (Inr t)
    with r have t: "same_skeleton s t" by (simp add: quiet_alt)
    then have "prompt F f t" using f s same_skeleton_state by simp
    then obtain r' where r': "quiet False F t r'"
      "\<exists>st \<in> {STATE_RESOLVED, STATE_ERROR}. \<forall>ss. f ss t = rbind r' (ss st)"
      unfolding prompt_def by blast
    have "quiet False F s r'" using r'(1) t by (auto simp: quiet_alt intro: returns_same_skeleton)
    then show ?thesis unfolding prompt_def using r'(2) Inr r(2) by (intro exI [of _ r']) auto
  qed
qed

lemma prompt_if:
  "(b s \<Longrightarrow> prompt F f s) \<Longrightarrow> (\<not> b s \<Longrightarrow> prompt F g s) \<Longrightarrow>
     prompt F (\<lambda>ss s. if b s then f ss s else g ss s) s"
  by (cases "b s") (simp_all add: prompt_def)

end
