(* ===== verification/Backends_Local.thy ===== *)
theory Backends_Local
  imports Backend
begin

text \<open>
  The backends that answer at once from local knowledge: \<open>backends/unix.c\<close>,
  \<open>backends/any.c\<close>, \<open>backends/loopback.c\<close>, \<open>backends/numerichost.c\<close> and
  \<open>backends/hostname.c\<close>. A setup function gets \<open>netresolve_query_set_state\<close> as
  \<open>ss\<close>; they take no settings.
\<close>

section \<open>Well-known addresses\<close>

definition inaddr_any :: "byte list" where
  "inaddr_any = [0, 0, 0, 0]"

definition inaddr_loopback :: "byte list" where
  "inaddr_loopback = [127, 0, 0, 1]"

definition in6addr_any :: "byte list" where
  "in6addr_any = replicate 16 0"

definition in6addr_loopback :: "byte list" where
  "in6addr_loopback = replicate 15 0 @ [1]"

definition is_any :: "int \<Rightarrow> byte list \<Rightarrow> bool" where
  "is_any family address =
     (if family = AF_INET then mem_read 4 address = inaddr_any
      else if family = AF_INET6 then mem_read 16 address = in6addr_any
      else False)"

definition is_loopback :: "int \<Rightarrow> byte list \<Rightarrow> bool" where
  "is_loopback family address =
     (if family = AF_INET then mem_read 4 address = inaddr_loopback
      else if family = AF_INET6 then mem_read 16 address = in6addr_loopback
      else False)"

section \<open>unix\<close>

definition unix_query_forward :: "env \<Rightarrow> set_state \<Rightarrow> sys \<Rightarrow> sys res" where
  "unix_query_forward E ss s =
     (case netresolve_backend_get_nodename s of
        Some (CHR ''/'' # rest) \<Rightarrow>
          if netresolve_backend_get_family s \<noteq> AF_UNIX then netresolve_backend_failed ss s
          else rbind (netresolve_backend_add_path E ss AF_UNIX (bytes_of_string (CHR ''/'' # rest)) 0
                 (netresolve_backend_get_socktype s) 0 0 0 0 0 s) (\<lambda>s.
               netresolve_backend_finished ss (netresolve_backend_set_secure s))
      | _ \<Rightarrow> netresolve_backend_failed ss s)"

section \<open>any\<close>

definition any_query_forward :: "env \<Rightarrow> set_state \<Rightarrow> sys \<Rightarrow> sys res" where
  "any_query_forward E ss s =
     (let node = netresolve_backend_get_nodename s
      in if netresolve_backend_get_default_loopback s then netresolve_backend_failed ss s
         else if node \<noteq> None \<and> node \<noteq> Some [] then netresolve_backend_failed ss s
         else rbind (netresolve_backend_add_path E ss AF_INET inaddr_any 0 0 0 0 0 0 0 s) (\<lambda>s.
              rbind (netresolve_backend_add_path E ss AF_INET6 in6addr_any 0 0 0 0 0 0 0 s) (\<lambda>s.
              netresolve_backend_finished ss (netresolve_backend_set_secure s))))"

definition any_query_reverse :: "env \<Rightarrow> set_state \<Rightarrow> sys \<Rightarrow> sys res" where
  "any_query_reverse E ss s =
     (if netresolve_backend_get_default_loopback s then netresolve_backend_failed ss s
      else if \<not> is_any (netresolve_backend_get_family s) (netresolve_backend_get_address s)
      then netresolve_backend_failed ss s
      else rbind (netresolve_backend_add_name_info E (Some []) None s) (\<lambda>s.
           netresolve_backend_finished ss (netresolve_backend_set_secure s)))"

section \<open>loopback\<close>

definition loopback_query_forward :: "env \<Rightarrow> set_state \<Rightarrow> sys \<Rightarrow> sys res" where
  "loopback_query_forward E ss s =
     (let node = netresolve_backend_get_nodename s;
          ipv4 = node \<in> {None, Some [], Some ''localhost'', Some ''localhost4''};
          ipv6 = node \<in> {None, Some [], Some ''localhost'', Some ''localhost6''}
      in if \<not> ipv4 \<and> \<not> ipv6 then netresolve_backend_failed ss s
         else rbind (if ipv4 then netresolve_backend_add_path E ss AF_INET inaddr_loopback 0 0 0 0 0 0 0
                       (netresolve_backend_set_canonical_name ''localhost'' s)
                     else Inr (netresolve_backend_set_canonical_name ''localhost'' s)) (\<lambda>s.
              rbind (if ipv6 then netresolve_backend_add_path E ss AF_INET6 in6addr_loopback 0 0 0 0 0 0 0 s
                     else Inr s) (\<lambda>s.
              netresolve_backend_finished ss (netresolve_backend_set_secure s))))"

definition loopback_query_reverse :: "env \<Rightarrow> set_state \<Rightarrow> sys \<Rightarrow> sys res" where
  "loopback_query_reverse E ss s =
     (let family = netresolve_backend_get_family s; address = netresolve_backend_get_address s
      in if \<not> is_any family address \<and> \<not> is_loopback family address
         then netresolve_backend_failed ss s
         else rbind (netresolve_backend_add_name_info E (Some ''localhost'') None s) (\<lambda>s.
              netresolve_backend_finished ss (netresolve_backend_set_secure s)))"

section \<open>numerichost\<close>

definition numerichost_query_forward :: "env \<Rightarrow> set_state \<Rightarrow> sys \<Rightarrow> sys res" where
  "numerichost_query_forward E ss s =
     (let node = netresolve_backend_get_nodename s
      in (case netresolve_backend_parse_address E node of
            None \<Rightarrow> netresolve_backend_failed ss s
          | Some (address, family, ifindex) \<Rightarrow>
              if ifindex \<ge> 0
              then rbind (netresolve_backend_add_path E ss family address ifindex 0 0 0 0 0 0 s) (\<lambda>s.
                   netresolve_backend_finished ss (netresolve_backend_set_secure
                     (case node of None \<Rightarrow> s | Some n \<Rightarrow> netresolve_backend_set_canonical_name n s)))
              else netresolve_backend_failed ss s))"

section \<open>hostname\<close>

text \<open>
  The comparison with the IPv6 loopback address covers only the four bytes of an IPv4 address.
\<close>

definition hostname_wanted :: "bool \<Rightarrow> ifaddr \<Rightarrow> bool" where
  "hostname_wanted filt item =
     (case ifa_family item of
        None \<Rightarrow> False
      | Some f \<Rightarrow>
          if f = AF_INET then \<not> (filt \<and> mem_read 4 (ifa_address item) = inaddr_loopback)
          else if f = AF_INET6 then \<not> (filt \<and> mem_read 4 (ifa_address item) = take 4 in6addr_loopback)
          else False)"

definition hostname_add_addresses ::
    "env \<Rightarrow> set_state \<Rightarrow> ifaddr list \<Rightarrow> bool \<Rightarrow> sys \<Rightarrow> (bool \<times> sys) res" where
  "hostname_add_addresses E ss items filt s =
     (let wanted = filter (hostname_wanted filt) items
      in rbind (foreach (\<lambda>item.
           (case ifa_family item of
              None \<Rightarrow> Inr
            | Some f \<Rightarrow> netresolve_backend_add_path E ss f (ifa_address item)
                (if f = AF_INET6 then ifa_scope_id item else 0) 0 0 0 0 0 0)) wanted s)
           (\<lambda>s. Inr (wanted \<noteq> [], s)))"

definition hostname_query_forward :: "env \<Rightarrow> set_state \<Rightarrow> sys \<Rightarrow> sys res" where
  "hostname_query_forward E ss s =
     (case netresolve_backend_get_nodename s of
        None \<Rightarrow> netresolve_backend_failed ss s
      | Some nodename \<Rightarrow>
          if nodename \<noteq> uname_nodename E then netresolve_backend_failed ss s
          else (case getifaddrs E of
                  None \<Rightarrow> netresolve_backend_failed ss s
                | Some items \<Rightarrow>
                    rbind (hostname_add_addresses E ss items True s) (\<lambda>(added, s).
                    rbind (if added then Inr s
                           else rbind (hostname_add_addresses E ss items False s) (\<lambda>(_, s). Inr s)) (\<lambda>s.
                    netresolve_backend_finished ss (netresolve_backend_set_canonical_name nodename s)))))"

end
