(* ===== verification/Hosts.thy ===== *)
theory Hosts
  imports Backends_Local
begin

text \<open>
  The backend that reads the hosts file, \<open>backends/hosts.c\<close>. The file is read through a
  buffer of fixed size whose contents survive between the steps of the loop: \<open>strtok\<close> writes
  into it and what is behind the valid part is left over from earlier. The model therefore keeps
  the whole buffer as memory; its contents before the first read are the parameter \<open>junk\<close>.
\<close>

section \<open>The list of hosts\<close>

record hosts_item =
  hi_name :: "string option"
  hi_family :: int
  hi_address :: "byte list"
  hi_ifindex :: int

record hosts_list =
  hl_items :: "hosts_item list"
  hl_count :: nat
  hl_reserved :: nat

definition empty_hosts :: hosts_list where
  "empty_hosts = \<lparr>hl_items = [], hl_count = 0, hl_reserved = 0\<rparr>"

definition add_node :: "hosts_list \<Rightarrow> string option \<Rightarrow> int \<Rightarrow> byte list \<Rightarrow> int \<Rightarrow> hosts_list" where
  "add_node hl name family address ifindex =
     (let reserved = (if hl_count hl = hl_reserved hl
                      then (if hl_reserved hl = 0 then 256 else hl_reserved hl * 2)
                      else hl_reserved hl)
      in \<lparr>hl_items = hl_items hl @ [\<lparr>hi_name = name, hi_family = family,
            hi_address = mem_read (family_to_length family) address, hi_ifindex = ifindex\<rparr>],
          hl_count = hl_count hl + 1, hl_reserved = reserved\<rparr>)"

section \<open>Tokens in memory\<close>

text \<open>
  One call of \<open>strtok\<close> at a position of the memory: the token, the memory with the
  delimiter behind the token overwritten, and the saved position. Running off the end of the
  memory without meeting a NUL is an access outside of the buffer.
\<close>

definition strtok_mem :: "string \<Rightarrow> string \<Rightarrow> nat \<Rightarrow> (string option \<times> string \<times> nat) res" where
  "strtok_mem delims mem pos =
     (let b = pos + length (takeWhile (\<lambda>c. c \<in> set delims) (drop pos mem));
          tok = takeWhile (\<lambda>c. c \<notin> set delims \<and> c \<noteq> NUL) (drop b mem);
          e = b + length tok
      in if b \<ge> length mem then Inl Out_of_bounds
         else if mem ! b = NUL then Inr (None, mem, b)
         else if e \<ge> length mem then Inl Out_of_bounds
         else if mem ! e = NUL then Inr (Some tok, mem, e)
         else Inr (Some tok, mem[e := NUL], e + 1))"

lemma strtok_mem_progress:
  assumes "strtok_mem delims mem pos = Inr (Some tok, mem', pos')" and "NUL \<notin> set delims"
  shows "pos < pos' \<and> pos' \<le> length mem \<and> length mem' = length mem \<and> pos < length mem"
proof -
  let ?b = "pos + length (takeWhile (\<lambda>c. c \<in> set delims) (drop pos mem))"
  let ?P = "\<lambda>c. c \<notin> set delims \<and> c \<noteq> NUL"
  from assms(1) have b: "?b < length mem" "mem ! ?b \<noteq> NUL"
    and e: "?b + length (takeWhile ?P (drop ?b mem)) < length mem"
    and r: "mem' = mem \<or> (\<exists>i. mem' = mem[i := NUL])"
      "pos' \<in> {?b + length (takeWhile ?P (drop ?b mem)), Suc (?b + length (takeWhile ?P (drop ?b mem)))}"
    by (auto simp: strtok_mem_def Let_def split: if_splits)
  have d: "drop ?b mem = mem ! ?b # drop (Suc ?b) mem" using b by (simp add: Cons_nth_drop_Suc)
  have "mem ! ?b \<notin> set delims"
  proof -
    have "?b - pos < length (drop pos mem)" using b by simp
    then have "\<not> drop pos mem ! (?b - pos) \<in> set delims"
      using nth_length_takeWhile [of "\<lambda>c. c \<in> set delims" "drop pos mem"] by simp
    then show ?thesis using b by simp
  qed
  then have "length (takeWhile ?P (drop ?b mem)) > 0" using b d by (subst d) simp
  then show ?thesis using r e b by auto
qed

abbreviation blanks :: string where "blanks \<equiv> [CHR '' '', TAB]"

lemma NUL_not_blank [simp]: "NUL \<notin> set blanks"
  by simp

section \<open>Reading the file\<close>

function read_names ::
    "byte list \<Rightarrow> int \<Rightarrow> int \<Rightarrow> hosts_list \<Rightarrow> string \<Rightarrow> nat \<Rightarrow> (hosts_list \<times> string) res" where
  "read_names address family ifindex hl mem pos =
     (case strtok_mem blanks mem pos of
        Inl e \<Rightarrow> Inl e
      | Inr (tok, mem', pos') \<Rightarrow>
          (case tok of
             None \<Rightarrow> Inr (hl, mem')
           | Some name \<Rightarrow> read_names address family ifindex (add_node hl (Some name) family address ifindex) mem' pos'))"
  by pat_completeness auto
termination
  by (relation "measure (\<lambda>(a, f, i, hl, mem, pos). length mem - pos)")
    (auto dest: strtok_mem_progress [OF _ NUL_not_blank])

declare read_names.simps [simp del]

definition read_item :: "env \<Rightarrow> hosts_list \<Rightarrow> string \<Rightarrow> (hosts_list \<times> string) res" where
  "read_item E hl mem =
     rbind (strtok_mem blanks mem 0) (\<lambda>(tok, mem, pos).
       (case netresolve_backend_parse_address E tok of
          None \<Rightarrow> Inr (hl, mem)
        | Some (address, family, ifindex) \<Rightarrow> read_names address family ifindex hl mem pos))"

lemma read_names_length:
  "read_names a f i hl mem pos = Inr (hl', mem') \<Longrightarrow> length mem' = length mem"
proof (induction a f i hl mem pos rule: read_names.induct)
  case (1 a f i hl mem pos)
  have none: "strtok_mem blanks mem pos = Inr (None, m, p) \<Longrightarrow> m = mem" for m p
    by (auto simp: strtok_mem_def Let_def split: if_splits)
  show ?case
  proof (cases "strtok_mem blanks mem pos")
    case (Inl e)
    then show ?thesis using 1(2) by (simp add: read_names.simps [of a f i hl mem pos])
  next
    case (Inr r)
    obtain tok m p where r: "r = (tok, m, p)" by (cases r)
    show ?thesis
    proof (cases tok)
      case None
      then show ?thesis using 1(2) Inr r none by (simp add: read_names.simps [of a f i hl mem pos])
    next
      case (Some n)
      have "length m = length mem"
        using Inr r Some strtok_mem_progress [OF _ NUL_not_blank] by blast
      moreover have "read_names a f i (add_node hl (Some n) f a i) m p = Inr (hl', mem')"
        using 1(2) Inr r Some by (simp add: read_names.simps [of a f i hl mem pos])
      ultimately show ?thesis using 1(1) Inr r Some by simp
    qed
  qed
qed

lemma read_item_length: "read_item E hl mem = Inr (hl', mem') \<Longrightarrow> length mem' = length mem"
proof -
  assume a: "read_item E hl mem = Inr (hl', mem')"
  then obtain tok m p where t: "strtok_mem blanks mem 0 = Inr (tok, m, p)"
    by (auto simp: read_item_def)
  then have "length m = length mem"
    by (auto simp: strtok_mem_def Let_def split: if_splits)
  with a t show ?thesis
    by (auto simp: read_item_def split: option.splits dest!: read_names_length)
qed

text \<open>
  The scan for line ends. The part before \<open>cur\<close> is valid; at a newline the line is parsed and
  the rest of the valid part is moved to the front.
\<close>

definition memmove_front :: "string \<Rightarrow> nat \<Rightarrow> nat \<Rightarrow> string" where
  "memmove_front mem from cur = take (cur - from) (drop from mem) @ drop (cur - from) mem"

function scan_hosts ::
    "env \<Rightarrow> hosts_list \<Rightarrow> string \<Rightarrow> nat \<Rightarrow> nat \<Rightarrow> (hosts_list \<times> string \<times> nat) res" where
  "scan_hosts E hl mem cur new =
     (if new < cur then
        (let mem1 = (if mem ! new = CHR ''#'' then mem[new := NUL] else mem)
         in if mem1 ! new = NL
            then (case read_item E hl (mem1[new := NUL]) of
                    Inl e \<Rightarrow> Inl e
                  | Inr (hl', mem2) \<Rightarrow>
                      scan_hosts E hl' (memmove_front mem2 (new + 1) cur) (cur - (new + 1)) 0)
            else scan_hosts E hl mem1 cur (new + 1))
      else Inr (hl, mem, cur))"
  by pat_completeness auto
termination
  by (relation "measures [\<lambda>(E, hl, mem, cur, new). cur, \<lambda>(E, hl, mem, cur, new). cur - new]") auto

declare scan_hosts.simps [simp del]

abbreviation BUFFER_SIZE :: nat where "BUFFER_SIZE \<equiv> 1024"

definition finish_hosts :: "hosts_list \<Rightarrow> hosts_list" where
  "finish_hosts hl = (let hl1 = add_node hl None 0 [] 0 in hl1\<lparr>hl_reserved := hl_count hl1\<rparr>)"

text \<open>
  The loop over the reads; what is left of the valid part is parsed after every read, as it
  stands in the buffer.
\<close>

function read_list_loop ::
    "env \<Rightarrow> hosts_list \<Rightarrow> string \<Rightarrow> nat \<Rightarrow> string list \<Rightarrow> hosts_list res" where
  "read_list_loop E hl mem cur [] = Inr (finish_hosts hl)"
| "read_list_loop E hl mem cur (c # cs) =
     (if cur \<ge> BUFFER_SIZE \<or> c = [] then Inr (finish_hosts hl)
      else (let data = take (BUFFER_SIZE - cur) c; rest = drop (BUFFER_SIZE - cur) c;
                mem1 = take cur mem @ data @ drop (cur + length data) mem
            in rbind (scan_hosts E hl mem1 (cur + length data) 0) (\<lambda>(hl1, mem2, cur2).
               rbind (read_item E hl1 mem2) (\<lambda>(hl2, mem3).
                 read_list_loop E hl2 mem3 cur2 (if rest = [] then cs else rest # cs)))))"
  by pat_completeness auto
termination
  by (relation "measure (\<lambda>(E, hl, mem, cur, cs). length (concat cs) + length cs)")
    (auto simp: Let_def)

definition get_hosts_file :: "env \<Rightarrow> string" where
  "get_hosts_file E = (case getenv E ''NETRESOLVE_SYSCONFDIR'' of None \<Rightarrow> ''/etc'' | Some d \<Rightarrow> d) @ ''/hosts''"

definition read_list :: "env \<Rightarrow> string \<Rightarrow> hosts_list \<Rightarrow> hosts_list res" where
  "read_list E junk hl =
     (case open_read E (get_hosts_file E) of
        None \<Rightarrow> Inr (finish_hosts hl)
      | Some chunks \<Rightarrow> read_list_loop E hl junk 0 chunks)"

section \<open>The two queries\<close>

definition named_items :: "hosts_list \<Rightarrow> hosts_item list" where
  "named_items hl = takeWhile (\<lambda>i. hi_name i \<noteq> None) (hl_items hl)"

definition hosts_query_forward :: "env \<Rightarrow> string \<Rightarrow> set_state \<Rightarrow> sys \<Rightarrow> sys res" where
  "hosts_query_forward E junk ss s =
     (case netresolve_backend_get_nodename s of
        None \<Rightarrow> netresolve_backend_failed ss s
      | Some node \<Rightarrow>
          rbind (read_list E junk empty_hosts) (\<lambda>hl.
            (let found = filter (\<lambda>i. hi_name i = Some node) (named_items hl)
             in rbind (foreach (\<lambda>i. netresolve_backend_add_path E ss (hi_family i) (hi_address i)
                    (hi_ifindex i) 0 0 0 0 0 0) found s) (\<lambda>s.
                if found \<noteq> [] then netresolve_backend_finished ss (netresolve_backend_set_secure s)
                else netresolve_backend_failed ss s))))"

definition hosts_query_reverse :: "env \<Rightarrow> string \<Rightarrow> set_state \<Rightarrow> sys \<Rightarrow> sys res" where
  "hosts_query_reverse E junk ss s =
     (let family = netresolve_backend_get_family s; address = netresolve_backend_get_address s;
          n = family_to_length family
      in rbind (read_list E junk empty_hosts) (\<lambda>hl.
           (let found = filter (\<lambda>i. hi_family i = family \<and> mem_read n address = mem_read n (hi_address i))
                          (named_items hl)
            in rbind (foreach (\<lambda>i. netresolve_backend_add_name_info E (hi_name i) None) found s) (\<lambda>s.
               if found \<noteq> [] then netresolve_backend_finished ss (netresolve_backend_set_secure s)
               else netresolve_backend_failed ss s))))"

end
