(* ===== verification/Backends_Library.thy ===== *)
theory Backends_Library
  imports Backends_Local
begin

text \<open>
  The backends that ask the resolver functions of the C library, \<open>backends/libc.c\<close>, and the
  modules of the name service switch, \<open>backends/nss.c\<close>. They answer at once; what the called
  functions answer is a parameter.
\<close>

section \<open>libc\<close>

definition libc_query_forward :: "env \<Rightarrow> set_state \<Rightarrow> sys \<Rightarrow> sys res" where
  "libc_query_forward E ss s =
     (case libc_getaddrinfo E (netresolve_backend_get_nodename s) (netresolve_backend_get_servname s)
         (netresolve_backend_get_addrinfo_hints s) of (status, result) \<Rightarrow>
       if status \<noteq> 0 then netresolve_backend_failed ss s
       else netresolve_backend_apply_addrinfo E ss status result 0 s)"

text \<open>
  The port goes into the socket address as it is, not in network order, and both families pass
  the size of an IPv4 socket address.
\<close>

definition libc_sockaddr :: "sys \<Rightarrow> sockaddr option" where
  "libc_sockaddr s =
     (let family = netresolve_backend_get_family s;
          address = netresolve_backend_get_address s;
          port = word_of_int (netresolve_backend_get_port s)
      in if family = AF_INET then Some (Sockaddr_in port (mem_read 4 address))
         else if family = AF_INET6 then Some (Sockaddr_in6 port 0 (mem_read 16 address))
         else None)"

definition libc_query_reverse :: "env \<Rightarrow> set_state \<Rightarrow> sys \<Rightarrow> sys res" where
  "libc_query_reverse E ss s =
     (case libc_sockaddr s of
        None \<Rightarrow> netresolve_backend_failed ss s
      | Some sa \<Rightarrow>
          (case libc_getnameinfo E sa 16 of
             None \<Rightarrow> netresolve_backend_failed ss s
           | Some (nodename, servname) \<Rightarrow>
               rbind (netresolve_backend_add_name_info E (Some nodename) (Some servname) s)
                 (netresolve_backend_finished ss)))"

text \<open>An answer that was longer than the buffer is reported with its full length.\<close>

abbreviation LIBC_SIZE :: nat where "LIBC_SIZE \<equiv> 16384"

definition libc_query_dns :: "env \<Rightarrow> set_state \<Rightarrow> sys \<Rightarrow> sys res" where
  "libc_query_dns E ss s =
     (case netresolve_backend_get_dns_query s of (_, cls, type) \<Rightarrow>
       (case libc_res_query E (netresolve_backend_get_dns_search s) (netresolve_backend_get_nodename s) cls type of
          None \<Rightarrow> netresolve_backend_failed ss s
        | Some (len, answer) \<Rightarrow>
            if len > LIBC_SIZE then Inl Out_of_bounds
            else netresolve_backend_finished ss (netresolve_backend_set_dns_answer (mem_read len answer) s)))"

section \<open>nss\<close>

definition combine_statuses :: "nss_status \<Rightarrow> nss_status \<Rightarrow> nss_status" where
  "combine_statuses s4 s6 =
     (if s4 = NSS_STATUS_TRYAGAIN \<or> s6 = NSS_STATUS_TRYAGAIN then NSS_STATUS_TRYAGAIN
      else if s4 = NSS_STATUS_SUCCESS \<or> s6 = NSS_STATUS_SUCCESS then NSS_STATUS_SUCCESS
      else if s4 = NSS_STATUS_NOTFOUND \<and> s6 = NSS_STATUS_NOTFOUND then NSS_STATUS_NOTFOUND
      else NSS_STATUS_UNAVAIL)"

text \<open>The text behind the last slash.\<close>

definition strrchr_slash :: "string \<Rightarrow> string option" where
  "strrchr_slash str =
     (if CHR ''/'' \<in> set str then Some (rev (takeWhile (\<lambda>c. c \<noteq> CHR ''/'') (rev str))) else None)"

text \<open>
  The name of the module and its file. A given file is used as it is; its name is cut out by moving
  the characters behind the prefix to the front, without the terminating NUL, and cutting at the
  first dot.
\<close>

definition nss_names :: "string \<Rightarrow> string \<times> string" where
  "nss_names setting =
     (case strrchr_slash setting of
        None \<Rightarrow> (setting, ''libnss_'' @ setting @ ''.so.2'')
      | Some p \<Rightarrow>
          (let name = (if take 7 p = ''libnss_'' then drop 7 p @ drop (length (drop 7 p)) setting else setting)
           in (takeWhile (\<lambda>c. c \<noteq> CHR ''.'') name, setting)))"

definition try_symbol_pattern :: "env \<Rightarrow> string option \<Rightarrow> string \<times> string \<Rightarrow> string \<Rightarrow> string \<Rightarrow> bool" where
  "try_symbol_pattern E wanted names suffix api =
     ((wanted = None \<or> wanted = Some api) \<and>
      dlsym E (snd names) (take 1023 (''_nss_'' @ fst names @ suffix)))"

text \<open>The module, which of the five entry points it has, or nothing when it cannot be loaded.\<close>

record priv_nss =
  ns_file :: string
  ns_getaddrinfo :: bool
  ns_gethostbyname4_r :: bool
  ns_gethostbyname3_r :: bool
  ns_gethostbyname2_r :: bool
  ns_gethostbyname_r :: bool

definition nss_initialize :: "env \<Rightarrow> string list \<Rightarrow> priv_nss option" where
  "nss_initialize E settings =
     (case settings of
        [] \<Rightarrow> None
      | setting # rest \<Rightarrow>
          (let names = nss_names setting;
               api = (case rest of [] \<Rightarrow> None | a # _ \<Rightarrow> Some a);
               has = try_symbol_pattern E api names
           in if \<not> dlopen E (snd names) then None
              else Some \<lparr>ns_file = snd names, ns_getaddrinfo = has ''_getaddrinfo'' ''getaddrinfo'',
                ns_gethostbyname4_r = has ''_gethostbyname4_r'' ''gethostbyname4'',
                ns_gethostbyname3_r = has ''_gethostbyname3_r'' ''gethostbyname3'',
                ns_gethostbyname2_r = has ''_gethostbyname2_r'' ''gethostbyname2'',
                ns_gethostbyname_r = has ''_gethostbyname_r'' ''gethostbyname''\<rparr>))"

text \<open>One family of a host by name: status, entry, lifetime and canonical name.\<close>

definition nss_family :: "env \<Rightarrow> priv_nss \<Rightarrow> string \<Rightarrow> int \<Rightarrow> int \<Rightarrow> nss_status \<times> hostent \<times> int \<times> string option" where
  "nss_family E N node family af =
     (if family = af \<or> family = AF_UNSPEC then
        if ns_gethostbyname3_r N then nss_gethostbyname3_r E (ns_file N) node af
        else (case nss_gethostbyname2_r E (ns_file N) node af of (status, he) \<Rightarrow> (status, he, 0, None))
      else (NSS_STATUS_NOTFOUND, \<lparr>h_name = None, h_addrtype = 0, h_addr_list = []\<rparr>, 0, None))"

text \<open>The addresses of each family get the lifetime of the other one.\<close>

definition nss_by_family :: "env \<Rightarrow> set_state \<Rightarrow> nss_status \<times> hostent \<times> int \<times> string option \<Rightarrow>
    nss_status \<times> hostent \<times> int \<times> string option \<Rightarrow> sys \<Rightarrow> sys res" where
  "nss_by_family E ss = (\<lambda>(status4, he4, ttl4, canonname4) (status6, he6, ttl6, canonname6) s.
     if combine_statuses status4 status6 = NSS_STATUS_SUCCESS then
       (let s = (case (status6 = NSS_STATUS_SUCCESS, canonname6) of
                   (True, Some c) \<Rightarrow> netresolve_backend_set_canonical_name c s
                 | _ \<Rightarrow> (case (status4 = NSS_STATUS_SUCCESS, canonname4) of
                     (True, Some c) \<Rightarrow> netresolve_backend_set_canonical_name c s
                   | _ \<Rightarrow> s))
        in rbind (if status6 = NSS_STATUS_SUCCESS
                  then netresolve_backend_apply_hostent E ss he6 0 0 0 0 0 ttl4 s else Inr s) (\<lambda>s.
           rbind (if status4 = NSS_STATUS_SUCCESS
                  then netresolve_backend_apply_hostent E ss he4 0 0 0 0 0 ttl6 s else Inr s)
             (netresolve_backend_finished ss)))
     else netresolve_backend_failed ss s)"

definition nss_query_forward :: "env \<Rightarrow> string list \<Rightarrow> set_state \<Rightarrow> sys \<Rightarrow> sys res" where
  "nss_query_forward E settings ss s =
     (let node = netresolve_backend_get_nodename s; family = netresolve_backend_get_family s
      in case nss_initialize E settings of
           None \<Rightarrow> netresolve_backend_failed ss s
         | Some N \<Rightarrow>
             if ns_getaddrinfo N then
               (case nss_getaddrinfo E (ns_file N) node (netresolve_backend_get_servname s)
                   (netresolve_backend_get_addrinfo_hints s) of (status, result, ttl) \<Rightarrow>
                 netresolve_backend_apply_addrinfo E ss status result ttl s)
             else (case node of
                 None \<Rightarrow> netresolve_backend_failed ss s
               | Some name \<Rightarrow>
                   if ns_gethostbyname4_r N \<and> family = AF_UNSPEC then
                     (case nss_gethostbyname4_r E (ns_file N) name of (status, result, ttl) \<Rightarrow>
                       netresolve_backend_apply_addrtuple E ss status result ttl s)
                   else if ns_gethostbyname3_r N \<or> ns_gethostbyname2_r N then
                     nss_by_family E ss (nss_family E N name family AF_INET) (nss_family E N name family AF_INET6) s
                   else if ns_gethostbyname_r N then
                     (case nss_gethostbyname_r E (ns_file N) name of (status, he) \<Rightarrow>
                       if status = NSS_STATUS_SUCCESS
                       then rbind (netresolve_backend_apply_hostent E ss he 0 0 0 0 0 0 s) (netresolve_backend_finished ss)
                       else netresolve_backend_failed ss s)
                   else netresolve_backend_failed ss s))"

end
