(* ===== verification/Local_Code.thy ===== *)
theory Local_Code
  imports Hosts Backends_Library
begin

text \<open>
  The backends that answer at once (the local ones, and those that call the C library and modules
  of the name service switch) keep the contract of the state machine, so that the facts about
  walking over the backends hold for every context that is configured with them, in any order and
  number.
\<close>

section \<open>The entry points behind the function pointers\<close>

text \<open>
  A module has the entry points that its source file defines. The callbacks of the application are
  a parameter; no module of this group registers a cleanup function or a watch.
\<close>

definition local_entry ::
    "env \<Rightarrow> string \<Rightarrow> string \<Rightarrow> netresolve_request_type \<Rightarrow> string list \<Rightarrow> (set_state \<Rightarrow> sys \<Rightarrow> sys res) option" where
  "local_entry E junk name t settings = (case t of
     REQUEST_FORWARD \<Rightarrow>
       if name = ''unix'' then Some (unix_query_forward E)
       else if name = ''any'' then Some (any_query_forward E)
       else if name = ''loopback'' then Some (loopback_query_forward E)
       else if name = ''numerichost'' then Some (numerichost_query_forward E)
       else if name = ''hostname'' then Some (hostname_query_forward E)
       else if name = ''hosts'' then Some (hosts_query_forward E junk)
       else if name = ''libc'' then Some (libc_query_forward E)
       else if name = ''nss'' then Some (nss_query_forward E settings)
       else None
   | REQUEST_REVERSE \<Rightarrow>
       if name = ''any'' then Some (any_query_reverse E)
       else if name = ''loopback'' then Some (loopback_query_reverse E)
       else if name = ''hosts'' then Some (hosts_query_reverse E junk)
       else if name = ''libc'' then Some (libc_query_reverse E)
       else None
   | REQUEST_DNS \<Rightarrow> if name = ''libc'' then Some (libc_query_dns E) else None)"

definition local_code :: "env \<Rightarrow> string \<Rightarrow> (query_callback \<Rightarrow> sys \<Rightarrow> sys res) \<Rightarrow> code" where
  "local_code E junk app =
     \<lparr>c_setup = (\<lambda>name t ss settings s. case local_entry E junk name t settings of
        None \<Rightarrow> Inl Null_dereference | Some f \<Rightarrow> f ss s),
      c_cleanup = (\<lambda>name d s. Inl Null_dereference),
      c_query_callback = app,
      c_watch_callback = (\<lambda>w ev ss s. Inl Null_dereference),
      c_timeout_callback = (\<lambda>w ss s. Inl Null_dereference)\<rparr>"

definition local_faults :: "fault set" where
  "local_faults = {Aborted, Null_dereference, Out_of_bounds}"

section \<open>Reports of the local backends\<close>

lemma prompt_cases:
  assumes "returns F r (\<lambda>x. prompt F (f x) s)"
  shows "prompt F (\<lambda>ss s. rbind r (\<lambda>x. f x ss s)) s"
proof (cases r)
  case (Inl e)
  then show ?thesis using assms by (intro prompt_fault [of _ s e]) simp_all
qed (use assms in simp)

lemma prompt_secure_finished:
  "prompt F (\<lambda>ss s. netresolve_backend_finished ss (netresolve_backend_set_secure s)) s"
  unfolding prompt_def netresolve_backend_finished_def
  by (rule exI [of _ "Inr (netresolve_backend_set_secure s)"]) (simp add: quiet_alt)

lemma prompt_state_cong:
  "(\<And>ss. f ss s = g ss s) \<Longrightarrow> prompt F g s \<Longrightarrow> prompt F f s"
  by (simp add: prompt_def)

lemmas prompt_rules = prompt_if prompt_failed prompt_finished prompt_secure_finished
  prompt_bind quiet_op_backend_add_path quiet_op_pure quiet_add_name_info

lemma prompt_any_forward:
  assumes "Null_dereference \<in> F" and "state_of s = STATE_SETUP"
  shows "prompt F (any_query_forward E) s"
  unfolding any_query_forward_def Let_def by (intro prompt_rules assms)

lemma prompt_any_reverse:
  assumes "Null_dereference \<in> F" and "state_of s = STATE_SETUP"
  shows "prompt F (any_query_reverse E) s"
  unfolding any_query_reverse_def by (intro prompt_rules assms)

lemma prompt_loopback_reverse:
  assumes "Null_dereference \<in> F" and "state_of s = STATE_SETUP"
  shows "prompt F (loopback_query_reverse E) s"
  unfolding loopback_query_reverse_def Let_def by (intro prompt_rules assms)

lemma quiet_op_after:
  assumes "quiet_op F f" and "\<And>s. same_skeleton s (g s)"
  shows "quiet_op F (\<lambda>ss s. f ss (g s))"
  using quiet_op_bind [OF quiet_op_Inr [of g F, OF assms(2)] assms(1)] by simp

lemma quiet_op_id: "quiet_op F (\<lambda>ss. Inr)"
  using quiet_op_Inr [of "\<lambda>s. s"] by simp

lemma prompt_after:
  assumes "\<And>s. same_skeleton s (g s)" and "state_of s = STATE_SETUP"
    and "\<And>t. state_of t = STATE_SETUP \<Longrightarrow> prompt F f t"
  shows "prompt F (\<lambda>ss s. f ss (g s)) s"
  using prompt_bind [OF quiet_op_Inr [of g F, OF assms(1)] assms(2,3)] by simp

lemma prompt_loopback_forward:
  assumes "Null_dereference \<in> F" and "state_of s = STATE_SETUP"
  shows "prompt F (loopback_query_forward E) s"
proof -
  define node where "node = netresolve_backend_get_nodename s"
  define v4 where "v4 = (node \<in> {None, Some [], Some ''localhost'', Some ''localhost4''})"
  define v6 where "v6 = (node \<in> {None, Some [], Some ''localhost'', Some ''localhost6''})"
  have "prompt F (\<lambda>ss s. if \<not> v4 \<and> \<not> v6 then netresolve_backend_failed ss s
      else rbind (if v4 then netresolve_backend_add_path E ss AF_INET inaddr_loopback 0 0 0 0 0 0 0
                       (netresolve_backend_set_canonical_name ''localhost'' s)
                  else Inr (netresolve_backend_set_canonical_name ''localhost'' s)) (\<lambda>s.
           rbind (if v6 then netresolve_backend_add_path E ss AF_INET6 in6addr_loopback 0 0 0 0 0 0 0 s
                  else Inr s) (\<lambda>s. netresolve_backend_finished ss (netresolve_backend_set_secure s)))) s"
    by (intro prompt_rules quiet_op_if quiet_op_id assms quiet_op_Inr
        quiet_op_after [where g = "netresolve_backend_set_canonical_name ''localhost''"]) simp_all
  then show ?thesis
    by (rule prompt_state_cong [rotated])
      (simp only: loopback_query_forward_def Let_def node_def v4_def v6_def)
qed

lemma prompt_unix_forward:
  assumes "Null_dereference \<in> F" and "state_of s = STATE_SETUP"
  shows "prompt F (unix_query_forward E) s"
proof (cases "\<exists>rest. netresolve_backend_get_nodename s = Some (CHR ''/'' # rest)")
  case True
  then obtain rest where node: "netresolve_backend_get_nodename s = Some (CHR ''/'' # rest)" by blast
  define st where "st = netresolve_backend_get_socktype s"
  have "prompt F (\<lambda>ss s. if netresolve_backend_get_family s \<noteq> AF_UNIX then netresolve_backend_failed ss s
      else rbind (netresolve_backend_add_path E ss AF_UNIX (bytes_of_string (CHR ''/'' # rest)) 0 st 0 0 0 0 0 s)
        (\<lambda>s. netresolve_backend_finished ss (netresolve_backend_set_secure s))) s"
    by (intro prompt_rules assms)
  then show ?thesis
    by (rule prompt_state_cong [rotated]) (simp add: unix_query_forward_def node st_def)
next
  case False
  have "unix_query_forward E ss s = netresolve_backend_failed ss s" for ss
    using False by (auto simp: unix_query_forward_def split: option.splits list.splits if_splits char.splits bool.splits)
  then show ?thesis by (rule prompt_state_cong) (rule prompt_failed)
qed

lemma prompt_numerichost_forward:
  assumes "Null_dereference \<in> F" and "state_of s = STATE_SETUP"
  shows "prompt F (numerichost_query_forward E) s"
proof (cases "netresolve_backend_parse_address E (netresolve_backend_get_nodename s)")
  case None
  then show ?thesis
    by (intro prompt_state_cong [OF _ prompt_failed]) (simp add: numerichost_query_forward_def Let_def)
next
  case (Some r)
  obtain address family ifindex where r: "r = (address, family, ifindex)" by (cases r)
  define node where "node = netresolve_backend_get_nodename s"
  define name where "name = (\<lambda>s. case node of None \<Rightarrow> s | Some n \<Rightarrow> netresolve_backend_set_canonical_name n s)"
  have name: "same_skeleton t (name t)" for t by (simp add: name_def split: option.splits)
  have "prompt F (\<lambda>ss s. if ifindex \<ge> 0
      then rbind (netresolve_backend_add_path E ss family address ifindex 0 0 0 0 0 0 s) (\<lambda>s.
             netresolve_backend_finished ss (netresolve_backend_set_secure (name s)))
      else netresolve_backend_failed ss s) s"
    by (intro prompt_rules assms prompt_after [where g = name] name)
  then show ?thesis
    by (rule prompt_state_cong [rotated])
      (simp add: numerichost_query_forward_def Let_def Some r name_def node_def)
qed

lemma prompt_hostname_forward:
  assumes "Null_dereference \<in> F" and "state_of s = STATE_SETUP"
  shows "prompt F (hostname_query_forward E) s"
proof (cases "netresolve_backend_get_nodename s = Some (uname_nodename E) \<and> getifaddrs E \<noteq> None")
  case False
  then have "hostname_query_forward E ss s = netresolve_backend_failed ss s" for ss
    by (auto simp: hostname_query_forward_def split: option.splits)
  then show ?thesis by (rule prompt_state_cong) (rule prompt_failed)
next
  case True
  then obtain items where node: "netresolve_backend_get_nodename s = Some (uname_nodename E)"
    and items: "getifaddrs E = Some items" by blast
  let ?f = "\<lambda>item ss. (case ifa_family item of None \<Rightarrow> Inr
    | Some f \<Rightarrow> netresolve_backend_add_path E ss f (ifa_address item)
        (if f = AF_INET6 then ifa_scope_id item else 0) 0 0 0 0 0 0)"
  let ?w = "\<lambda>filt. filter (hostname_wanted filt) items"
  have f: "quiet_op F (?f item)" for item
    by (cases "ifa_family item") (simp_all add: quiet_op_id quiet_op_backend_add_path assms)
  have "prompt F (\<lambda>ss s. rbind (foreach (\<lambda>item. ?f item ss) (?w True) s) (\<lambda>s.
      rbind (if ?w True \<noteq> [] then Inr s else foreach (\<lambda>item. ?f item ss) (?w False) s) (\<lambda>s.
      netresolve_backend_finished ss (netresolve_backend_set_canonical_name (uname_nodename E) s)))) s"
    by (intro prompt_bind quiet_op_foreach [OF f] quiet_op_if quiet_op_id assms
        prompt_after [where g = "netresolve_backend_set_canonical_name (uname_nodename E)"] prompt_finished) simp_all
  moreover have "hostname_query_forward E ss s = rbind (foreach (\<lambda>item. ?f item ss) (?w True) s) (\<lambda>s.
      rbind (if ?w True \<noteq> [] then Inr s else foreach (\<lambda>item. ?f item ss) (?w False) s) (\<lambda>s.
      netresolve_backend_finished ss (netresolve_backend_set_canonical_name (uname_nodename E) s)))" for ss
    by (simp only: hostname_query_forward_def hostname_add_addresses_def node items Let_def option.case
        rbind_assoc rbind_simps prod.case rbind_Inr_id not_True_eq_False simp_thms if_False
        if_distrib [where f = "\<lambda>m. rbind m _"] split: if_split)
  ultimately show ?thesis by (rule prompt_state_cong [rotated])
qed

text \<open>Reading the hosts file can only fail by running off the buffer.\<close>

lemma strtok_mem_fault: "returns {Out_of_bounds} (strtok_mem d mem pos) (\<lambda>_. True)"
  by (simp add: strtok_mem_def Let_def)

lemma read_names_fault: "returns {Out_of_bounds} (read_names a f i hl mem pos) (\<lambda>_. True)"
proof (induction a f i hl mem pos rule: read_names.induct)
  case (1 a f i hl mem pos)
  show ?case
    using strtok_mem_fault [of blanks mem pos] 1
    unfolding read_names.simps [of a f i hl mem pos]
    by (cases "strtok_mem blanks mem pos") (auto split: prod.splits option.splits)
qed

lemma read_item_fault: "returns {Out_of_bounds} (read_item E hl mem) (\<lambda>_. True)"
  unfolding read_item_def
  by (rule returns_bind [OF strtok_mem_fault]) (auto split: prod.splits option.splits intro: read_names_fault)

lemma scan_hosts_fault: "returns {Out_of_bounds} (scan_hosts E hl mem cur new) (\<lambda>_. True)"
proof (induction E hl mem cur new rule: scan_hosts.induct)
  case (1 E hl mem cur new)
  let ?m = "(if mem ! new = CHR ''#'' then mem[new := NUL] else mem)[new := NUL]"
  show ?case
    using read_item_fault [of E hl ?m] 1
    unfolding scan_hosts.simps [of E hl mem cur new] Let_def
    by (cases "read_item E hl ?m") (auto split: prod.splits)
qed

lemma read_list_loop_fault: "returns {Out_of_bounds} (read_list_loop E hl mem cur cs) (\<lambda>_. True)"
proof (induction E hl mem cur cs rule: read_list_loop.induct)
  case (2 E hl mem cur c cs)
  then show ?case
    by (auto simp: Let_def intro!: returns_bind [OF scan_hosts_fault] returns_bind [OF read_item_fault]
        split: prod.splits)
qed simp

lemma read_list_fault: "returns {Out_of_bounds} (read_list E junk hl) (\<lambda>_. True)"
  by (simp add: read_list_def read_list_loop_fault split: option.splits)

lemma prompt_hosts_forward:
  assumes "Null_dereference \<in> F" and "Out_of_bounds \<in> F" and "state_of s = STATE_SETUP"
  shows "prompt F (hosts_query_forward E junk) s"
proof (cases "netresolve_backend_get_nodename s")
  case None
  then show ?thesis
    by (intro prompt_state_cong [OF _ prompt_failed]) (simp add: hosts_query_forward_def)
next
  case (Some node)
  let ?found = "\<lambda>hl. filter (\<lambda>i. hi_name i = Some node) (named_items hl)"
  have "prompt F (\<lambda>ss s. rbind (foreach (\<lambda>i. netresolve_backend_add_path E ss (hi_family i) (hi_address i)
        (hi_ifindex i) 0 0 0 0 0 0) (?found hl) s) (\<lambda>s.
      if ?found hl \<noteq> [] then netresolve_backend_finished ss (netresolve_backend_set_secure s)
      else netresolve_backend_failed ss s)) s" for hl
    by (intro prompt_rules quiet_op_foreach assms)
  then have "prompt F (\<lambda>ss s. rbind (read_list E junk empty_hosts) (\<lambda>hl.
      rbind (foreach (\<lambda>i. netresolve_backend_add_path E ss (hi_family i) (hi_address i)
        (hi_ifindex i) 0 0 0 0 0 0) (?found hl) s) (\<lambda>s.
      if ?found hl \<noteq> [] then netresolve_backend_finished ss (netresolve_backend_set_secure s)
      else netresolve_backend_failed ss s))) s"
    by (intro prompt_cases returns_mono [OF read_list_fault]) (use assms in auto)
  then show ?thesis
    by (rule prompt_state_cong [rotated]) (simp only: hosts_query_forward_def Some Let_def option.case)
qed

lemma prompt_hosts_reverse:
  assumes "Null_dereference \<in> F" and "Out_of_bounds \<in> F" and "state_of s = STATE_SETUP"
  shows "prompt F (hosts_query_reverse E junk) s"
proof -
  define found where "found = (\<lambda>hl. filter (\<lambda>i. hi_family i = netresolve_backend_get_family s \<and>
    mem_read (family_to_length (netresolve_backend_get_family s)) (netresolve_backend_get_address s) =
    mem_read (family_to_length (netresolve_backend_get_family s)) (hi_address i)) (named_items hl))"
  have "prompt F (\<lambda>ss s. rbind (foreach (\<lambda>i. netresolve_backend_add_name_info E (hi_name i) None) (found hl) s) (\<lambda>s.
      if found hl \<noteq> [] then netresolve_backend_finished ss (netresolve_backend_set_secure s)
      else netresolve_backend_failed ss s)) s" for hl
    by (intro prompt_rules quiet_op_foreach [where f = "\<lambda>i ss. netresolve_backend_add_name_info E (hi_name i) None"] assms)
  then have "prompt F (\<lambda>ss s. rbind (read_list E junk empty_hosts) (\<lambda>hl.
      rbind (foreach (\<lambda>i. netresolve_backend_add_name_info E (hi_name i) None) (found hl) s) (\<lambda>s.
      if found hl \<noteq> [] then netresolve_backend_finished ss (netresolve_backend_set_secure s)
      else netresolve_backend_failed ss s))) s"
    by (intro prompt_cases returns_mono [OF read_list_fault]) (use assms in auto)
  then show ?thesis
    by (rule prompt_state_cong [rotated]) (simp only: hosts_query_reverse_def Let_def found_def)
qed

text \<open>The conversions of result structures.\<close>

lemma addrinfo_endpoint_fault: "returns {Null_dereference, Out_of_bounds} (addrinfo_endpoint item) (\<lambda>_. True)"
  by (simp add: addrinfo_endpoint_def split: option.splits sockaddr.splits)

lemma prompt_apply_addrinfo:
  assumes F: "Null_dereference \<in> F" "Out_of_bounds \<in> F" and s: "state_of s = STATE_SETUP"
  shows "prompt F (\<lambda>ss. netresolve_backend_apply_addrinfo E ss status result ttl) s"
proof -
  have "quiet_op F (\<lambda>ss s. rbind (addrinfo_endpoint item) (\<lambda>(address, ifindex, port).
      netresolve_backend_add_path E ss (ai_family item) address ifindex (ai_socktype item) (ai_protocol item) port 0 0 ttl s))" for item
  proof (cases "addrinfo_endpoint item")
    case (Inl e)
    then have "e \<in> F" using addrinfo_endpoint_fault [of item] F by auto
    then show ?thesis using quiet_op_pure [of F "\<lambda>s. Inl e"] by (simp add: Inl quiet_alt)
  next
    case (Inr x)
    then show ?thesis by (cases x) (simp add: quiet_op_backend_add_path F)
  qed
  then show ?thesis
    unfolding netresolve_backend_apply_addrinfo_def by (intro prompt_rules quiet_op_foreach s)
qed

lemma prompt_apply_addrtuple:
  assumes "Null_dereference \<in> F" and "state_of s = STATE_SETUP"
  shows "prompt F (\<lambda>ss. netresolve_backend_apply_addrtuple E ss status result ttl) s"
  unfolding netresolve_backend_apply_addrtuple_def by (intro prompt_rules quiet_op_foreach assms)

lemma quiet_op_apply_hostent:
  assumes "Null_dereference \<in> F"
  shows "quiet_op F (\<lambda>ss. netresolve_backend_apply_hostent E ss he st pr po prio wt ttl)"
  unfolding netresolve_backend_apply_hostent_def
  by (intro quiet_op_bind quiet_op_foreach quiet_op_backend_add_path quiet_op_Inr assms) (simp split: option.splits)

lemma prompt_libc_forward:
  assumes "Null_dereference \<in> F" and "Out_of_bounds \<in> F" and "state_of s = STATE_SETUP"
  shows "prompt F (libc_query_forward E) s"
proof (cases "libc_getaddrinfo E (netresolve_backend_get_nodename s) (netresolve_backend_get_servname s) (netresolve_backend_get_addrinfo_hints s)")
  case (Pair status result)
  have "prompt F (\<lambda>ss s. if status \<noteq> 0 then netresolve_backend_failed ss s
      else netresolve_backend_apply_addrinfo E ss status result 0 s) s"
    by (intro prompt_rules prompt_apply_addrinfo assms)
  then show ?thesis by (rule prompt_state_cong [rotated]) (simp add: libc_query_forward_def Pair)
qed

lemma prompt_libc_reverse:
  assumes "Null_dereference \<in> F" and "state_of s = STATE_SETUP"
  shows "prompt F (libc_query_reverse E) s"
proof (cases "case libc_sockaddr s of None \<Rightarrow> None | Some sa \<Rightarrow> libc_getnameinfo E sa 16")
  case None
  then have "libc_query_reverse E ss s = netresolve_backend_failed ss s" for ss
    by (auto simp: libc_query_reverse_def split: option.splits)
  then show ?thesis by (rule prompt_state_cong) (rule prompt_failed)
next
  case (Some r)
  obtain node serv where r: "r = (node, serv)" by (cases r)
  have "prompt F (\<lambda>ss s. rbind (netresolve_backend_add_name_info E (Some node) (Some serv) s) (netresolve_backend_finished ss)) s"
    by (intro prompt_rules assms)
  then show ?thesis
    by (rule prompt_state_cong [rotated]) (use Some r in \<open>auto simp: libc_query_reverse_def split: option.splits\<close>)
qed

lemma same_skeleton_set_dns_answer [simp]: "same_skeleton s (netresolve_backend_set_dns_answer a s)"
  by (simp add: netresolve_backend_set_dns_answer_def same_skeleton_response)

lemma prompt_libc_dns:
  assumes "Out_of_bounds \<in> F" and "state_of s = STATE_SETUP"
  shows "prompt F (libc_query_dns E) s"
proof -
  obtain name cls type where q: "netresolve_backend_get_dns_query s = (name, cls, type)"
    by (cases "netresolve_backend_get_dns_query s")
  show ?thesis
  proof (cases "libc_res_query E (netresolve_backend_get_dns_search s) (netresolve_backend_get_nodename s) cls type")
    case None
    then show ?thesis by (intro prompt_state_cong [OF _ prompt_failed]) (simp add: libc_query_dns_def q)
  next
    case (Some r)
    obtain len answer where r: "r = (len, answer)" by (cases r)
    have long: "prompt F (\<lambda>ss s. Inl Out_of_bounds) s" by (rule prompt_fault [OF refl assms(1)])
    have fine: "prompt F (\<lambda>ss s. netresolve_backend_finished ss (netresolve_backend_set_dns_answer (mem_read len answer) s)) s"
      by (rule prompt_after [where g = "netresolve_backend_set_dns_answer (mem_read len answer)", OF _ assms(2) prompt_finished]) simp
    have "prompt F (\<lambda>ss s. if len > LIBC_SIZE then Inl Out_of_bounds
        else netresolve_backend_finished ss (netresolve_backend_set_dns_answer (mem_read len answer) s)) s"
      by (rule prompt_if [OF long fine])
    then show ?thesis by (rule prompt_state_cong [rotated]) (simp add: libc_query_dns_def q Some r)
  qed
qed

lemma prompt_nss_by_family:
  assumes "Null_dereference \<in> F" and "state_of s = STATE_SETUP"
  shows "prompt F (\<lambda>ss. nss_by_family E ss a b) s"
proof -
  obtain status4 he4 ttl4 canon4 where a: "a = (status4, he4, ttl4, canon4)" by (metis prod_cases4)
  obtain status6 he6 ttl6 canon6 where b: "b = (status6, he6, ttl6, canon6)" by (metis prod_cases4)
  define name where "name = (\<lambda>s. case (status6 = NSS_STATUS_SUCCESS, canon6) of
      (True, Some c) \<Rightarrow> netresolve_backend_set_canonical_name c s
    | _ \<Rightarrow> (case (status4 = NSS_STATUS_SUCCESS, canon4) of
        (True, Some c) \<Rightarrow> netresolve_backend_set_canonical_name c s | _ \<Rightarrow> s))"
  have name: "same_skeleton t (name t)" for t by (simp add: name_def split: option.splits bool.splits)
  have "prompt F (\<lambda>ss s. if combine_statuses status4 status6 = NSS_STATUS_SUCCESS then
      (\<lambda>ss s. rbind (if status6 = NSS_STATUS_SUCCESS
           then netresolve_backend_apply_hostent E ss he6 0 0 0 0 0 ttl4 s else Inr s) (\<lambda>s.
         rbind (if status4 = NSS_STATUS_SUCCESS
           then netresolve_backend_apply_hostent E ss he4 0 0 0 0 0 ttl6 s else Inr s)
         (netresolve_backend_finished ss))) ss (name s)
      else netresolve_backend_failed ss s) s"
    by (intro prompt_if prompt_after [where g = name] name prompt_bind quiet_op_if quiet_op_id quiet_op_apply_hostent
        prompt_finished prompt_failed assms) simp_all
  then show ?thesis
    by (rule prompt_state_cong [rotated]) (simp only: nss_by_family_def a b prod.case name_def Let_def)
qed

lemma prompt_nss_forward:
  assumes F: "Null_dereference \<in> F" "Out_of_bounds \<in> F" and s: "state_of s = STATE_SETUP"
  shows "prompt F (nss_query_forward E settings) s"
proof (cases "nss_initialize E settings")
  case None
  then show ?thesis by (intro prompt_state_cong [OF _ prompt_failed]) (simp add: nss_query_forward_def Let_def)
next
  case (Some N)
  let ?node = "netresolve_backend_get_nodename s" and ?fam = "netresolve_backend_get_family s"
  obtain status result ttl where r0: "nss_getaddrinfo E (ns_file N) ?node (netresolve_backend_get_servname s)
      (netresolve_backend_get_addrinfo_hints s) = (status, result, ttl)" by (metis prod_cases3)
  show ?thesis
  proof (cases "ns_getaddrinfo N \<or> ?node = None")
    case True
    have "prompt F (\<lambda>ss s. if ns_getaddrinfo N then netresolve_backend_apply_addrinfo E ss status result ttl s
        else netresolve_backend_failed ss s) s"
      by (intro prompt_rules prompt_apply_addrinfo F s)
    then show ?thesis
      by (rule prompt_state_cong [rotated]) (use True in \<open>auto simp: nss_query_forward_def Let_def Some r0\<close>)
  next
    case False
    then obtain name where name: "?node = Some name" by auto
    obtain st4 res4 ttl4 where r4: "nss_gethostbyname4_r E (ns_file N) name = (st4, res4, ttl4)" by (metis prod_cases3)
    obtain st1 he1 where r1: "nss_gethostbyname_r E (ns_file N) name = (st1, he1)" by (metis prod.exhaust)
    define fam where "fam = ?fam"
    have "prompt F (\<lambda>ss s. if ns_gethostbyname4_r N \<and> fam = AF_UNSPEC then netresolve_backend_apply_addrtuple E ss st4 res4 ttl4 s
        else if ns_gethostbyname3_r N \<or> ns_gethostbyname2_r N then
          nss_by_family E ss (nss_family E N name fam AF_INET) (nss_family E N name fam AF_INET6) s
        else if ns_gethostbyname_r N then
          if st1 = NSS_STATUS_SUCCESS
          then rbind (netresolve_backend_apply_hostent E ss he1 0 0 0 0 0 0 s) (netresolve_backend_finished ss)
          else netresolve_backend_failed ss s
        else netresolve_backend_failed ss s) s"
      by (intro prompt_if prompt_apply_addrtuple prompt_nss_by_family prompt_bind quiet_op_apply_hostent
          prompt_finished prompt_failed F s)
    then show ?thesis
      by (rule prompt_state_cong [rotated]) (use False in \<open>simp add: nss_query_forward_def Let_def Some name r4 r1 fam_def\<close>)
  qed
qed

section \<open>The contract holds\<close>

lemma local_code_contract:
  assumes "\<And>s cb. quiet False local_faults s (app cb s)"
  shows "backend_code (local_code E junk app) local_faults False"
proof
  show "Out_of_fuel \<notin> local_faults" "Aborted \<in> local_faults" by (simp_all add: local_faults_def)
  show "quiet False local_faults s (c_cleanup (local_code E junk app) m d s)" for s m d
    by (simp add: local_code_def quiet_alt local_faults_def)
  show "quiet False local_faults s (c_query_callback (local_code E junk app) cb s)" for s cb
    using assms by (simp add: local_code_def)
next
  fix s :: sys and m t args assume s: "state_of s = STATE_SETUP"
  have F: "Null_dereference \<in> local_faults" "Out_of_bounds \<in> local_faults" by (simp_all add: local_faults_def)
  have none: "prompt local_faults (\<lambda>ss s. Inl Null_dereference) s"
    by (rule prompt_fault [OF refl F(1)])
  have entry: "prompt local_faults f s" if "local_entry E junk m t args = Some f" for f
    using that prompt_unix_forward [OF F(1) s] prompt_any_forward [OF F(1) s]
      prompt_loopback_forward [OF F(1) s] prompt_numerichost_forward [OF F(1) s]
      prompt_hostname_forward [OF F(1) s] prompt_hosts_forward [OF F s] prompt_any_reverse [OF F(1) s]
      prompt_loopback_reverse [OF F(1) s] prompt_hosts_reverse [OF F s] prompt_libc_forward [OF F s]
      prompt_libc_reverse [OF F(1) s] prompt_libc_dns [OF F(2) s] prompt_nss_forward [OF F s]
    by (auto simp: local_entry_def split: netresolve_request_type.splits if_splits)
  show "prompt local_faults (\<lambda>ss. c_setup (local_code E junk app) m t ss args) s"
    using entry none by (cases "local_entry E junk m t args") (simp_all add: local_code_def)
qed

text \<open>The instance with an application whose callback only reads the result.\<close>

definition reading_callback :: "query_callback \<Rightarrow> sys \<Rightarrow> sys res" where
  "reading_callback cb s = Inr s"

lemma reading_callback_quiet: "quiet False F s (reading_callback cb s)"
  by (simp add: reading_callback_def quiet_alt)

interpretation local_backends: backend_code "local_code E junk reading_callback" local_faults False
  by (rule local_code_contract) (rule reading_callback_quiet)

section \<open>Queries over local backends\<close>


text \<open>A process with a request for the loopback name and two configured backends.\<close>

definition sample_backend :: "string \<Rightarrow> netresolve_backend" where
  "sample_backend name = \<lparr>be_mandatory = False, be_settings = [name], be_setup_forward = True,
     be_setup_reverse = True, be_setup_dns = False, be_cleanup = False, be_data = None\<rparr>"

definition no_hostent :: hostent where
  "no_hostent = \<lparr>h_name = None, h_addrtype = 0, h_addr_list = []\<rparr>"

definition sample_env :: env where
  "sample_env = \<lparr>secure_getenv = (\<lambda>_. None), getenv = (\<lambda>_. None), open_read = (\<lambda>_. None),
     inet_pton = (\<lambda>_ _. None), inet_ntop = (\<lambda>_ _. []), if_nametoindex = (\<lambda>_. 0), if_indextoname = (\<lambda>_. None),
     udp_connect = (\<lambda>f _ _. f = AF_INET), dlopen = (\<lambda>_. False), dlsym = (\<lambda>_ _. False), uname_nodename = ''host'',
     getifaddrs = None, libc_getaddrinfo = (\<lambda>_ _ _. (- 2, [])), libc_getnameinfo = (\<lambda>_ _. None), libc_res_query = (\<lambda>_ _ _ _. None),
     nss_getaddrinfo = (\<lambda>_ _ _ _. (- 2, [], 0)), nss_gethostbyname4_r = (\<lambda>_ _. (NSS_STATUS_NOTFOUND, [], 0)),
     nss_gethostbyname3_r = (\<lambda>_ _ _. (NSS_STATUS_NOTFOUND, no_hostent, 0, None)),
     nss_gethostbyname2_r = (\<lambda>_ _ _. (NSS_STATUS_NOTFOUND, no_hostent)),
     nss_gethostbyname_r = (\<lambda>_ _. (NSS_STATUS_NOTFOUND, no_hostent))\<rparr>"

definition sample_sys :: "string list \<Rightarrow> string \<Rightarrow> sys" where
  "sample_sys names node = initial_sys\<lparr>
     s_ctx := (s_ctx initial_sys)\<lparr>cx_backends := Some (map sample_backend names)\<rparr>,
     s_query := zero_query\<lparr>q_callback := Some (QC_application 0),
       q_request := zero_request\<lparr>rq_nodename := Some node\<rparr>\<rparr>\<rparr>"

lemma sample_sys_ready:
  assumes "names \<noteq> []"
  shows "ready (sample_sys names node)"
proof -
  have "ev_inv (sample_sys names node)"
    using ev_inv_initial_sys
    by (simp add: sample_sys_def initial_sys_def ev_inv_def loop_inv_def loop_watched_def pending_watches_def zero_defs)
  then show ?thesis
    using assms by (simp add: ready_def tidy_def slots_inv_def sample_sys_def get_slot_def zero_defs
        backend_list_def split: timeout_slot.splits)
qed

lemma sample_sys_simps [simp]:
  "state_of (sample_sys names node) = STATE_NONE" "q_backend (s_query (sample_sys names node)) = 0"
  "backend_list (sample_sys names node) = map sample_backend names"
  "os_calls (s_os (sample_sys names node)) = []"
  "q_callback (s_query (sample_sys names node)) = Some (QC_application 0)"
  by (simp_all add: sample_sys_def initial_sys_def zero_defs backend_list_def)



lemma sample_resolves:
  "\<exists>s'. netresolve_query_set_state 3 (local_code sample_env [] reading_callback) STATE_SETUP
      (sample_sys [''loopback''] ''localhost'') = Inr s' \<and> state_of s' = STATE_RESOLVED \<and>
    q_delayed (s_query s') = Some 0 \<and> netresolve_query_get_count (s_query s') = 2"
proof -
  have "returns {} (netresolve_query_set_state 3 (local_code sample_env [] reading_callback) STATE_SETUP
      (sample_sys [''loopback''] ''localhost''))
      (\<lambda>s'. state_of s' = STATE_RESOLVED \<and> q_delayed (s_query s') = Some 0 \<and>
        netresolve_query_get_count (s_query s') = 2)"
    by code_simp
  from returns_noneE [OF this] show ?thesis .
qed




end
