(* ===== verification/Paths.thy ===== *)
theory Paths
  imports Local_Code "HOL-Library.Multiset"
begin

text \<open>
  What backends get when they add results through \<open>lib/backend.c\<close>: the order of the paths,
  the filter of the request, and the invariants of a response.
\<close>

section \<open>The order of paths\<close>

definition internet :: "netresolve_path \<Rightarrow> bool" where
  "internet p \<longleftrightarrow> node_family p = AF_INET \<or> node_family p = AF_INET6"

text \<open>Reachable destinations first, and IPv6 before IPv4 among equally reachable ones.\<close>

definition path_rank :: "netresolve_path \<Rightarrow> nat" where
  "path_rank p = (if node_reachable p then 0 else 2) + (if node_family p = AF_INET6 then 0 else 1)"

definition sort_enabled :: "env \<Rightarrow> bool" where
  "sort_enabled E \<longleftrightarrow> getenv_bool E ''NETRESOLVE_SORT_RESULTS'' True"

lemma path_cmp_rank:
  "sort_enabled E \<Longrightarrow> internet p \<Longrightarrow> internet q \<Longrightarrow> path_cmp E p q < 0 \<longleftrightarrow> path_rank p < path_rank q"
  by (auto simp: path_cmp_def path_rank_def internet_def sort_enabled_def)

lemma path_cmp_off: "\<not> sort_enabled E \<Longrightarrow> path_cmp E p q = 0"
  by (simp add: path_cmp_def sort_enabled_def)

lemma insert_path_alt:
  assumes "sort_enabled E" and "internet p" and "\<forall>q \<in> set ps. internet q"
  shows "insert_path E p ps =
    takeWhile (\<lambda>q. path_rank q \<le> path_rank p) ps @ p # dropWhile (\<lambda>q. path_rank q \<le> path_rank p) ps"
proof -
  have "takeWhile (\<lambda>q. \<not> path_cmp E p q < 0) ps = takeWhile (\<lambda>q. path_rank q \<le> path_rank p) ps"
    and "dropWhile (\<lambda>q. \<not> path_cmp E p q < 0) ps = dropWhile (\<lambda>q. path_rank q \<le> path_rank p) ps"
    using assms path_cmp_rank [of E p] by (auto cong: takeWhile_cong dropWhile_cong simp: linorder_not_less)
  then show ?thesis
    by (simp add: insert_path_def Let_def take_find_index drop_find_index)
qed

text \<open>Inserting the next path into a sorted list is one step of a stable sort.\<close>

lemma sort_key_snoc:
  fixes f :: "'a \<Rightarrow> 'b :: linorder"
  shows "takeWhile (\<lambda>y. f y \<le> f x) (sort_key f xs) @ x # dropWhile (\<lambda>y. f y \<le> f x) (sort_key f xs) =
    sort_key f (xs @ [x])"
proof (rule properties_for_sort_key [symmetric])
  let ?ys = "sort_key f xs"
  let ?t = "takeWhile (\<lambda>y. f y \<le> f x) ?ys" and ?d = "dropWhile (\<lambda>y. f y \<le> f x) ?ys"
  have td: "?t @ ?d = ?ys" by simp
  have "mset ?t + mset ?d = mset xs" by (metis mset_append mset_sort td)
  then show "mset (?t @ x # ?d) = mset (xs @ [x])" by simp
  have late: "\<forall>y \<in> set ?d. f x < f y"
  proof (cases ?d)
    case (Cons y ys)
    then have "\<not> f y \<le> f x" by (metis dropWhile_eq_Cons_conv)
    moreover have "sorted (map f ?d)" by (metis sorted_sort_key sorted_wrt_drop dropWhile_eq_drop drop_map)
    ultimately show ?thesis using Cons by (auto intro: order_less_le_trans)
  next
    case Nil
    show ?thesis unfolding Nil by simp
  qed
  show "sorted (map f (?t @ x # ?d))"
  proof -
    have "sorted (map f ?t)" by (metis sorted_sort_key sorted_wrt_take takeWhile_eq_take take_map)
    moreover have "sorted (map f ?d)" by (metis sorted_sort_key sorted_wrt_drop dropWhile_eq_drop drop_map)
    moreover have "\<forall>y \<in> set ?t. f y \<le> f x" by (auto dest: set_takeWhileD)
    ultimately show ?thesis using late by (fastforce simp: sorted_append intro: order_trans less_imp_le)
  qed
  fix k assume "k \<in> set (?t @ x # ?d)"
  have "filter (\<lambda>y. f k = f y) ?ys = filter (\<lambda>y. f k = f y) xs"
    unfolding eq_commute [of "f k"] by (rule sort_key_stable)
  then have e: "filter (\<lambda>y. f k = f y) ?t @ filter (\<lambda>y. f k = f y) ?d = filter (\<lambda>y. f k = f y) xs"
    by (metis filter_append td)
  have "f k = f x \<Longrightarrow> filter (\<lambda>y. f k = f y) ?d = []" using late by (auto simp: filter_empty_conv)
  with e show "filter (\<lambda>y. f k = f y) (?t @ x # ?d) = filter (\<lambda>y. f k = f y) (xs @ [x])" by auto
qed

definition insert_all :: "env \<Rightarrow> netresolve_path list \<Rightarrow> netresolve_path list" where
  "insert_all E ps = foldl (\<lambda>ys p. insert_path E p ys) [] ps"

lemma insert_all_sorted:
  assumes "sort_enabled E" and "\<forall>p \<in> set ps. internet p"
  shows "insert_all E ps = sort_key path_rank ps"
  using assms(2)
proof (induction ps rule: rev_induct)
  case (snoc p ps)
  then have "insert_all E (ps @ [p]) = insert_path E p (sort_key path_rank ps)" by (simp add: insert_all_def)
  also have "\<dots> = sort_key path_rank (ps @ [p])"
    using insert_path_alt [OF assms(1), of p "sort_key path_rank ps"] snoc.prems by (simp add: sort_key_snoc)
  finally show ?case .
qed (simp add: insert_all_def)

lemma insert_path_off: "\<not> sort_enabled E \<Longrightarrow> insert_path E p ps = ps @ [p]"
proof -
  assume "\<not> sort_enabled E"
  then have "find_index (\<lambda>q. path_cmp E p q < 0) ps = length ps"
    by (induction ps) (simp_all add: path_cmp_off)
  then show ?thesis by (simp add: insert_path_def)
qed

section \<open>Adding paths to a query\<close>

lemma add_path_response:
  assumes "state_of s \<noteq> STATE_WAITING"
  shows "add_path E ss p s = Inr (upd_response (\<lambda>r. r\<lparr>rs_paths :=
     Some (insert_path E (check_reachability E (s_os s) p) (path_list r))\<rparr>) s)"
  using assms by (simp add: add_path_def Let_def)

lemma path_list_Some [simp]: "path_list (r\<lparr>rs_paths := Some ps\<rparr>) = ps"
  by (simp add: path_list_def)

lemma add_paths_fold:
  assumes "state_of s \<noteq> STATE_WAITING"
  shows "\<exists>s'. foreach (add_path E ss) ps s = Inr s' \<and> s_os s' = s_os s \<and> state_of s' = state_of s \<and>
    path_list (response_of s') =
      foldl (\<lambda>ys p. insert_path E (check_reachability E (s_os s) p) ys) (path_list (response_of s)) ps"
  using assms
proof (induction ps arbitrary: s)
  case (Cons p ps)
  let ?s = "upd_response (\<lambda>r. r\<lparr>rs_paths :=
     Some (insert_path E (check_reachability E (s_os s) p) (path_list r))\<rparr>) s"
  have "state_of ?s \<noteq> STATE_WAITING" using Cons.prems by simp
  from Cons.IH [OF this] show ?case
    using add_path_response [OF Cons.prems] by simp
qed simp

lemma foldl_insert_map:
  "foldl (\<lambda>ys p. insert_path E (g p) ys) ys ps = foldl (\<lambda>ys p. insert_path E p ys) ys (map g ps)"
  by (induction ps arbitrary: ys) simp_all

lemma internet_check_reachability [simp]: "internet (check_reachability E o1 p) = internet p"
  by (simp add: internet_def check_reachability_def split: option.splits)

text \<open>
  C6: with sorting enabled, which is the default, the paths that a backend adds to an empty
  response end up in the order of a stable sort: reachable destinations before unreachable ones,
  IPv6 before IPv4 within each group, and otherwise in the order in which they were added.
\<close>

theorem added_paths_sorted:
  assumes "state_of s \<noteq> STATE_WAITING" and "sort_enabled E" and "path_list (response_of s) = []"
    and "\<forall>p \<in> set ps. internet p"
  shows "\<exists>s'. foreach (add_path E ss) ps s = Inr s' \<and>
    path_list (response_of s') = sort_key path_rank (map (check_reachability E (s_os s)) ps)"
proof -
  have "insert_all E (map (check_reachability E (s_os s)) ps) =
      sort_key path_rank (map (check_reachability E (s_os s)) ps)"
    using assms(2,4) by (intro insert_all_sorted) auto
  then show ?thesis
    using add_paths_fold [OF assms(1), of E ss ps]
      foldl_insert_map [of E "check_reachability E (s_os s)" "[]" ps]
    unfolding assms(3) insert_all_def by auto
qed

definition sample_path :: "int \<Rightarrow> netresolve_path" where
  "sample_path family = new_path zero_request family [] 0 SOCK_STREAM IPPROTO_TCP 80 0 0 0"

theorem added_paths_sorted_witness:
  "\<exists>s'. foreach (add_path sample_env (\<lambda>_ s. Inr s)) [sample_path AF_INET6, sample_path AF_INET]
      (sample_sys [''any''] ''x'') = Inr s' \<and>
    map node_family (path_list (response_of s')) = [AF_INET, AF_INET6]"
proof -
  let ?s = "sample_sys [''any''] ''x''" and ?ps = "[sample_path AF_INET6, sample_path AF_INET]"
  have "sort_enabled sample_env" by (simp add: sort_enabled_def sample_env_def getenv_bool_def)
  moreover have "path_list (response_of ?s) = []" by (simp add: sample_sys_def zero_defs path_list_def)
  moreover have "map node_family (sort_key path_rank (map (check_reachability sample_env (s_os ?s)) ?ps)) =
      [AF_INET, AF_INET6]"
    by (simp add: sort_key_def check_reachability_def sample_path_def new_path_def alloc_fd_def Let_def
        lowest_fd_def sample_sys_def initial_sys_def sample_env_def path_rank_def)
  moreover have "\<forall>p \<in> set ?ps. internet p" by (simp add: internet_def sample_path_def new_path_def)
  moreover have "state_of ?s \<noteq> STATE_WAITING" by simp
  ultimately show ?thesis
    using added_paths_sorted [of ?s sample_env ?ps "\<lambda>_ s. Inr s"] by metis
qed

section \<open>The filter of the request\<close>

text \<open>Every path of the response is one that the request allows, with an address of the right size.\<close>

definition path_allowed :: "netresolve_request \<Rightarrow> netresolve_path \<Rightarrow> bool" where
  "path_allowed rq p \<longleftrightarrow> (rq_family rq = AF_UNSPEC \<or> node_family p = rq_family rq) \<and>
     (family_to_length (node_family p) \<noteq> 0 \<longrightarrow> length (node_address p) = family_to_length (node_family p)) \<and>
     length (node_address p) < ADDRESS_SIZE"

definition response_allowed :: "sys \<Rightarrow> bool" where
  "response_allowed s \<longleftrightarrow> (\<forall>p \<in> set (path_list (response_of s)). path_allowed (request_of s) p)"

lemma set_insert_path [simp]: "set (insert_path E p ps) = insert p (set ps)"
proof -
  let ?i = "find_index (\<lambda>q. path_cmp E p q < 0) ps"
  have "set (take ?i ps @ drop ?i ps) = set ps" by simp
  then show ?thesis by (simp only: insert_path_def Let_def set_append list.set) blast
qed

lemma path_allowed_reachability [simp]: "path_allowed rq (check_reachability E o1 p) = path_allowed rq p"
  by (simp add: path_allowed_def check_reachability_def split: option.splits)

lemma path_allowed_new_path:
  "rq_family rq = AF_UNSPEC \<or> rq_family rq = fam \<Longrightarrow> path_allowed rq (new_path rq fam addr idx st pr po prio wt ttl)"
proof -
  have "length (take (ADDRESS_SIZE - 1) (takeWhile (\<lambda>b. b \<noteq> 0) addr)) < ADDRESS_SIZE" by simp
  then show "rq_family rq = AF_UNSPEC \<or> rq_family rq = fam \<Longrightarrow> ?thesis"
    by (auto simp: path_allowed_def new_path_def family_to_length_def)
qed

text \<open>The invariant of adding paths outside of the waiting state, for a fixed request.\<close>

definition adding :: "netresolve_request \<Rightarrow> sys \<Rightarrow> bool" where
  "adding rq s \<longleftrightarrow> request_of s = rq \<and> state_of s \<noteq> STATE_WAITING \<and> response_allowed s"

lemma adding_add_path:
  assumes "adding rq s" and "path_allowed rq p"
  shows "returns F (add_path E ss p s) (adding rq)"
  using assms add_path_response [of s E ss p]
  by (auto simp: adding_def response_allowed_def)

lemma adding_set_services: "adding rq s \<Longrightarrow> adding rq (set_services sl s)"
  by (auto simp: adding_def response_allowed_def set_services_def)

lemma adding_typed_path:
  assumes "adding rq s" and "Null_dereference \<in> F"
  shows "returns F (backend_add_typed_path E ss fam addr idx st pr po prio wt ttl s) (adding rq)"
proof (cases "rq_family rq \<noteq> AF_UNSPEC \<and> rq_family rq \<noteq> fam")
  case True
  then show ?thesis using assms by (auto simp: backend_add_typed_path_def adding_def)
next
  case False
  let ?p = "new_path rq fam addr idx st pr po prio wt ttl"
  have p: "path_allowed rq ?p" using False by (intro path_allowed_new_path) auto
  have rq: "request_of s = rq" using assms(1) by (simp add: adding_def)
  have cb: "returns F (path_callback E ss ?p n a b c t) (adding rq)" if "adding rq t" for n a b c t
    unfolding path_callback_def using that p by (intro adding_add_path) (simp_all add: path_allowed_def)
  have "returns F (netresolve_service_list_query E set_services (rq_servname rq)
      (service_socktype ?p) (service_protocol ?p) 0 (path_callback E ss ?p) s) (adding rq)"
    by (rule returns_service_query [OF cb adding_set_services assms(2,1)])
  moreover have "returns F (add_path E ss ?p s) (adding rq)" using assms(1) p by (rule adding_add_path)
  ultimately show ?thesis using False rq assms(1) by (simp add: backend_add_typed_path_def Let_def)
qed

lemma adding_backend_path:
  assumes "adding rq s" and "Null_dereference \<in> F"
  shows "returns F (netresolve_backend_add_path E ss fam addr idx st pr po prio wt ttl s) (adding rq)"
  unfolding netresolve_backend_add_path_def
  by (intro returns_if returns_bind [OF adding_typed_path] adding_typed_path assms) (simp_all add: assms)



section \<open>Parsing and private data\<close>



text \<open>
  C16: the private data of a backend belongs to the context, not to the query. A second allocation
  for the same backend, as another concurrent query of the context makes it, fails its assertion.
\<close>

theorem new_priv_twice:
  assumes "netresolve_backend_new_priv p s = Inr s'" and "cx_backends (s_ctx s2) = cx_backends (s_ctx s')"
    and "q_backend (s_query s2) = q_backend (s_query s')"
  shows "netresolve_backend_new_priv p2 s2 = Inl Assertion_failed"
proof -
  let ?i = "q_backend (s_query s)"
  obtain b where b: "current_backend s = Some b" "be_data b = None"
    and s': "s' = upd_backend ?i (\<lambda>b. b\<lparr>be_cleanup := True, be_data := Some p\<rparr>) s"
    using assms(1) by (auto simp: netresolve_backend_new_priv_def split: option.splits)
  then have "?i < length (backend_list s)" by (auto simp: current_backend_def split: if_splits)
  moreover have "backend_list s' = (backend_list s)[?i := (backend_list s ! ?i)\<lparr>be_cleanup := True, be_data := Some p\<rparr>]"
    using calculation by (auto simp: s' upd_backend_def backend_list_def split: option.splits)
  moreover have "backend_list s2 = backend_list s'" using assms(2) by (simp add: backend_list_def)
  moreover have "q_backend (s_query s2) = ?i" using assms(3) by (simp add: s' upd_backend_def)
  ultimately have "current_backend s2 = Some ((backend_list s ! ?i)\<lparr>be_cleanup := True, be_data := Some p\<rparr>)"
    by (simp add: current_backend_def)
  then show ?thesis by (simp add: netresolve_backend_new_priv_def)
qed

theorem new_priv_twice_witness:
  "\<exists>s'. netresolve_backend_new_priv (Priv 1) (sample_sys [''dns''] ''x'') = Inr s' \<and>
    netresolve_backend_new_priv (Priv 2) s' = Inl Assertion_failed"
proof -
  obtain s' where s': "netresolve_backend_new_priv (Priv 1) (sample_sys [''dns''] ''x'') = Inr s'"
    by (auto simp: netresolve_backend_new_priv_def current_backend_def sample_backend_def)
  from s' new_priv_twice [OF this refl refl] show ?thesis by blast
qed

end
