(* ===== verification/Strings.thy ===== *)
theory Strings
  imports Backend
begin

text \<open>
  Textual forms, after \<open>lib/string.c\<close>: names of socket types, protocols and families, and the
  request, path and response strings that are printed into the fixed buffer of a query. The
  package name and version, which the build generates, and the optional conversion of DNS packets
  by ldns are parameters.
\<close>

section \<open>Names\<close>

definition socktype_to_string :: "int \<Rightarrow> string" where
  "socktype_to_string socktype =
     (if socktype = 0 then ''any''
      else if socktype = SOCK_DGRAM then ''dgram''
      else if socktype = SOCK_STREAM then ''stream''
      else if socktype = SOCK_SEQPACKET then ''seqpacket''
      else if socktype = SOCK_RAW then ''raw''
      else ''unknown'')"

definition protocol_to_string :: "int \<Rightarrow> string" where
  "protocol_to_string proto =
     (if proto = 0 then ''any''
      else if proto = IPPROTO_UDP then ''udp''
      else if proto = IPPROTO_TCP then ''tcp''
      else if proto = IPPROTO_SCTP then ''sctp''
      else ''unknown'')"

definition netresolve_family_from_string :: "string option \<Rightarrow> int" where
  "netresolve_family_from_string str =
     (if str = None then AF_UNSPEC
      else if str = Some ''ip4'' then AF_INET
      else if str = Some ''ip6'' then AF_INET6
      else if str = Some ''unix'' then AF_UNIX
      else AF_UNSPEC)"

definition netresolve_socktype_from_string :: "string \<Rightarrow> int" where
  "netresolve_socktype_from_string str =
     (if str = ''raw'' then SOCK_RAW
      else if str = ''stream'' then SOCK_STREAM
      else if str = ''dgram'' then SOCK_DGRAM
      else if str = ''seqpacket'' then SOCK_SEQPACKET
      else 0)"

definition netresolve_protocol_from_string :: "string \<Rightarrow> int" where
  "netresolve_protocol_from_string str =
     (if str = ''tcp'' then IPPROTO_TCP
      else if str = ''udp'' then IPPROTO_UDP
      else if str = ''sctp'' then IPPROTO_SCTP
      else 0)"

definition getenv_family :: "env \<Rightarrow> string \<Rightarrow> int \<Rightarrow> int" where
  "getenv_family E name dflt = (case secure_getenv E name of
     None \<Rightarrow> dflt | Some v \<Rightarrow> netresolve_family_from_string (Some v))"

section \<open>Printing into the buffer\<close>

abbreviation QUERY_BUFFER :: nat where "QUERY_BUFFER \<equiv> 1024"

text \<open>
  The text in the buffer and the offset of the write pointer. \<open>vsnprintf\<close> cuts what does not
  fit but returns the full length, by which the pointer moves. With the pointer behind the end the
  remaining size is negative, that is a huge unsigned number, and the next call writes outside.
\<close>

type_synonym printer = "string \<times> nat"

definition bprintf :: "string \<Rightarrow> printer \<Rightarrow> printer res" where
  "bprintf str pr = (case pr of (out, pos) \<Rightarrow>
     if pos > QUERY_BUFFER then Inl Out_of_bounds
     else Inr (out @ take (QUERY_BUFFER - 1 - pos) str, pos + length str))"

definition hex_digit :: "nat \<Rightarrow> char" where
  "hex_digit n = ''0123456789abcdef'' ! (n mod 16)"

definition hex_byte :: "byte \<Rightarrow> string" where
  "hex_byte b = [hex_digit (unat b div 16), hex_digit (unat b)]"

text \<open>The text of one path.\<close>

definition ifname_string :: "env \<Rightarrow> int \<Rightarrow> string" where
  "ifname_string E ifindex =
     (if ifindex = 0 then []
      else CHR ''%'' # (case if_indextoname E ifindex of Some n \<Rightarrow> n | None \<Rightarrow> show_int ifindex))"

definition path_string :: "env \<Rightarrow> netresolve_query \<Rightarrow> nat \<Rightarrow> string res" where
  "path_string E q i =
     rbind (netresolve_query_get_node_info q i) (\<lambda>(family, address, ifindex).
     rbind (netresolve_query_get_service_info q i) (\<lambda>(socktype, protocol, port).
     rbind (netresolve_query_get_aux_info q i) (\<lambda>(priority, weight, ttl).
       (let addrstr = (if family = AF_INET \<or> family = AF_INET6
              then inet_ntop E family (mem_read (family_to_length family) address) else [])
        in Inr (if family = AF_UNIX
              then ''unix '' @ string_of_bytes address @ '' '' @ socktype_to_string socktype
              else ''ip '' @ addrstr @ ifname_string E ifindex @ '' '' @ socktype_to_string socktype @ '' '' @
                protocol_to_string protocol @ '' '' @ show_int port @ '' '' @ show_int priority @ '' '' @
                show_int weight @ '' '' @ show_int ttl)))))"

definition string_add_path :: "env \<Rightarrow> netresolve_query \<Rightarrow> nat \<Rightarrow> printer \<Rightarrow> printer res" where
  "string_add_path E q i pr = rbind (path_string E q i) (\<lambda>str. bprintf str pr)"

definition bprintf_opt :: "string \<Rightarrow> string option \<Rightarrow> printer \<Rightarrow> printer res" where
  "bprintf_opt prefix arg pr =
     (case arg of None \<Rightarrow> Inr pr | Some a \<Rightarrow> bprintf (prefix @ a @ [NL]) pr)"

definition netresolve_get_request_string :: "string \<Rightarrow> string \<Rightarrow> sys \<Rightarrow> string res" where
  "netresolve_get_request_string package version s =
     rbind (bprintf (''request '' @ package @ '' '' @ version @ [NL]) ([], 0)) (\<lambda>pr.
     rbind (bprintf_opt ''node '' (netresolve_backend_get_nodename s) pr) (\<lambda>pr.
     rbind (bprintf_opt ''service '' (netresolve_backend_get_servname s) pr) (\<lambda>pr.
     rbind (bprintf [NL] pr) (\<lambda>pr. Inr (fst pr)))))"

definition netresolve_get_path_string :: "env \<Rightarrow> netresolve_query \<Rightarrow> nat \<Rightarrow> string res" where
  "netresolve_get_path_string E q i = rbind (string_add_path E q i ([], 0)) (\<lambda>pr. Inr (fst pr))"

text \<open>
  The answer is printed byte by byte; with ldns it is printed once more in its textual form, or
  NULL is returned when the packet cannot be parsed.
\<close>

definition print_dns :: "byte list \<Rightarrow> printer \<Rightarrow> printer res" where
  "print_dns answer pr =
     rbind (bprintf (''dns '' @ show_int (int (length answer)) @ '' 0x'') pr) (\<lambda>pr.
     rbind (foreach (\<lambda>b. bprintf (hex_byte b)) answer pr) (\<lambda>pr. bprintf [NL] pr))"

definition print_tail :: "bool \<Rightarrow> printer \<Rightarrow> string option res" where
  "print_tail secure pr =
     rbind (if secure then bprintf (''secure'' @ [NL]) pr else Inr pr) (\<lambda>pr.
     rbind (bprintf [NL] pr) (\<lambda>pr. Inr (Some (fst pr))))"

definition netresolve_get_response_string ::
    "env \<Rightarrow> (byte list \<Rightarrow> string option) option \<Rightarrow> string \<Rightarrow> string \<Rightarrow> netresolve_query \<Rightarrow> string option res" where
  "netresolve_get_response_string E ldns package version q =
     rbind (bprintf (''response '' @ package @ '' '' @ version @ [NL]) ([], 0)) (\<lambda>pr.
     rbind (bprintf_opt ''name '' (netresolve_query_get_node_name q) pr) (\<lambda>pr.
     rbind (bprintf_opt ''service '' (netresolve_query_get_service_name q) pr) (\<lambda>pr.
     rbind (foreach (\<lambda>i pr. rbind (string_add_path E q i pr) (bprintf [NL]))
              [0..<netresolve_query_get_count q] pr) (\<lambda>pr.
       (case netresolve_query_get_dns_answer q of (answer, len) \<Rightarrow>
          if len = 0 then print_tail (netresolve_query_get_secure q) pr
          else (case answer of
                  None \<Rightarrow> Inl Null_dereference
                | Some a \<Rightarrow> rbind (print_dns a pr) (\<lambda>pr.
                    (case ldns of
                       None \<Rightarrow> print_tail (netresolve_query_get_secure q) pr
                     | Some f \<Rightarrow> (case f a of
                           None \<Rightarrow> Inr None
                         | Some txt \<Rightarrow> rbind (bprintf (txt @ [NL]) pr)
                             (print_tail (netresolve_query_get_secure q)))))))))))"

section \<open>Properties\<close>

text \<open>
  C17: the names of socket types and protocols are read back: a value that has a name of its own is
  recovered from it.
\<close>

theorem names_round_trip:
  "(t \<in> {0, SOCK_STREAM, SOCK_DGRAM, SOCK_RAW, SOCK_SEQPACKET} \<longleftrightarrow> socktype_to_string t \<noteq> ''unknown'') \<and>
   (socktype_to_string t \<noteq> ''unknown'' \<longrightarrow> netresolve_socktype_from_string (socktype_to_string t) = t) \<and>
   (p \<in> {0, IPPROTO_TCP, IPPROTO_UDP, IPPROTO_SCTP} \<longleftrightarrow> protocol_to_string p \<noteq> ''unknown'') \<and>
   (protocol_to_string p \<noteq> ''unknown'' \<longrightarrow> netresolve_protocol_from_string (protocol_to_string p) = p)"
  by (auto simp: socktype_to_string_def netresolve_socktype_from_string_def
      protocol_to_string_def netresolve_protocol_from_string_def)

theorem names_round_trip_witness:
  "netresolve_socktype_from_string (socktype_to_string SOCK_SEQPACKET) = SOCK_SEQPACKET \<and>
   netresolve_protocol_from_string (protocol_to_string IPPROTO_SCTP) = IPPROTO_SCTP"
  using names_round_trip [of SOCK_SEQPACKET IPPROTO_SCTP] by (simp add: socktype_to_string_def protocol_to_string_def)

text \<open>A sequence of prints: what fits is the concatenation; what does not fit overflows later.\<close>

lemma bprintf_fits:
  "length out + length str < QUERY_BUFFER \<Longrightarrow>
     bprintf str (out, length out) = Inr (out @ str, length (out @ str))"
  by (simp add: bprintf_def)

lemma foreach_bprintf_fits:
  "length out + length (concat strs) < QUERY_BUFFER \<Longrightarrow>
     foreach bprintf strs (out, length out) = Inr (out @ concat strs, length (out @ concat strs))"
proof (induction strs arbitrary: out)
  case (Cons str strs)
  then have "bprintf str (out, length out) = Inr (out @ str, length (out @ str))"
    by (intro bprintf_fits) simp
  then show ?case using Cons.IH [of "out @ str"] Cons.prems by simp
qed simp

lemma foreach_bprintf_overflow:
  "pos + length (concat strs) > QUERY_BUFFER \<Longrightarrow>
     foreach bprintf (strs @ [str]) (out, pos) = Inl Out_of_bounds"
proof (induction strs arbitrary: out pos)
  case Nil
  then show ?case by (simp add: bprintf_def)
next
  case (Cons st strs)
  show ?case
  proof (cases "pos > QUERY_BUFFER")
    case False
    then show ?thesis using Cons.IH [of "pos + length st"] Cons.prems by (simp add: bprintf_def)
  qed (simp add: bprintf_def)
qed

definition request_pieces :: "string \<Rightarrow> string \<Rightarrow> sys \<Rightarrow> string list" where
  "request_pieces package version s =
     [''request '' @ package @ '' '' @ version @ [NL]] @
     (case netresolve_backend_get_nodename s of None \<Rightarrow> [] | Some n \<Rightarrow> [''node '' @ n @ [NL]]) @
     (case netresolve_backend_get_servname s of None \<Rightarrow> [] | Some n \<Rightarrow> [''service '' @ n @ [NL]])"

lemma request_string_alt:
  "netresolve_get_request_string package version s =
     rbind (foreach bprintf (request_pieces package version s @ [[NL]]) ([], 0)) (\<lambda>pr. Inr (fst pr))"
  by (simp add: netresolve_get_request_string_def request_pieces_def bprintf_opt_def rbind_assoc
      split: option.splits)



end
