(* ===== verification/Dispatch.thy ===== *)
theory Dispatch
  imports Local_Code
begin

text \<open>
  Delivering events: \<open>netresolve_dispatch\<close> of \<open>lib/event.c\<close> and the waiting side of the
  two loops, \<open>lib/epoll.c\<close> and \<open>lib/select.c\<close>. A context can have several queries, so
  the state here is a world with all of them; a query is run by focusing on it. What the kernel
  reports as ready is a parameter. Callbacks work on the query they belong to; a callback that
  creates or destroys queries of the same context is outside of the model.
\<close>

section \<open>Worlds\<close>

record world =
  wd_os :: os
  wd_ctx :: netresolve_context
  wd_queries :: "netresolve_query list"

definition focus :: "nat \<Rightarrow> world \<Rightarrow> sys" where
  "focus i wd = \<lparr>s_os = wd_os wd, s_ctx = wd_ctx wd, s_query = wd_queries wd ! i\<rparr>"

definition unfocus :: "nat \<Rightarrow> world \<Rightarrow> sys \<Rightarrow> world" where
  "unfocus i wd s = \<lparr>wd_os = s_os s, wd_ctx = s_ctx s, wd_queries = (wd_queries wd)[i := s_query s]\<rparr>"

definition on_query :: "nat \<Rightarrow> (sys \<Rightarrow> sys res) \<Rightarrow> world \<Rightarrow> world res" where
  "on_query i f wd =
     (if i < length (wd_queries wd) then rbind (f (focus i wd)) (\<lambda>s. Inr (unfocus i wd s))
      else Inl Out_of_bounds)"

text \<open>The query that a watch belongs to; a watch of no query would be a dangling pointer.\<close>

definition query_of :: "nat \<Rightarrow> world \<Rightarrow> nat" where
  "query_of w wd = find_index (\<lambda>q. w \<in> w_id ` set (q_watches q)) (wd_queries wd)"

definition netresolve_dispatch :: "nat \<Rightarrow> code \<Rightarrow> nat option \<Rightarrow> int \<Rightarrow> world \<Rightarrow> world res" where
  "netresolve_dispatch n C watch events wd =
     (case watch of
        None \<Rightarrow> Inl Assertion_failed
      | Some w \<Rightarrow> on_query (query_of w wd) (\<lambda>s.
          (case find (\<lambda>x. w_id x = w) (q_watches (s_query s)) of
             None \<Rightarrow> Inl Out_of_bounds
           | Some x \<Rightarrow> netresolve_query_dispatch n C x events s)) wd)"

section \<open>epoll\<close>

definition upd_epoll :: "(netresolve_epoll \<Rightarrow> netresolve_epoll) \<Rightarrow> world \<Rightarrow> world" where
  "upd_epoll f wd = wd\<lparr>wd_ctx := (wd_ctx wd)\<lparr>cx_epoll := f (cx_epoll (wd_ctx wd))\<rparr>\<rparr>"

text \<open>
  The kernel's answer to \<open>epoll_wait\<close>, given the loop and the number of earlier calls: an error,
  or the pointers of ready watches with their events.
\<close>

type_synonym epoll_wait = "nat \<Rightarrow> netresolve_epoll \<Rightarrow> (nat \<times> int) list option"

definition pending_event :: "nat \<Rightarrow> world \<Rightarrow> nat option \<times> int" where
  "pending_event i wd =
     (case ep_events (cx_epoll (wd_ctx wd)) of
        None \<Rightarrow> (None, 0) | Some evs \<Rightarrow> if i < length evs then evs ! i else (None, 0))"

definition dispatch_pending :: "nat \<Rightarrow> code \<Rightarrow> nat \<Rightarrow> world \<Rightarrow> world res" where
  "dispatch_pending n C i wd =
     (case pending_event i wd of
        (None, _) \<Rightarrow> Inr wd
      | (Some w, events) \<Rightarrow> netresolve_dispatch n C (Some w) events wd)"

definition dispatch_events :: "nat \<Rightarrow> code \<Rightarrow> epoll_wait \<Rightarrow> world \<Rightarrow> (nat \<times> world) res" where
  "dispatch_events n C wait wd =
     (case wait (os_clock (wd_os wd)) (cx_epoll (wd_ctx wd)) of
        None \<Rightarrow> Inl Aborted
      | Some evs \<Rightarrow>
          (let wd1 = upd_epoll (\<lambda>l. l\<lparr>ep_nevents := int (length evs),
                 ep_events := Some (map (\<lambda>(w, e). (Some w, e)) evs)\<rparr>) wd;
               wd2 = wd1\<lparr>wd_os := (wd_os wd1)\<lparr>os_clock := Suc (os_clock (wd_os wd1))\<rparr>\<rparr>
           in rbind (foreach (dispatch_pending n C) [0..<length evs] wd2) (\<lambda>wd. Inr (length evs, wd))))"

text \<open>Both loops may run forever; their fuel bounds the number of waits.\<close>

fun netresolve_epoll_dispatch :: "nat \<Rightarrow> nat \<Rightarrow> code \<Rightarrow> epoll_wait \<Rightarrow> world \<Rightarrow> world res" where
  "netresolve_epoll_dispatch 0 n C wait wd = Inl Out_of_fuel"
| "netresolve_epoll_dispatch (Suc k) n C wait wd =
     rbind (dispatch_events n C wait wd) (\<lambda>(count, wd).
       if count > 0 then netresolve_epoll_dispatch k n C wait wd else Inr wd)"

fun netresolve_epoll_wait :: "nat \<Rightarrow> nat \<Rightarrow> code \<Rightarrow> epoll_wait \<Rightarrow> world \<Rightarrow> world res" where
  "netresolve_epoll_wait 0 n C wait wd =
     (if ep_count (cx_epoll (wd_ctx wd)) > 0 then Inl Out_of_fuel else Inr wd)"
| "netresolve_epoll_wait (Suc k) n C wait wd =
     (if ep_count (cx_epoll (wd_ctx wd)) > 0
      then rbind (dispatch_events n C wait wd) (\<lambda>(_, wd). netresolve_epoll_wait k n C wait wd)
      else Inr wd)"

text \<open>
  Installing the loop. A failed \<open>epoll_create1\<close> frees the loop structure, which its owner
  still holds: \<open>netresolve_epoll_fd\<close> then frees it again, and for the loop inside of the context
  the pointer was never one to free. The user data of another loop is not an epoll structure.
\<close>

abbreviation EPOLL_MAXEVENTS :: nat where "EPOLL_MAXEVENTS \<equiv> 128"

definition netresolve_epoll_install :: "bool \<Rightarrow> os \<Rightarrow> netresolve_context \<Rightarrow> (bool \<times> os \<times> netresolve_context) res" where
  "netresolve_epoll_install internal o1 c =
     rbind (assert_that (ep_events (cx_epoll c) = None) c) (\<lambda>c.
       (case alloc_fd o1 of
          None \<Rightarrow> if internal then Inl Invalid_free else Inr (False, o1, c)
        | Some (fd, o2) \<Rightarrow>
            rbind (netresolve_set_fd_callbacks (if internal then FD_EPOLL_INTERNAL else FD_EPOLL)
                (c\<lparr>cx_epoll := (cx_epoll c)\<lparr>ep_fd := fd, ep_events := Some []\<rparr>\<rparr>)) (\<lambda>c.
              Inr (True, o2, c))))"

definition netresolve_epoll_fd :: "os \<Rightarrow> netresolve_context \<Rightarrow> (int \<times> os \<times> netresolve_context) res" where
  "netresolve_epoll_fd o1 c =
     (if cx_callbacks c \<in> {FD_SELECT, FD_APPLICATION} then Inl Out_of_bounds
      else if cx_callbacks c \<noteq> FD_NONE then Inr (ep_fd (cx_epoll c), o1, c)
      else rbind (netresolve_epoll_install False o1 (c\<lparr>cx_epoll := zero_epoll\<rparr>)) (\<lambda>(ok, o2, c2).
             if ok then Inr (ep_fd (cx_epoll c2), o2, c2) else Inl Invalid_free))"

section \<open>select\<close>

definition netresolve_select_apply_fds :: "netresolve_context \<Rightarrow> int list \<Rightarrow> int list \<Rightarrow> int \<times> int list \<times> int list" where
  "netresolve_select_apply_fds c rfds wfds =
     (let l = cx_select c; fds = map int [0..<nat (se_nfds l)]
      in (se_nfds l,
          fold (\<lambda>fd s. if FD_ISSET fd (se_rfds l) then FD_SET fd s else s) fds rfds,
          fold (\<lambda>fd s. if FD_ISSET fd (se_wfds l) then FD_SET fd s else s) fds wfds))"

definition netresolve_select_dispatch_read :: "nat \<Rightarrow> code \<Rightarrow> int \<Rightarrow> world \<Rightarrow> world res" where
  "netresolve_select_dispatch_read n C fd wd =
     (let l = cx_select (wd_ctx wd)
      in rbind (assert_that (fd \<ge> 0 \<and> fd < se_nfds l \<and> FD_ISSET fd (se_rfds l)) wd)
           (netresolve_dispatch n C (se_sources l fd) POLLIN))"

definition netresolve_select_dispatch_write :: "nat \<Rightarrow> code \<Rightarrow> int \<Rightarrow> world \<Rightarrow> world res" where
  "netresolve_select_dispatch_write n C fd wd =
     (let l = cx_select (wd_ctx wd)
      in rbind (assert_that (fd \<ge> 0 \<and> fd < se_nfds l \<and> FD_ISSET fd (se_wfds l)) wd)
           (netresolve_dispatch n C (se_sources l fd) POLLOUT))"

text \<open>
  \<open>select()\<close> answers with the ready descriptors of the two sets, or with an error, which
  leaves the sets as they were given.
\<close>

type_synonym select_call = "int \<Rightarrow> int list \<Rightarrow> int list \<Rightarrow> (int list \<times> int list) option"

definition netresolve_select_wait :: "nat \<Rightarrow> code \<Rightarrow> select_call \<Rightarrow> world \<Rightarrow> world res" where
  "netresolve_select_wait n C select wd =
     (case netresolve_select_apply_fds (wd_ctx wd) [] [] of (nfds, rfds, wfds) \<Rightarrow>
       (case (case select nfds rfds wfds of None \<Rightarrow> (rfds, wfds) | Some rw \<Rightarrow> rw) of (r, w) \<Rightarrow>
          foreach (\<lambda>fd wd.
            rbind (if FD_ISSET fd r then netresolve_select_dispatch_read n C fd wd else Inr wd) (\<lambda>wd.
            if FD_ISSET fd w then netresolve_select_dispatch_write n C fd wd else Inr wd))
            (map int [0..<nat nfds]) wd))"

end
