(* ===== verification/Context.thy ===== *)
theory Context
  imports Dispatch Strings Request
begin

text \<open>
  Contexts and the creation of queries: \<open>lib/context.c\<close>, the constructors of
  \<open>lib/query.c\<close>, and the constructors of nonblocking contexts in \<open>lib/epoll.c\<close> and
  \<open>lib/select.c\<close>. A query is named by its position in the list of its context.
\<close>

section \<open>Backends of a context\<close>

text \<open>
  Loading a backend: the loader answers whether the shared object is found and which entry
  points it has. A failure gives NULL.
\<close>

definition load_backend :: "env \<Rightarrow> string list \<Rightarrow> netresolve_backend option" where
  "load_backend E take_settings =
     (case take_settings of
        [] \<Rightarrow> None
      | first # _ \<Rightarrow>
          (let mandatory = (first \<noteq> [] \<and> hd first = CHR ''+'');
               name = (if mandatory then tl first else first);
               filename = take 1023 (''libnetresolve-backend-'' @ name @ ''.so.0'')
           in if \<not> dlopen E filename then None
              else Some \<lparr>be_mandatory = mandatory, be_settings = take_settings,
                be_setup_forward = dlsym E filename ''query_forward'',
                be_setup_reverse = dlsym E filename ''query_reverse'',
                be_setup_dns = dlsym E filename ''query_dns'',
                be_cleanup = False, be_data = None\<rparr>))"

text \<open>The end of one backend's settings: an empty first word is skipped.\<close>

definition end_backend :: "env \<Rightarrow> string list \<Rightarrow> netresolve_backend list option \<Rightarrow> netresolve_backend list option" where
  "end_backend E settings backends =
     (if settings \<noteq> [] \<and> hd settings \<noteq> []
      then Some ((case backends of None \<Rightarrow> [] | Some bs \<Rightarrow> bs) @
             (case load_backend E settings of None \<Rightarrow> [] | Some b \<Rightarrow> [b]))
      else backends)"

fun scan_backends ::
    "env \<Rightarrow> string \<Rightarrow> string \<Rightarrow> string list \<Rightarrow> netresolve_backend list option \<Rightarrow> netresolve_backend list option" where
  "scan_backends E [] setup1 settings backends = end_backend E (settings @ [setup1]) backends"
| "scan_backends E (c # cs) setup1 settings backends =
     (if c = CHR '' '' then scan_backends E cs [] (settings @ [setup1]) backends
      else if c = CHR ''|'' then scan_backends E cs [] [] (end_backend E (settings @ [setup1]) backends)
      else scan_backends E cs (setup1 @ [c]) settings backends)"

text \<open>The default list of backends; what follows the last one depends on the build.\<close>

definition default_backends :: "string \<Rightarrow> string" where
  "default_backends extra = ''unix|any|loopback|numerichost|hosts|hostname|avahi'' @ extra"

definition netresolve_set_backend_string ::
    "env \<Rightarrow> string \<Rightarrow> string option \<Rightarrow> netresolve_context \<Rightarrow> netresolve_context" where
  "netresolve_set_backend_string E extra str c =
     (let str = (case str of None \<Rightarrow> default_backends extra | Some s \<Rightarrow> s)
      in c\<lparr>cx_backends := if str = [] then None else scan_backends E str [] [] None\<rparr>)"

section \<open>Contexts\<close>

definition netresolve_context_new :: "env \<Rightarrow> netresolve_context" where
  "netresolve_context_new E = zero_context\<lparr>
     cx_epoll := zero_epoll\<lparr>ep_fd := - 1\<rparr>,
     cx_force_family := getenv_family E ''NETRESOLVE_FORCE_FAMILY'' AF_UNSPEC,
     cx_request := zero_request\<lparr>
       rq_default_loopback := getenv_bool E ''NETRESOLVE_FLAG_DEFAULT_LOOPBACK'' False,
       rq_clamp_ttl := getenv_int E ''NETRESOLVE_CLAMP_TTL'' (- 1),
       rq_request_timeout := getenv_int E ''NETRESOLVE_REQUEST_TIMEOUT'' 15000,
       rq_result_timeout := getenv_int E ''NETRESOLVE_RESULT_TIMEOUT'' 5000\<rparr>\<rparr>"

definition netresolve_context_set_options ::
    "netresolve_option list \<Rightarrow> netresolve_context \<Rightarrow> netresolve_context" where
  "netresolve_context_set_options opts c =
     c\<lparr>cx_request := snd (netresolve_request_set_options_from_va (cx_request c) opts)\<rparr>"

text \<open>Destroying one query of a context unlinks it.\<close>

definition free_query :: "nat \<Rightarrow> code \<Rightarrow> nat \<Rightarrow> world \<Rightarrow> world res" where
  "free_query n C i wd =
     rbind (on_query i (netresolve_query_free n C) wd) (\<lambda>wd.
       Inr (wd\<lparr>wd_queries := take i (wd_queries wd) @ drop (Suc i) (wd_queries wd)\<rparr>))"

text \<open>The cleanup of the installed loop closes the epoll descriptor.\<close>

definition cleanup_loop :: "world \<Rightarrow> world res" where
  "cleanup_loop wd =
     (let c = wd_ctx wd in
      if cx_callbacks c \<in> {FD_EPOLL, FD_EPOLL_INTERNAL} then
        rbind (epoll_cleanup_members (cx_epoll c)) (\<lambda>l.
          Inr (wd\<lparr>wd_ctx := c\<lparr>cx_epoll := l\<rparr>,
            wd_os := (wd_os wd)\<lparr>os_open_fds := remove1 (ep_fd (cx_epoll c)) (os_open_fds (wd_os wd))\<rparr>\<rparr>))
      else if cx_callbacks c = FD_SELECT then
        rbind (select_cleanup (cx_select c)) (\<lambda>l. Inr (wd\<lparr>wd_ctx := c\<lparr>cx_select := l\<rparr>\<rparr>))
      else Inr wd)"

text \<open>What remains of a destroyed context is the state of the process.\<close>

definition netresolve_context_free :: "nat \<Rightarrow> code \<Rightarrow> env \<Rightarrow> string \<Rightarrow> world \<Rightarrow> os res" where
  "netresolve_context_free n C E extra wd =
     rbind (foreach (\<lambda>_. free_query n C 0) (wd_queries wd) wd) (\<lambda>wd.
     rbind (cleanup_loop (wd\<lparr>wd_ctx := netresolve_set_backend_string E extra (Some []) (wd_ctx wd)\<rparr>)) (\<lambda>wd.
       Inr (wd_os wd)))"

definition netresolve_epoll_new :: "env \<Rightarrow> os \<Rightarrow> (os \<times> netresolve_context) res" where
  "netresolve_epoll_new E o1 =
     rbind (netresolve_epoll_fd o1 (netresolve_context_new E)) (\<lambda>(fd, o2, c). Inr (o2, c))"

definition netresolve_select_new :: "env \<Rightarrow> netresolve_context res" where
  "netresolve_select_new E = netresolve_set_fd_callbacks FD_SELECT (netresolve_context_new E)"

section \<open>Creating queries\<close>

definition netresolve_query_new ::
    "env \<Rightarrow> string \<Rightarrow> netresolve_request_type \<Rightarrow> world \<Rightarrow> (nat \<times> world) res" where
  "netresolve_query_new E extra type wd =
     (let c = (if cx_backends (wd_ctx wd) = None
               then netresolve_set_backend_string E extra (secure_getenv E ''NETRESOLVE_BACKENDS'') (wd_ctx wd)
               else wd_ctx wd)
      in if cx_backends c = None \<or> cx_backends c = Some [] then Inl Aborted
         else Inr (length (wd_queries wd), wd\<lparr>wd_ctx := c,
           wd_queries := wd_queries wd @ [zero_query\<lparr>q_request := (cx_request c)\<lparr>rq_type := type\<rparr>\<rparr>]\<rparr>))"

text \<open>The context that is used: the given one, or a static one that is created on demand.\<close>

definition query_context ::
    "env \<Rightarrow> (netresolve_context \<times> netresolve_query list) option \<Rightarrow> (netresolve_context \<times> netresolve_query list) option \<Rightarrow>
     (netresolve_context \<times> netresolve_query list) \<times> (netresolve_context \<times> netresolve_query list) option" where
  "query_context E context default_context =
     (case context of
        Some c \<Rightarrow> (c, default_context)
      | None \<Rightarrow> (let c = (case default_context of None \<Rightarrow> (netresolve_context_new E, []) | Some d \<Rightarrow> d)
                 in (c, Some c)))"

text \<open>Everything up to the first state change: \<open>None\<close> is the NULL for an unknown option.\<close>

definition prepare_query ::
    "nat \<Rightarrow> code \<Rightarrow> env \<Rightarrow> string \<Rightarrow> query_callback option \<Rightarrow> user_data \<Rightarrow> netresolve_request_type \<Rightarrow>
     netresolve_option list \<Rightarrow> world \<Rightarrow> (nat option \<times> world) res" where
  "prepare_query n C E extra callback data type opts wd =
     rbind (netresolve_query_new E extra type wd) (\<lambda>(i, wd).
       (case netresolve_request_set_options_from_va (q_request (wd_queries wd ! i)) opts of (ok, r) \<Rightarrow>
         (let r = (if ok \<and> cx_force_family (wd_ctx wd) \<noteq> 0 then r\<lparr>rq_family := cx_force_family (wd_ctx wd)\<rparr> else r);
              q = (wd_queries wd ! i)\<lparr>q_callback := callback, q_user_data := data, q_request := r\<rparr>;
              wd = wd\<lparr>wd_queries := (wd_queries wd)[i := q]\<rparr>
          in if ok then
               if cx_callbacks (wd_ctx wd) = FD_NONE then
                 rbind (netresolve_epoll_install True (wd_os wd) (wd_ctx wd)) (\<lambda>(_, o1, c).
                   Inr (Some i, wd\<lparr>wd_os := o1, wd_ctx := c\<rparr>))
               else Inr (Some i, wd)
             else rbind (free_query n C i wd) (\<lambda>wd. Inr (None, wd)))))"

text \<open>
  Starting a query; in blocking mode the context's own loop runs until nothing is registered any
  more. \<open>k\<close> bounds the number of waits.
\<close>

definition netresolve_query_start ::
    "nat \<Rightarrow> nat \<Rightarrow> code \<Rightarrow> epoll_wait \<Rightarrow> nat \<Rightarrow> world \<Rightarrow> world res" where
  "netresolve_query_start k n C wait i wd =
     rbind (on_query i (netresolve_query_set_state n C STATE_SETUP) wd) (\<lambda>wd.
       if cx_callbacks (wd_ctx wd) = FD_EPOLL_INTERNAL then netresolve_epoll_wait k n C wait wd else Inr wd)"

definition query_start_new ::
    "nat \<Rightarrow> nat \<Rightarrow> code \<Rightarrow> env \<Rightarrow> string \<Rightarrow> epoll_wait \<Rightarrow> query_callback option \<Rightarrow> user_data \<Rightarrow>
     netresolve_request_type \<Rightarrow> netresolve_option list \<Rightarrow> world \<Rightarrow> (nat option \<times> world) res" where
  "query_start_new k n C E extra wait callback data type opts wd =
     rbind (prepare_query n C E extra callback data type opts wd) (\<lambda>(h, wd).
       (case h of
          None \<Rightarrow> Inr (None, wd)
        | Some i \<Rightarrow> rbind (netresolve_query_start k n C wait i wd) (\<lambda>wd. Inr (Some i, wd))))"

definition netresolve_query_forward ::
    "nat \<Rightarrow> nat \<Rightarrow> code \<Rightarrow> env \<Rightarrow> string \<Rightarrow> epoll_wait \<Rightarrow> string option \<Rightarrow> string option \<Rightarrow>
     query_callback option \<Rightarrow> user_data \<Rightarrow> world \<Rightarrow> (nat option \<times> world) res" where
  "netresolve_query_forward k n C E extra wait nodename servname callback data =
     query_start_new k n C E extra wait callback data REQUEST_FORWARD
       [OPTION_NODE_NAME nodename, OPTION_SERVICE_NAME servname]"

definition netresolve_query_reverse ::
    "nat \<Rightarrow> nat \<Rightarrow> code \<Rightarrow> env \<Rightarrow> string \<Rightarrow> epoll_wait \<Rightarrow> int \<Rightarrow> byte list \<Rightarrow> int \<Rightarrow> int \<Rightarrow> int \<Rightarrow>
     query_callback option \<Rightarrow> user_data \<Rightarrow> world \<Rightarrow> (nat option \<times> world) res" where
  "netresolve_query_reverse k n C E extra wait family address ifindex protocol port callback data wd =
     (if family \<noteq> AF_INET \<and> family \<noteq> AF_INET6 then Inr (None, wd)
      else query_start_new k n C E extra wait callback data REQUEST_REVERSE
        [if family = AF_INET then OPTION_IP4_ADDRESS address else OPTION_IP6_ADDRESS address,
         OPTION_IFINDEX ifindex, OPTION_PROTOCOL protocol, OPTION_PORT port] wd)"

definition netresolve_query_dns ::
    "nat \<Rightarrow> nat \<Rightarrow> code \<Rightarrow> env \<Rightarrow> string \<Rightarrow> epoll_wait \<Rightarrow> string option \<Rightarrow> int \<Rightarrow> int \<Rightarrow>
     query_callback option \<Rightarrow> user_data \<Rightarrow> world \<Rightarrow> (nat option \<times> world) res" where
  "netresolve_query_dns k n C E extra wait dname cls type callback data =
     query_start_new k n C E extra wait callback data REQUEST_DNS
       [OPTION_DNS_NAME dname, OPTION_DNS_CLASS cls, OPTION_DNS_TYPE type]"

section \<open>The list of backends\<close>

text \<open>The reference: cut the text at every bar, and each piece at every space.\<close>

fun split_on :: "char \<Rightarrow> string \<Rightarrow> string list" where
  "split_on c [] = [[]]"
| "split_on c (x # xs) =
     (if x = c then [] # split_on c xs else (x # hd (split_on c xs)) # tl (split_on c xs))"

definition backend_settings :: "string \<Rightarrow> string list list" where
  "backend_settings str = map (split_on CHR '' '') (split_on CHR ''|'' str)"

lemma split_on_nonempty [simp]: "split_on c xs \<noteq> []"
  by (cases xs) simp_all

lemma backend_settings_cons:
  assumes "c \<noteq> CHR ''|''"
  shows "backend_settings (c # cs) =
    (if c = CHR '' '' then [] # hd (backend_settings cs)
     else (c # hd (hd (backend_settings cs))) # tl (hd (backend_settings cs))) # tl (backend_settings cs)"
  using assms by (simp add: backend_settings_def hd_map map_tl)

lemma backend_settings_nonempty [simp]: "backend_settings str \<noteq> []" "hd (backend_settings str) \<noteq> []"
  by (simp_all add: backend_settings_def hd_map)

lemma backend_settings_simps [simp]:
  "backend_settings [] = [[[]]]" "backend_settings (CHR ''|'' # cs) = [[]] # backend_settings cs"
  by (simp_all add: backend_settings_def)

text \<open>The scanner works off the pieces one after the other, the first one completing what it holds.\<close>

lemma scan_backends_foldl:
  "scan_backends E cs setup1 settings bs =
     foldl (\<lambda>bs ss. end_backend E ss bs) bs
       ((settings @ (setup1 @ hd (hd (backend_settings cs))) # tl (hd (backend_settings cs))) # tl (backend_settings cs))"
proof (induction cs arbitrary: setup1 settings bs)
  case Nil
  show ?case by simp
next
  case (Cons c cs)
  show ?case
  proof (cases "c = CHR ''|''")
    case True
    have "[] @ ([] @ hd (hd (backend_settings cs))) # tl (hd (backend_settings cs)) = hd (backend_settings cs)"
      by simp
    then show ?thesis using Cons.IH [of "[]" "[]"] True by simp
  next
    case False
    then show ?thesis
      using Cons.IH [of "[]" "settings @ [setup1]" bs] Cons.IH [of "setup1 @ [c]" settings bs]
      by (simp add: backend_settings_cons)
  qed
qed

lemma foldl_end_backend:
  "foldl (\<lambda>bs ss. end_backend E ss bs) bs sss =
     (let good = filter (\<lambda>ss. ss \<noteq> [] \<and> hd ss \<noteq> []) sss
      in if good = [] then bs
         else Some ((case bs of None \<Rightarrow> [] | Some bs \<Rightarrow> bs) @ List.map_filter (load_backend E) good))"
  by (induction sss arbitrary: bs) (auto simp: end_backend_def Let_def map_filter_simps split: option.splits)


section \<open>New queries\<close>

text \<open>The bookkeeping of a context between calls, without reference to one query.\<close>

definition ctx_inv :: "world \<Rightarrow> bool" where
  "ctx_inv wd \<longleftrightarrow> tidy \<lparr>s_os = wd_os wd, s_ctx = wd_ctx wd, s_query = zero_query\<rparr>"

lemma tidy_new_query:
  assumes "tidy \<lparr>s_os = o1, s_ctx = c, s_query = zero_query\<rparr>"
    and "q_watches q = []" "q_nfds q = 0" "\<And>sl. get_slot sl q = None"
  shows "tidy \<lparr>s_os = o1, s_ctx = c, s_query = q\<rparr>"
  using tidy_query_cong [OF assms(1), of "\<lambda>_. q"] assms(2-4)
  by (simp add: upd_query_def zero_defs get_slot_def split: timeout_slot.splits)

end
