(* ===== verification/Blocking.thy ===== *)
theory Blocking
  imports Context
begin

text \<open>
  All queries of a context together: what one query does leaves the watches of the others
  registered, an event that is delivered always finds its watch, and the loop of the blocking mode
  ends with every query finished. The facts rest on the contract of backends that answer at once.
\<close>

section \<open>All watches are timeouts\<close>

lemma slot_injective:
  assumes "tidy s" and "get_slot a (s_query s) = Some w" and "get_slot b (s_query s) = Some w"
  shows "a = b"
proof -
  obtain f g where "timer_watch w f (slot_callback a) DATA_NULL \<in> set (q_watches (s_query s))"
    "timer_watch w g (slot_callback b) DATA_NULL \<in> set (q_watches (s_query s))"
    using assms unfolding tidy_def slots_inv_def by blast
  then have "slot_callback a = slot_callback b"
    using assms(1) timer_watch_unique unfolding tidy_def by blast
  then show ?thesis by simp
qed

definition slot_ids :: "netresolve_query \<Rightarrow> nat set" where
  "slot_ids q = {w. \<exists>sl. get_slot sl q = Some w}"

lemma slot_ids_alt: "slot_ids q = {w. q_delayed q = Some w} \<union> {w. q_request_timeout q = Some w} \<union> {w. q_result_timeout q = Some w}"
proof -
  have "(\<exists>sl. get_slot sl q = Some w) \<longleftrightarrow>
      get_slot Slot_delayed q = Some w \<or> get_slot Slot_request_timeout q = Some w \<or> get_slot Slot_result_timeout q = Some w" for w
    by (metis timeout_slot.exhaust)
  then show ?thesis by (auto simp: slot_ids_def get_slot_def)
qed

lemma card_slot_ids:
  assumes "tidy s"
  shows "int (card (slot_ids (s_query s))) = armed (s_query s)"
proof -
  note inj = slot_injective [OF assms]
  have "q_delayed (s_query s) = Some w \<Longrightarrow> q_request_timeout (s_query s) \<noteq> Some w"
    "q_delayed (s_query s) = Some w \<Longrightarrow> q_result_timeout (s_query s) \<noteq> Some w"
    "q_request_timeout (s_query s) = Some w \<Longrightarrow> q_result_timeout (s_query s) \<noteq> Some w" for w
    using inj [of Slot_delayed w Slot_request_timeout] inj [of Slot_delayed w Slot_result_timeout]
      inj [of Slot_request_timeout w Slot_result_timeout] by (auto simp: get_slot_def)
  then show ?thesis
    by (cases "q_delayed (s_query s)"; cases "q_request_timeout (s_query s)"; cases "q_result_timeout (s_query s)")
      (auto simp: slot_ids_alt armed_def)
qed

lemma own_watch_is_slot:
  assumes s: "tidy s" and e: "extra_watches s = 0" and x: "x \<in> set (q_watches (s_query s))"
  obtains sl where "get_slot sl (s_query s) = Some (w_id x)"
    "x = timer_watch (w_id x) (w_fd x) (slot_callback sl) DATA_NULL"
proof -
  have ev: "ev_inv s" using s by (simp add: tidy_def)
  have "slot_ids (s_query s) \<subseteq> own_ids s"
    using s unfolding tidy_def slots_inv_def slot_ids_def own_ids_def by force
  moreover have "card (own_ids s) = length (q_watches (s_query s))"
    unfolding own_ids_def using distinct_card [OF ev_invD(5) [OF ev]] by simp
  then have "card (own_ids s) = card (slot_ids (s_query s))"
    using card_slot_ids [OF s] e ev_invD(3) [OF ev] by (simp add: extra_watches_def)
  ultimately have "slot_ids (s_query s) = own_ids s"
    by (intro card_subset_eq) (simp_all add: own_ids_def)
  then have "w_id x \<in> slot_ids (s_query s)" using x by (simp add: own_ids_def)
  then obtain sl where sl: "get_slot sl (s_query s) = Some (w_id x)" by (auto simp: slot_ids_def)
  then obtain fd where y: "timer_watch (w_id x) fd (slot_callback sl) DATA_NULL \<in> set (q_watches (s_query s))"
    using s unfolding tidy_def slots_inv_def by blast
  then have "x = timer_watch (w_id x) fd (slot_callback sl) DATA_NULL"
    using ev_invD(5) [OF ev] x by (metis distinct_map inj_onD timer_watch_id(1))
  then show thesis using that sl by (metis timer_watch_id(2))
qed

section \<open>Queries side by side\<close>

lemma focus_simps [simp]:
  "s_os (focus i wd) = wd_os wd" "s_ctx (focus i wd) = wd_ctx wd" "s_query (focus i wd) = wd_queries wd ! i"
  by (simp_all add: focus_def)

lemma unfocus_simps [simp]:
  "wd_os (unfocus i wd s) = s_os s" "wd_ctx (unfocus i wd s) = s_ctx s"
  "wd_queries (unfocus i wd s) = (wd_queries wd)[i := s_query s]"
  by (simp_all add: unfocus_def)

lemma focus_unfocus: "i < length (wd_queries wd) \<Longrightarrow> focus i (unfocus i wd s) = s"
  by (simp add: focus_def)

definition idle_sys :: "world \<Rightarrow> sys" where
  "idle_sys wd = \<lparr>s_os = wd_os wd, s_ctx = wd_ctx wd, s_query = zero_query\<rparr>"

text \<open>
  Every query's bookkeeping is in order, no watch belongs to two queries, every registered watch
  belongs to some query, and the context counts the descriptors of all of them.
\<close>

definition world_tidy :: "world \<Rightarrow> bool" where
  "world_tidy wd \<longleftrightarrow> tidy (idle_sys wd) \<and>
     (\<forall>i < length (wd_queries wd). tidy (focus i wd)) \<and>
     (\<forall>i < length (wd_queries wd). \<forall>j < length (wd_queries wd). i \<noteq> j \<longrightarrow>
        own_ids (focus i wd) \<inter> own_ids (focus j wd) = {}) \<and>
     (\<forall>w \<in> ran (loop_watched (wd_ctx wd)). \<exists>i < length (wd_queries wd). w \<in> own_ids (focus i wd)) \<and>
     cx_nfds (wd_ctx wd) = sum_list (map q_nfds (wd_queries wd))"

lemma world_tidyD:
  assumes "world_tidy wd"
  shows "tidy (idle_sys wd)" "i < length (wd_queries wd) \<Longrightarrow> tidy (focus i wd)"
    "i < length (wd_queries wd) \<Longrightarrow> j < length (wd_queries wd) \<Longrightarrow> i \<noteq> j \<Longrightarrow> own_ids (focus i wd) \<inter> own_ids (focus j wd) = {}"
    "w \<in> ran (loop_watched (wd_ctx wd)) \<Longrightarrow> \<exists>i < length (wd_queries wd). w \<in> own_ids (focus i wd)"
    "cx_nfds (wd_ctx wd) = sum_list (map q_nfds (wd_queries wd))"
  using assms unfolding world_tidy_def by blast+

text \<open>A registration of another query stays.\<close>

lemma foreign_stays:
  assumes "foreign s' = foreign s" and "loop_watched (s_ctx s) fd = Some w" and "w \<notin> own_ids s"
  shows "loop_watched (s_ctx s') fd = Some w" "w \<notin> own_ids s'"
proof -
  have "foreign s' fd = Some w" using assms by (simp add: foreign_def without_ids_def)
  then show "loop_watched (s_ctx s') fd = Some w" "w \<notin> own_ids s'"
    by (auto simp: foreign_def without_ids_def split: option.splits if_splits)
qed

lemma loop_inv_query [simp]: "loop_inv (s\<lparr>s_query := q\<rparr>) = loop_inv s"
  by (simp add: loop_inv_def split: fd_callbacks.splits)

lemma tidy_other_query:
  assumes s': "tidy s'" and f: "foreign s' = foreign s" and t: "tidy t" "s_ctx t = s_ctx s"
    and d: "own_ids t \<inter> own_ids s = {}" and n: "q_nfds (s_query t) \<le> cx_nfds (s_ctx s')"
  shows "tidy (s'\<lparr>s_query := s_query t\<rparr>)"
proof -
  have ev': "ev_inv s'" and ev: "ev_inv t" using s' t by (simp_all add: tidy_def)
  have "loop_watched (s_ctx s') (w_fd w) = Some (w_id w)" if "w \<in> set (q_watches (s_query t))" for w
    using foreign_stays(1) [OF f, of "w_fd w" "w_id w"] ev_invD(6) [OF ev that] t(2) d that
    by (auto simp: own_ids_def)
  then have "ev_inv (s'\<lparr>s_query := s_query t\<rparr>)"
    using ev' ev n unfolding ev_inv_def by simp
  then show ?thesis using t(1) by (simp add: tidy_def slots_inv_def)
qed

lemma tidy_idle:
  assumes "tidy s"
  shows "tidy (s\<lparr>s_query := zero_query\<rparr>)"
proof -
  have "ev_inv s" using assms by (simp add: tidy_def)
  moreover from this have "0 \<le> cx_nfds (s_ctx s)" using ev_invD(3,4) [of s] by simp
  ultimately have "ev_inv (s\<lparr>s_query := zero_query\<rparr>)"
    unfolding ev_inv_def by (simp add: zero_query_def)
  then show ?thesis by (simp add: tidy_def slots_inv_def get_slot_def zero_query_def split: timeout_slot.splits)
qed

lemma world_tidy_step:
  assumes w: "world_tidy wd" and i: "i < length (wd_queries wd)"
    and s': "tidy s'" "foreign s' = foreign (focus i wd)"
      "cx_nfds (s_ctx s') - q_nfds (s_query s') = cx_nfds (wd_ctx wd) - q_nfds (wd_queries wd ! i)"
  shows "world_tidy (unfocus i wd s')"
proof -
  let ?wd = "unfocus i wd s'" and ?n = "length (wd_queries wd)"
  have fj: "focus j ?wd = (if j = i then s' else s'\<lparr>s_query := s_query (focus j wd)\<rparr>)" if "j < ?n" for j
    using that by (simp add: focus_def)
  have nn: "0 \<le> q_nfds (wd_queries wd ! j)" if "j < ?n" for j
    using world_tidyD(2) [OF w that] ev_invD(3) [of "focus j wd"] by (simp add: tidy_def)
  have sum: "cx_nfds (s_ctx s') = sum_list (map q_nfds (wd_queries ?wd))"
    using s'(3) world_tidyD(5) [OF w] i by (simp add: map_update sum_list_update_int)
  have le: "q_nfds (wd_queries wd ! j) \<le> cx_nfds (s_ctx s')" if "j < ?n" "j \<noteq> i" for j
  proof -
    let ?xs = "map q_nfds (wd_queries ?wd)"
    have "0 \<le> q_nfds (s_query s')" using s'(1) ev_invD(3) [of s'] by (simp add: tidy_def)
    then have "\<forall>x \<in> set ?xs. 0 \<le> x"
      using nn i by (auto simp: in_set_conv_nth nth_list_update)
    moreover have "q_nfds (wd_queries wd ! j) \<in> set ?xs"
      using that nth_mem [of j ?xs] by simp
    ultimately show ?thesis unfolding sum by (intro member_le_sum_list) auto
  qed
  have tj: "tidy (focus j ?wd)" if "j < ?n" for j
  proof (cases "j = i")
    case False
    then have "tidy (s'\<lparr>s_query := s_query (focus j wd)\<rparr>)"
      using world_tidyD(3) [OF w that i] le [OF that]
      by (intro tidy_other_query [OF s'(1,2) world_tidyD(2) [OF w that]]) simp_all
    then show ?thesis unfolding fj [OF that] if_not_P [OF False] .
  next
    case True
    then show ?thesis unfolding fj [OF that] if_P [OF True] using s'(1) by simp
  qed
  have own: "own_ids (focus j ?wd) = (if j = i then own_ids s' else own_ids (focus j wd))" if "j < ?n" for j
    using fj [OF that] by (simp add: own_ids_def)
  have apart: "own_ids (focus j wd) \<inter> own_ids s' = {}" if j: "j < ?n" "j \<noteq> i" for j
  proof (intro equals0I)
    fix x assume x: "x \<in> own_ids (focus j wd) \<inter> own_ids s'"
    then obtain y where y: "y \<in> set (q_watches (wd_queries wd ! j))" "w_id y = x" by (auto simp: own_ids_def)
    have "loop_watched (wd_ctx wd) (w_fd y) = Some x"
      using world_tidyD(2) [OF w j(1)] ev_invD(6) [of "focus j wd" y] y by (simp add: tidy_def)
    moreover have "x \<notin> own_ids (focus i wd)" using world_tidyD(3) [OF w j(1) i j(2)] x by auto
    ultimately show False using foreign_stays(2) [OF s'(2)] x by simp
  qed
  have cover: "\<exists>j < ?n. x \<in> own_ids (focus j ?wd)" if "x \<in> ran (loop_watched (s_ctx s'))" for x
  proof (cases "x \<in> own_ids s'")
    case False
    from that obtain fd where "loop_watched (s_ctx s') fd = Some x" by (auto simp: ran_def)
    then have "loop_watched (wd_ctx wd) fd = Some x" "x \<notin> own_ids (focus i wd)"
      using foreign_stays [OF s'(2) [symmetric], of fd x] False by simp_all
    then obtain j where "j < ?n" "x \<in> own_ids (focus j wd)" "j \<noteq> i"
      using world_tidyD(4) [OF w, of x] by (auto simp: ran_def)
    then show ?thesis using own by auto
  qed (use own i in auto)
  have "idle_sys ?wd = s'\<lparr>s_query := zero_query\<rparr>" by (cases s') (simp add: idle_sys_def)
  then show ?thesis
    unfolding world_tidy_def
    using tidy_idle [OF s'(1)] tj own apart cover sum world_tidyD(3) [OF w]
    by (auto simp: Int_commute)
qed

section \<open>Delivering events\<close>

text \<open>A query between two calls whose backends never wait.\<close>

definition query_ok :: "sys \<Rightarrow> bool" where
  "query_ok s \<longleftrightarrow> settled s \<and> extra_watches s = 0 \<and> state_of s \<in> {STATE_RESOLVED, STATE_DONE, STATE_FAILED}"

definition world_ok :: "world \<Rightarrow> bool" where
  "world_ok wd \<longleftrightarrow> world_tidy wd \<and> (\<forall>i < length (wd_queries wd). query_ok (focus i wd))"

text \<open>The only timeout of such a query is the delayed one.\<close>

lemma query_ok_watch:
  assumes "query_ok s" and "x \<in> set (q_watches (s_query s))"
  shows "q_delayed (s_query s) = Some (w_id x)" "x = timer_watch (w_id x) (w_fd x) TCB_delayed DATA_NULL"
proof -
  obtain sl where sl: "get_slot sl (s_query s) = Some (w_id x)" "x = timer_watch (w_id x) (w_fd x) (slot_callback sl) DATA_NULL"
    using assms own_watch_is_slot [of s x] by (auto simp: query_ok_def settled_def)
  have "sl = Slot_delayed"
    using assms(1) sl(1) by (cases sl) (auto simp: query_ok_def settled_def slots_match_def)
  with sl show "q_delayed (s_query s) = Some (w_id x)" "x = timer_watch (w_id x) (w_fd x) TCB_delayed DATA_NULL"
    by (simp_all add: get_slot_def slot_callback_def)
qed

lemma query_ok_no_watches: "query_ok s \<Longrightarrow> q_delayed (s_query s) = None \<Longrightarrow> q_watches (s_query s) = []"
  using query_ok_watch(1) [of s] by (cases "q_watches (s_query s)") auto

text \<open>The number of backends is the same for all queries, and none of them changes it.\<close>

definition backend_count :: "world \<Rightarrow> nat" where
  "backend_count wd = length (backend_list (idle_sys wd))"

lemma backend_count_focus [simp]: "length (backend_list (focus i wd)) = backend_count wd"
  by (simp add: backend_count_def idle_sys_def backend_list_def)

abbreviation same_setting :: "world \<Rightarrow> world \<Rightarrow> bool" where
  "same_setting wd wd' \<equiv> backend_count wd' = backend_count wd \<and>
     cx_callbacks (wd_ctx wd') = cx_callbacks (wd_ctx wd) \<and> length (wd_queries wd') = length (wd_queries wd)"

lemma world_ok_step:
  assumes w: "world_tidy wd" and i: "i < length (wd_queries wd)"
    and others: "\<And>j. j < length (wd_queries wd) \<Longrightarrow> j \<noteq> i \<Longrightarrow> query_ok (focus j wd)"
    and s': "query_ok s'" "statics False s' = statics False (focus i wd)"
  shows "world_ok (unfocus i wd s')" "backend_count (unfocus i wd s') = backend_count wd"
    "cx_callbacks (wd_ctx (unfocus i wd s')) = cx_callbacks (wd_ctx wd)"
proof -
  have t: "world_tidy (unfocus i wd s')"
  proof (rule world_tidy_step)
    show "world_tidy wd" "i < length (wd_queries wd)" by (rule w, rule i)
    show "tidy s'" using s'(1) by (simp add: query_ok_def settled_def)
    show "foreign s' = foreign (focus i wd)" by (rule statics_eqD(2) [OF s'(2)])
    show "cx_nfds (s_ctx s') - q_nfds (s_query s') = cx_nfds (wd_ctx wd) - q_nfds (wd_queries wd ! i)"
      using statics_eqD(3) [OF s'(2)] by simp
  qed
  have len: "length (backend_list s') = backend_count wd" using statics_length [OF s'(2)] by simp
  then show bc: "backend_count (unfocus i wd s') = backend_count wd"
    by (simp add: backend_count_def idle_sys_def backend_list_def)
  have "query_ok (focus j (unfocus i wd s'))" if "j < length (wd_queries wd)" for j
  proof (cases "j = i")
    case True
    then show ?thesis using s'(1) i by (simp add: focus_unfocus)
  next
    case False
    have "tidy (focus j (unfocus i wd s'))" using world_tidyD(2) [OF t, of j] that by simp
    moreover have "query_ok (focus j wd)" by (rule others [OF that False])
    moreover have "get_slot sl (s_query (focus j (unfocus i wd s'))) = get_slot sl (s_query (focus j wd))" for sl
      using False by simp
    ultimately show ?thesis
      using False bc by (simp add: query_ok_def settled_def slots_match_def extra_watches_def)
  qed
  then show "world_ok (unfocus i wd s')" using t by (simp add: world_ok_def)
  show "cx_callbacks (wd_ctx (unfocus i wd s')) = cx_callbacks (wd_ctx wd)"
    using statics_eqD(5) [OF s'(2)] by simp
qed

text \<open>What is left to do: the backends ahead of every query that has its delayed timeout armed.\<close>

definition query_work :: "nat \<Rightarrow> netresolve_query \<Rightarrow> nat" where
  "query_work l q = (if q_delayed q = None then 0 else l - q_backend q)"

definition pending_work :: "world \<Rightarrow> nat" where
  "pending_work wd = sum_list (map (query_work (backend_count wd)) (wd_queries wd))"

lemma pending_work_step:
  assumes i: "i < length (wd_queries wd)" and d: "q_delayed (wd_queries wd ! i) \<noteq> None"
    and q: "q_backend (wd_queries wd ! i) < backend_count wd" "q_backend (wd_queries wd ! i) < q_backend (s_query s')"
    and bc: "backend_count (unfocus i wd s') = backend_count wd"
  shows "pending_work (unfocus i wd s') < pending_work wd"
proof -
  let ?f = "query_work (backend_count wd)"
  have "?f (s_query s') < ?f (wd_queries wd ! i)" using d q by (auto simp: query_work_def)
  moreover have "pending_work (unfocus i wd s') = sum_list ((map ?f (wd_queries wd))[i := ?f (s_query s')])"
    by (simp add: pending_work_def bc map_update)
  ultimately show ?thesis
    using i elem_le_sum_list [of i "map ?f (wd_queries wd)"]
    by (simp add: pending_work_def sum_list_update)
qed

text \<open>A registered watch belongs to exactly one query, and the search for it finds it.\<close>

lemma query_of_registered:
  assumes "world_ok wd" and "w \<in> ran (loop_watched (wd_ctx wd))"
  shows "query_of w wd < length (wd_queries wd)" "w \<in> own_ids (focus (query_of w wd) wd)"
proof -
  let ?P = "\<lambda>q. w \<in> w_id ` set (q_watches q)"
  obtain i where "i < length (wd_queries wd)" "?P (wd_queries wd ! i)"
    using world_tidyD(4) [of wd w] assms by (auto simp: world_ok_def own_ids_def)
  then have "\<exists>q \<in> set (wd_queries wd). ?P q" by (meson nth_mem)
  then show l: "query_of w wd < length (wd_queries wd)"
    unfolding query_of_def by (simp only: find_index_less_iff)
  show "w \<in> own_ids (focus (query_of w wd) wd)"
    using find_index_nth [of ?P "wd_queries wd"] l by (simp add: query_of_def own_ids_def)
qed

locale prompt_code = backend_code C F False for C F
begin

lemma dispatch_registered:
  assumes wd: "world_ok wd" and w: "w \<in> ran (loop_watched (wd_ctx wd))" and n: "n > 2 * backend_count wd"
  shows "returns F (netresolve_dispatch n C (Some w) ev wd)
    (\<lambda>wd'. world_ok wd' \<and> same_setting wd wd' \<and> pending_work wd' < pending_work wd)"
proof -
  let ?i = "query_of w wd"
  let ?s = "focus ?i wd"
  note i = query_of_registered [OF wd w]
  have ok: "query_ok ?s" using wd i(1) by (simp add: world_ok_def)
  obtain x where x: "x \<in> set (q_watches (s_query ?s))" "w_id x = w" using i(2) by (auto simp: own_ids_def)
  have "tidy ?s" using ok by (simp add: query_ok_def settled_def)
  then have find: "find (\<lambda>x. w_id x = w) (q_watches (wd_queries wd ! ?i)) = Some x"
    using ev_inv_find [of ?s x] x by (simp add: tidy_def)
  note d = query_ok_watch [OF ok x(1)]
  have st: "settled ?s" "q_backend (wd_queries wd ! ?i) < backend_count wd"
    using ok d(1) by (auto simp: query_ok_def settled_def slots_match_def get_slot_def)
  have "returns F (netresolve_query_dispatch n C (timer_watch w (w_fd x) TCB_delayed DATA_NULL) ev ?s)
      (\<lambda>s'. settled s' \<and> statics False s' = statics False ?s \<and> q_backend (s_query ?s) < q_backend (s_query s') \<and>
        (\<not> False \<longrightarrow> state_of s' \<in> {STATE_RESOLVED, STATE_DONE, STATE_FAILED}))"
    using n d(1) x(2) by (intro delayed_dispatch [OF st(1)]) simp_all
  then have "returns F (netresolve_query_dispatch n C x ev ?s)
      (\<lambda>s'. query_ok s' \<and> statics False s' = statics False ?s \<and> q_backend (s_query ?s) < q_backend (s_query s'))"
    unfolding d(2) [unfolded x(2), symmetric]
  proof (rule returns_mono)
    fix s' assume a: "settled s' \<and> statics False s' = statics False ?s \<and> q_backend (s_query ?s) < q_backend (s_query s') \<and>
        (\<not> False \<longrightarrow> state_of s' \<in> {STATE_RESOLVED, STATE_DONE, STATE_FAILED})"
    then have "extra_watches s' = extra_watches ?s" using statics_eqD(4) [of False s' ?s] by blast
    then show "query_ok s' \<and> statics False s' = statics False ?s \<and> q_backend (s_query ?s) < q_backend (s_query s')"
      using a ok by (simp add: query_ok_def)
  qed simp
  then have "returns F (rbind (netresolve_query_dispatch n C x ev ?s) (\<lambda>s. Inr (unfocus ?i wd s)))
      (\<lambda>wd'. world_ok wd' \<and> same_setting wd wd' \<and> pending_work wd' < pending_work wd)"
  proof (rule returns_bind)
    fix s' assume s': "query_ok s' \<and> statics False s' = statics False ?s \<and> q_backend (s_query ?s) < q_backend (s_query s')"
    then have step: "world_ok (unfocus ?i wd s')" "backend_count (unfocus ?i wd s') = backend_count wd"
      "cx_callbacks (wd_ctx (unfocus ?i wd s')) = cx_callbacks (wd_ctx wd)"
      using world_ok_step [OF _ i(1), of s'] wd by (simp_all add: world_ok_def)
    moreover have "length (wd_queries (unfocus ?i wd s')) = length (wd_queries wd)" by simp
    moreover have "pending_work (unfocus ?i wd s') < pending_work wd"
      using s' st(2) d(1) step(2) by (intro pending_work_step [OF i(1)]) simp_all
    ultimately show "returns F (Inr (unfocus ?i wd s'))
        (\<lambda>wd'. world_ok wd' \<and> same_setting wd wd' \<and> pending_work wd' < pending_work wd)" by simp
  qed
  then show ?thesis using i(1) find by (simp add: netresolve_dispatch_def on_query_def)
qed

end

section \<open>The loop of the blocking mode\<close>

text \<open>
  What is relied on of \<open>epoll_wait\<close> without a time limit: it reports only registered watches,
  and at least one of them when there are any.
\<close>

definition epoll_contract :: "epoll_wait \<Rightarrow> bool" where
  "epoll_contract wait \<longleftrightarrow> (\<forall>t l evs. wait t l = Some evs \<longrightarrow>
     fst ` set evs \<subseteq> snd ` set (ep_interest l) \<and> (ep_interest l \<noteq> [] \<longrightarrow> evs \<noteq> []))"

abbreviation uses_epoll :: "world \<Rightarrow> bool" where
  "uses_epoll wd \<equiv> cx_callbacks (wd_ctx wd) \<in> {FD_EPOLL, FD_EPOLL_INTERNAL}"

lemma epoll_registered:
  assumes "uses_epoll wd" and "tidy (idle_sys wd)"
  shows "ran (loop_watched (wd_ctx wd)) = snd ` set (ep_interest (cx_epoll (wd_ctx wd)))"
    "ep_count (cx_epoll (wd_ctx wd)) = int (length (ep_interest (cx_epoll (wd_ctx wd))))"
proof -
  have "epoll_inv (cx_epoll (wd_ctx wd))"
    using assms ev_invD(1) [of "idle_sys wd"] by (auto simp: tidy_def loop_inv_def idle_sys_def)
  then show "ep_count (cx_epoll (wd_ctx wd)) = int (length (ep_interest (cx_epoll (wd_ctx wd))))"
    "ran (loop_watched (wd_ctx wd)) = snd ` set (ep_interest (cx_epoll (wd_ctx wd)))"
    using assms(1) by (force simp: epoll_inv_def loop_watched_def epoll_watched_def ran_distinct)+
qed

text \<open>Storing the reported events keeps everything in order.\<close>

definition set_events :: "(nat \<times> int) list \<Rightarrow> nat \<Rightarrow> world \<Rightarrow> world" where
  "set_events evs t wd = (upd_epoll (\<lambda>l. l\<lparr>ep_nevents := int (length evs),
     ep_events := Some (map (\<lambda>(w, e). (Some w, e)) evs)\<rparr>) wd)\<lparr>wd_os := (wd_os wd)\<lparr>os_clock := t\<rparr>\<rparr>"

lemma set_events_simps [simp]:
  "wd_queries (set_events evs t wd) = wd_queries wd"
  "cx_callbacks (wd_ctx (set_events evs t wd)) = cx_callbacks (wd_ctx wd)"
  "cx_nfds (wd_ctx (set_events evs t wd)) = cx_nfds (wd_ctx wd)"
  "loop_watched (wd_ctx (set_events evs t wd)) = loop_watched (wd_ctx wd)"
  "own_ids (focus i (set_events evs t wd)) = own_ids (focus i wd)"
  "length (backend_list (focus i (set_events evs t wd))) = length (backend_list (focus i wd))"
  by (simp_all add: set_events_def upd_epoll_def loop_watched_def epoll_watched_def own_ids_def
      backend_count_def backend_list_def idle_sys_def cong: fd_callbacks.case_cong)

lemma tidy_set_events:
  assumes "tidy \<lparr>s_os = wd_os wd, s_ctx = wd_ctx wd, s_query = q\<rparr>" and "uses_epoll wd"
    and "fst ` set evs \<subseteq> ran (loop_watched (wd_ctx wd))"
  shows "tidy \<lparr>s_os = wd_os (set_events evs t wd), s_ctx = wd_ctx (set_events evs t wd), s_query = q\<rparr>"
proof -
  have ev: "ev_inv \<lparr>s_os = wd_os wd, s_ctx = wd_ctx wd, s_query = q\<rparr>" using assms(1) by (simp add: tidy_def)
  have "pending_watches (wd_ctx (set_events evs t wd)) = fst ` set evs"
    using assms(2) by (force simp: pending_watches_def set_events_def upd_epoll_def)
  moreover have "loop_inv \<lparr>s_os = wd_os (set_events evs t wd), s_ctx = wd_ctx (set_events evs t wd), s_query = q\<rparr>"
    using ev_invD(1) [OF ev] assms(2)
    by (auto simp: loop_inv_def set_events_def upd_epoll_def epoll_inv_def)
  moreover have "wd_os (set_events evs t wd) = (wd_os wd)\<lparr>os_clock := t\<rparr>" by (simp add: set_events_def)
  ultimately have "ev_inv \<lparr>s_os = wd_os (set_events evs t wd), s_ctx = wd_ctx (set_events evs t wd), s_query = q\<rparr>"
    using ev assms(3) unfolding ev_inv_def by (simp add: fds_inv_def)
  then show ?thesis using assms(1) by (simp add: tidy_def slots_inv_def)
qed

lemma world_ok_set_events:
  assumes wd: "world_ok wd" and e: "uses_epoll wd" and evs: "fst ` set evs \<subseteq> ran (loop_watched (wd_ctx wd))"
  shows "world_ok (set_events evs t wd)" "backend_count (set_events evs t wd) = backend_count wd"
    "pending_work (set_events evs t wd) = pending_work wd"
proof -
  let ?wd = "set_events evs t wd"
  note w = world_tidyD [of wd]
  have idle: "tidy (idle_sys ?wd)"
    using tidy_set_events [OF _ e evs] w(1) wd by (simp add: idle_sys_def world_ok_def)
  have foc: "tidy (focus i ?wd)" if "i < length (wd_queries wd)" for i
    using tidy_set_events [OF _ e evs] w(2) wd that by (simp add: focus_def world_ok_def)
  show bc: "backend_count ?wd = backend_count wd"
    by (simp add: backend_count_def idle_sys_def set_events_def upd_epoll_def backend_list_def)
  have "query_ok (focus i ?wd)" if "i < length (wd_queries wd)" for i
    using wd foc [OF that] that bc
    by (simp add: world_ok_def query_ok_def settled_def slots_match_def extra_watches_def)
  moreover have "world_tidy ?wd"
    using idle foc wd unfolding world_tidy_def world_ok_def by simp
  ultimately show "world_ok ?wd" by (simp add: world_ok_def)
  show "pending_work ?wd = pending_work wd" by (simp add: pending_work_def bc)
qed

text \<open>A pending event that has not been disabled is one of a registered watch.\<close>

lemma pending_event_registered:
  assumes "world_ok wd" and "uses_epoll wd" and "pending_event i wd = (Some w, ev)"
  shows "w \<in> ran (loop_watched (wd_ctx wd))"
proof -
  obtain evs where evs: "ep_events (cx_epoll (wd_ctx wd)) = Some evs" "i < length evs" "evs ! i = (Some w, ev)"
    using assms(3) by (auto simp: pending_event_def split: option.splits if_splits)
  then have "(Some w, ev) \<in> set evs" using nth_mem [of i evs] by simp
  then have "w \<in> pending_watches (wd_ctx wd)"
    using assms(2) evs(1) by (auto simp: pending_watches_def)
  moreover have "pending_watches (wd_ctx wd) \<subseteq> ran (loop_watched (wd_ctx wd))"
    using world_tidyD(1) [of wd] assms(1) ev_invD(10) [of "idle_sys wd"]
    by (simp add: world_ok_def tidy_def idle_sys_def)
  ultimately show ?thesis by blast
qed

text \<open>As long as something is registered, some query has work left; afterwards no query has a watch.\<close>

lemma registered_work:
  assumes wd: "world_ok wd" and e: "uses_epoll wd" and w: "pending_work wd = 0"
  shows "ep_count (cx_epoll (wd_ctx wd)) = 0"
proof (rule ccontr)
  assume c: "ep_count (cx_epoll (wd_ctx wd)) \<noteq> 0"
  have "tidy (idle_sys wd)" using wd world_tidyD(1) by (simp add: world_ok_def)
  note reg = epoll_registered [OF e this]
  from c have "ran (loop_watched (wd_ctx wd)) \<noteq> {}" unfolding reg by simp
  then obtain v where v: "v \<in> ran (loop_watched (wd_ctx wd))" by (meson ex_in_conv)
  let ?i = "query_of v wd"
  note i = query_of_registered [OF wd v]
  have ok: "query_ok (focus ?i wd)" using wd i(1) by (simp add: world_ok_def)
  obtain x where x: "x \<in> set (q_watches (s_query (focus ?i wd)))" using i(2) by (auto simp: own_ids_def)
  note d = query_ok_watch(1) [OF ok x]
  have "q_backend (wd_queries wd ! ?i) < backend_count wd"
    using ok d by (auto simp: query_ok_def settled_def slots_match_def get_slot_def)
  then have "0 < query_work (backend_count wd) (wd_queries wd ! ?i)" using d by (simp add: query_work_def)
  also have "\<dots> \<le> pending_work wd"
    using i(1) elem_le_sum_list [of ?i "map (query_work (backend_count wd)) (wd_queries wd)"]
    by (simp add: pending_work_def)
  finally show False using w by simp
qed

lemma unregistered_no_watches:
  assumes wd: "world_ok wd" and e: "uses_epoll wd" and "ep_count (cx_epoll (wd_ctx wd)) = 0"
    and "q \<in> set (wd_queries wd)"
  shows "q_watches q = []"
proof -
  obtain i where i: "i < length (wd_queries wd)" "q = wd_queries wd ! i" using assms(4) by (metis in_set_conv_nth)
  have t: "tidy (idle_sys wd)" "tidy (focus i wd)" using wd world_tidyD(1,2) i(1) by (simp_all add: world_ok_def)
  have "ran (loop_watched (wd_ctx wd)) = {}" using epoll_registered [OF e t(1)] assms(3) by simp
  moreover have "w_id x \<in> ran (loop_watched (wd_ctx wd))" if "x \<in> set (q_watches q)" for x
    using ev_invD(6) [of "focus i wd" x] t(2) that i(2) by (auto simp: tidy_def ran_def)
  ultimately show ?thesis by (cases "q_watches q") auto
qed

context prompt_code
begin

lemma dispatch_pending_ok:
  assumes "world_ok wd" and "uses_epoll wd" and "n > 2 * backend_count wd"
  shows "returns F (dispatch_pending n C i wd)
    (\<lambda>wd'. world_ok wd' \<and> same_setting wd wd' \<and> pending_work wd' \<le> pending_work wd)"
proof (cases "pending_event i wd")
  case (Pair h ev)
  show ?thesis
  proof (cases h)
    case None
    then show ?thesis using Pair assms by (simp add: dispatch_pending_def)
  next
    case (Some w)
    then have "w \<in> ran (loop_watched (wd_ctx wd))" using pending_event_registered assms(1,2) Pair by blast
    from dispatch_registered [OF assms(1) this assms(3), of ev] show ?thesis
      unfolding dispatch_pending_def Pair Some option.case prod.case by (rule returns_mono) auto
  qed
qed

lemma dispatch_events_ok:
  assumes wd: "world_ok wd" and e: "uses_epoll wd" and n: "n > 2 * backend_count wd"
    and wait: "epoll_contract wait"
  shows "returns F (dispatch_events n C wait wd)
    (\<lambda>(count, wd'). world_ok wd' \<and> same_setting wd wd' \<and> pending_work wd' \<le> pending_work wd \<and>
      (ep_count (cx_epoll (wd_ctx wd)) > 0 \<longrightarrow> pending_work wd' < pending_work wd))"
    (is "returns F _ (\<lambda>(count, wd'). ?ok wd')")
proof (cases "wait (os_clock (wd_os wd)) (cx_epoll (wd_ctx wd))")
  case None
  then show ?thesis using aborts by (simp add: dispatch_events_def)
next
  case (Some evs)
  have idle: "tidy (idle_sys wd)" using wd world_tidyD(1) by (simp add: world_ok_def)
  note reg = epoll_registered [OF e idle]
  have evs: "fst ` set evs \<subseteq> ran (loop_watched (wd_ctx wd))" "ep_count (cx_epoll (wd_ctx wd)) > 0 \<Longrightarrow> evs \<noteq> []"
    using wait [unfolded epoll_contract_def, rule_format, OF Some] unfolding reg by simp_all
  let ?wd = "set_events evs (Suc (os_clock (wd_os wd))) wd"
  note w = world_ok_set_events [OF wd e evs(1), of "Suc (os_clock (wd_os wd))"]
  let ?P = "\<lambda>m wd'. world_ok wd' \<and> same_setting wd wd' \<and> pending_work wd' \<le> m"
  have more: "returns F (foreach (dispatch_pending n C) is wd1) (?P m)" if "?P m wd1" for "is" wd1 m
  proof (rule returns_foreach [where P = "?P m"])
    fix i wd2 assume a: "?P m wd2"
    show "returns F (dispatch_pending n C i wd2) (?P m)"
    proof (rule returns_mono [OF dispatch_pending_ok])
      show "world_ok wd2" using a by blast
      show "uses_epoll wd2" using a e by simp
      show "n > 2 * backend_count wd2" using a n by simp
    next
      fix wd3 assume "world_ok wd3 \<and> same_setting wd2 wd3 \<and> pending_work wd3 \<le> pending_work wd2"
      with a show "?P m wd3" by simp
    qed simp
  qed (rule that)
  have "returns F (foreach (dispatch_pending n C) [0..<length evs] ?wd) ?ok"
  proof (cases evs)
    case Nil
    then show ?thesis using evs(2) w by auto
  next
    case (Cons x evs')
    obtain v ev where x: "x = (v, ev)" by (cases x)
    have v: "v \<in> ran (loop_watched (wd_ctx ?wd))" using evs(1) Cons x by simp
    have first: "dispatch_pending n C 0 ?wd = netresolve_dispatch n C (Some v) ev ?wd"
      by (simp add: dispatch_pending_def pending_event_def set_events_def upd_epoll_def Cons x)
    have "[0..<length evs] = 0 # [1..<length evs]" using Cons upt_conv_Cons [of 0 "length evs"] by simp
    moreover have "returns F (rbind (netresolve_dispatch n C (Some v) ev ?wd) (foreach (dispatch_pending n C) [1..<length evs])) ?ok"
    proof (rule returns_bind [OF dispatch_registered [OF w(1) v]])
      show "n > 2 * backend_count ?wd" using n w(2) by simp
    next
      fix wd1 assume "world_ok wd1 \<and> same_setting ?wd wd1 \<and> pending_work wd1 < pending_work ?wd"
      then have "?P (pending_work wd - 1) wd1" and "0 < pending_work wd" using w by auto
      then show "returns F (foreach (dispatch_pending n C) [1..<length evs] wd1) ?ok"
        by (intro returns_mono [OF more [where m = "pending_work wd - 1"]]) auto
    qed
    ultimately show ?thesis by (simp add: first)
  qed
  then have "returns F (rbind (foreach (dispatch_pending n C) [0..<length evs] ?wd) (\<lambda>wd. Inr (length evs, wd)))
      (\<lambda>(count, wd'). ?ok wd')"
    by (rule returns_bind) simp
  moreover have "dispatch_events n C wait wd = rbind (foreach (dispatch_pending n C) [0..<length evs] ?wd) (\<lambda>wd. Inr (length evs, wd))"
    by (simp add: dispatch_events_def Some Let_def set_events_def upd_epoll_def)
  ultimately show ?thesis by simp
qed

lemma epoll_wait_ok:
  assumes "world_ok wd" and "uses_epoll wd" and "n > 2 * backend_count wd" and "epoll_contract wait"
    and "k \<ge> pending_work wd"
  shows "returns F (netresolve_epoll_wait k n C wait wd)
    (\<lambda>wd'. world_ok wd' \<and> same_setting wd wd' \<and> ep_count (cx_epoll (wd_ctx wd')) = 0)"
  using assms
proof (induction k arbitrary: wd)
  case 0
  then have "ep_count (cx_epoll (wd_ctx wd)) = 0" using registered_work [of wd] by auto
  then show ?case using 0 by simp
next
  case (Suc k)
  show ?case
  proof (cases "ep_count (cx_epoll (wd_ctx wd)) > 0")
    case True
    have "returns F (rbind (dispatch_events n C wait wd) (\<lambda>(_, wd). netresolve_epoll_wait k n C wait wd))
      (\<lambda>wd'. world_ok wd' \<and> same_setting wd wd' \<and> ep_count (cx_epoll (wd_ctx wd')) = 0)"
    proof (rule returns_bind [OF dispatch_events_ok [OF Suc.prems(1-4)]])
      fix x :: "nat \<times> world"
      obtain c wd1 where x: "x = (c, wd1)" by (cases x)
      assume "case x of (count, wd') \<Rightarrow> world_ok wd' \<and> same_setting wd wd' \<and> pending_work wd' \<le> pending_work wd \<and>
        (ep_count (cx_epoll (wd_ctx wd)) > 0 \<longrightarrow> pending_work wd' < pending_work wd)"
      then have a: "world_ok wd1" "same_setting wd wd1" "pending_work wd1 < pending_work wd" using True x by simp_all
      have "returns F (netresolve_epoll_wait k n C wait wd1)
          (\<lambda>wd'. world_ok wd' \<and> same_setting wd1 wd' \<and> ep_count (cx_epoll (wd_ctx wd')) = 0)"
        using a Suc.prems by (intro Suc.IH) simp_all
      then show "returns F (case x of (_, wd) \<Rightarrow> netresolve_epoll_wait k n C wait wd)
          (\<lambda>wd'. world_ok wd' \<and> same_setting wd wd' \<and> ep_count (cx_epoll (wd_ctx wd')) = 0)"
        unfolding x prod.case by (rule returns_mono) (use a(2) in simp_all)
    qed
    then show ?thesis using True by simp
  next
    case False
    moreover have "ep_count (cx_epoll (wd_ctx wd)) \<ge> 0"
      using epoll_registered(2) [OF Suc.prems(2)] Suc.prems(1) world_tidyD(1) by (simp add: world_ok_def)
    ultimately show ?thesis using Suc.prems(1) by simp
  qed
qed

end

section \<open>Starting queries in the blocking mode\<close>

lemma world_tidy_append:
  assumes w: "world_tidy wd" and q: "q_watches q = []" "q_nfds q = 0" "\<And>sl. get_slot sl q = None"
  shows "world_tidy (wd\<lparr>wd_queries := wd_queries wd @ [q]\<rparr>)"
proof -
  let ?wd = "wd\<lparr>wd_queries := wd_queries wd @ [q]\<rparr>" and ?n = "length (wd_queries wd)"
  have old: "focus j ?wd = focus j wd" if "j < ?n" for j using that by (simp add: focus_def nth_append)
  have new: "focus ?n ?wd = \<lparr>s_os = wd_os wd, s_ctx = wd_ctx wd, s_query = q\<rparr>" by (simp add: focus_def)
  have own: "own_ids (focus ?n ?wd) = {}" unfolding new by (simp add: own_ids_def q)
  have t: "tidy (focus ?n ?wd)"
    unfolding new by (rule tidy_new_query [OF world_tidyD(1) [OF w, unfolded idle_sys_def] q])
  have cases: "j < Suc ?n \<longleftrightarrow> j < ?n \<or> j = ?n" for j by auto
  show ?thesis
    unfolding world_tidy_def
  proof (intro conjI allI impI ballI)
    show "tidy (idle_sys ?wd)" using world_tidyD(1) [OF w] by (simp add: idle_sys_def)
    show "cx_nfds (wd_ctx ?wd) = sum_list (map q_nfds (wd_queries ?wd))" using world_tidyD(5) [OF w] q by simp
  next
    fix j assume "j < length (wd_queries ?wd)"
    then consider "j < ?n" | "j = ?n" by (auto simp: cases)
    then show "tidy (focus j ?wd)"
      using old t world_tidyD(2) [OF w] by cases simp_all
  next
    fix i j assume "i < length (wd_queries ?wd)" "j < length (wd_queries ?wd)" "i \<noteq> j"
    then show "own_ids (focus i ?wd) \<inter> own_ids (focus j ?wd) = {}"
      using world_tidyD(3) [OF w, of i j] own old by (cases "i = ?n"; cases "j = ?n") simp_all
  next
    fix v assume "v \<in> ran (loop_watched (wd_ctx ?wd))"
    then obtain i where i: "i < ?n" "v \<in> own_ids (focus i wd)" using world_tidyD(4) [OF w, of v] by auto
    then have "v \<in> own_ids (focus i ?wd)" unfolding old [OF i(1)] by simp
    then show "\<exists>i < length (wd_queries ?wd). v \<in> own_ids (focus i ?wd)" using i(1) by (intro exI [of _ i]) simp
  qed
qed

lemma tidy_backends:
  "tidy \<lparr>s_os = o1, s_ctx = c\<lparr>cx_backends := bs\<rparr>, s_query = q\<rparr> = tidy \<lparr>s_os = o1, s_ctx = c, s_query = q\<rparr>"
  by (simp add: tidy_def slots_inv_def ev_inv_def loop_inv_def loop_watched_def pending_watches_def
      cong: fd_callbacks.case_cong)

lemma world_tidy_backends:
  "world_tidy (wd\<lparr>wd_ctx := (wd_ctx wd)\<lparr>cx_backends := bs\<rparr>\<rparr>) = world_tidy wd"
  by (simp add: world_tidy_def idle_sys_def focus_def tidy_backends own_ids_def loop_watched_def
      cong: fd_callbacks.case_cong)

text \<open>The backends of a context are loaded with its first query.\<close>

definition loaded :: "env \<Rightarrow> string \<Rightarrow> netresolve_context \<Rightarrow> netresolve_context" where
  "loaded E extra c = (if cx_backends c = None
     then netresolve_set_backend_string E extra (secure_getenv E ''NETRESOLVE_BACKENDS'') c else c)"

definition configured :: "env \<Rightarrow> string \<Rightarrow> netresolve_context \<Rightarrow> nat" where
  "configured E extra c = (case cx_backends (loaded E extra c) of None \<Rightarrow> 0 | Some bs \<Rightarrow> length bs)"

lemma loaded_alt: "loaded E extra c = c\<lparr>cx_backends := cx_backends (loaded E extra c)\<rparr>"
  by (cases c) (simp add: loaded_def netresolve_set_backend_string_def Let_def)

text \<open>
  Between two blocking calls: the loop is installed, every query is finished, nothing is
  registered. Before the first call the context is as it was created.
\<close>

definition blocking_ready :: "env \<Rightarrow> world \<Rightarrow> bool" where
  "blocking_ready E wd \<longleftrightarrow>
     world_ok wd \<and> cx_callbacks (wd_ctx wd) = FD_EPOLL_INTERNAL \<and> (\<forall>q \<in> set (wd_queries wd). q_watches q = []) \<or>
     wd_ctx wd = netresolve_context_new E \<and> wd_queries wd = [] \<and> fds_inv (wd_os wd)"

text \<open>The world when everything is set up for the first state change of the last query.\<close>

definition prepared :: "nat \<Rightarrow> nat \<Rightarrow> world \<Rightarrow> bool" where
  "prepared m l wd \<longleftrightarrow> length (wd_queries wd) = Suc m \<and> world_tidy wd \<and>
     cx_callbacks (wd_ctx wd) = FD_EPOLL_INTERNAL \<and> backend_count wd = l \<and>
     (\<forall>j < m. query_ok (focus j wd) \<and> q_watches (wd_queries wd ! j) = []) \<and>
     ready (focus m wd) \<and> state_of (focus m wd) = STATE_NONE \<and>
     q_backend (wd_queries wd ! m) = 0 \<and> q_watches (wd_queries wd ! m) = []"

lemma query_ok_backends:
  assumes "query_ok \<lparr>s_os = o1, s_ctx = c, s_query = q\<rparr>" and "cx_backends c \<in> {None, Some bs}"
  shows "query_ok \<lparr>s_os = o1, s_ctx = c\<lparr>cx_backends := Some bs\<rparr>, s_query = q\<rparr>"
  using assms
  by (cases "cx_backends c") (auto simp: query_ok_def settled_def tidy_backends slots_match_def extra_watches_def backend_list_def)

abbreviation new_query :: "netresolve_request \<Rightarrow> query_callback option \<Rightarrow> user_data \<Rightarrow> netresolve_query" where
  "new_query r callback data \<equiv> zero_query\<lparr>q_request := r, q_callback := callback, q_user_data := data\<rparr>"

lemma prepared_append:
  assumes wd: "world_ok wd" and e: "cx_callbacks (wd_ctx wd) = FD_EPOLL_INTERNAL"
    and idle: "\<forall>q \<in> set (wd_queries wd). q_watches q = []"
    and bs: "cx_backends (wd_ctx wd) \<in> {None, Some bs}" "bs \<noteq> []"
  shows "prepared (length (wd_queries wd)) (length bs)
    (wd\<lparr>wd_ctx := (wd_ctx wd)\<lparr>cx_backends := Some bs\<rparr>, wd_queries := wd_queries wd @ [new_query r callback data]\<rparr>)"
    (is "prepared ?m _ ?wd")
proof -
  let ?q = "new_query r callback data" and ?wd1 = "wd\<lparr>wd_ctx := (wd_ctx wd)\<lparr>cx_backends := Some bs\<rparr>\<rparr>"
  have q: "q_watches ?q = []" "q_nfds ?q = 0" "get_slot sl ?q = None" for sl
    by (simp_all add: zero_query_def get_slot_def split: timeout_slot.splits)
  have "world_tidy ?wd1" using wd unfolding world_ok_def world_tidy_backends by blast
  from world_tidy_append [OF this q] have t: "world_tidy ?wd" by simp
  have "query_ok (focus j ?wd) \<and> q_watches (wd_queries ?wd ! j) = []" if "j < ?m" for j
    using wd that idle query_ok_backends [OF _ bs(1)] unfolding world_ok_def by (simp add: focus_def nth_append)
  moreover have "tidy (focus ?m ?wd)" using world_tidyD(2) [OF t, of ?m] by simp
  moreover have "s_query (focus ?m ?wd) = ?q" by simp
  then have "get_slot sl (s_query (focus ?m ?wd)) = None" for sl using q(3) by (simp only:)
  moreover have "q_backend ?q = 0" "q_state ?q = STATE_NONE" by (simp_all add: zero_query_def)
  ultimately show ?thesis
    using t e bs(2) q(1) by (simp add: prepared_def ready_def backend_count_def backend_list_def idle_sys_def)
qed

lemma fresh_installed:
  assumes "fds_inv o1" and "alloc_fd o1 = Some (fd, o2)"
  shows "world_ok \<lparr>wd_os = o2, wd_ctx = (netresolve_context_new E)\<lparr>cx_backends := bs, cx_callbacks := FD_EPOLL_INTERNAL,
    cx_epoll := zero_epoll\<lparr>ep_fd := fd, ep_events := Some []\<rparr>\<rparr>, wd_queries = []\<rparr>"
proof -
  have "fds_inv o2"
    using assms lowest_fd_fresh [of "os_open_fds o1"] by (auto simp: alloc_fd_def Let_def fds_inv_def split: if_splits)
  then show ?thesis
    by (simp add: world_ok_def world_tidy_def idle_sys_def tidy_def slots_inv_def get_slot_def ev_inv_def loop_inv_def
        epoll_inv_def loop_watched_def epoll_watched_def pending_watches_def netresolve_context_new_def zero_defs
        split: timeout_slot.splits)
qed

lemma prepare_query_ok:
  assumes wd: "blocking_ready E wd" and opts: "\<And>r. fst (netresolve_request_set_options_from_va r opts)"
  shows "returns {Aborted, Invalid_free} (prepare_query n C E extra callback data type opts wd)
    (\<lambda>(h, wd'). h = Some (length (wd_queries wd)) \<and>
      prepared (length (wd_queries wd)) (configured E extra (wd_ctx wd)) wd')"
proof -
  let ?c = "loaded E extra (wd_ctx wd)" and ?m = "length (wd_queries wd)"
  show ?thesis
  proof (cases "cx_backends ?c = None \<or> cx_backends ?c = Some []")
    case True
    then show ?thesis by (simp add: prepare_query_def netresolve_query_new_def loaded_def [symmetric] Let_def)
  next
    case False
    then obtain bs where bs: "cx_backends ?c = Some bs" "bs \<noteq> []" by auto
    have c: "?c = (wd_ctx wd)\<lparr>cx_backends := Some bs\<rparr>" using loaded_alt [of E extra "wd_ctx wd"] bs(1) by simp
    obtain r where r: "netresolve_request_set_options_from_va ((cx_request (wd_ctx wd))\<lparr>rq_type := type\<rparr>) opts = (True, r)"
      using opts [of "(cx_request (wd_ctx wd))\<lparr>rq_type := type\<rparr>"] by (metis prod.collapse)
    define r1 where "r1 = (if cx_force_family (wd_ctx wd) \<noteq> 0 then r\<lparr>rq_family := cx_force_family (wd_ctx wd)\<rparr> else r)"
    let ?wd = "wd\<lparr>wd_ctx := ?c, wd_queries := wd_queries wd @ [new_query r1 callback data]\<rparr>"
    have run: "prepare_query n C E extra callback data type opts wd =
      (if cx_callbacks (wd_ctx wd) = FD_NONE then
         rbind (netresolve_epoll_install True (wd_os wd) ?c) (\<lambda>(_, o1, c). Inr (Some ?m, ?wd\<lparr>wd_os := o1, wd_ctx := c\<rparr>))
       else Inr (Some ?m, ?wd))"
      using False r c
      by (simp add: prepare_query_def netresolve_query_new_def loaded_def [symmetric] Let_def zero_query_def r1_def)
    have conf: "configured E extra (wd_ctx wd) = length bs" by (simp add: configured_def bs)
    have old: "cx_backends (wd_ctx wd) \<in> {None, Some bs}" using bs(1) by (auto simp: loaded_def split: if_splits)
    from wd show ?thesis
      unfolding blocking_ready_def
    proof (elim disjE conjE)
      assume "world_ok wd" "cx_callbacks (wd_ctx wd) = FD_EPOLL_INTERNAL" "\<forall>q \<in> set (wd_queries wd). q_watches q = []"
      from prepared_append [OF this old bs(2)] show ?thesis
        unfolding run c conf using \<open>cx_callbacks (wd_ctx wd) = FD_EPOLL_INTERNAL\<close> by simp
    next
      assume f: "wd_ctx wd = netresolve_context_new E" "wd_queries wd = []" "fds_inv (wd_os wd)"
      show ?thesis
      proof (cases "alloc_fd (wd_os wd)")
        case None
        then show ?thesis
          unfolding run c unfolding f(1) by (simp add: netresolve_epoll_install_def netresolve_context_new_def zero_defs)
      next
        case (Some p)
        obtain fd o2 where p: "p = (fd, o2)" by (cases p)
        let ?w0 = "\<lparr>wd_os = o2, wd_ctx = (netresolve_context_new E)\<lparr>cx_backends := None, cx_callbacks := FD_EPOLL_INTERNAL,
          cx_epoll := zero_epoll\<lparr>ep_fd := fd, ep_events := Some []\<rparr>\<rparr>, wd_queries = []\<rparr>"
        have "prepared 0 (length bs)
          (?w0\<lparr>wd_ctx := (wd_ctx ?w0)\<lparr>cx_backends := Some bs\<rparr>, wd_queries := wd_queries ?w0 @ [new_query r1 callback data]\<rparr>)"
          using prepared_append [OF fresh_installed [where E = E and bs = None, OF f(3) Some [unfolded p]], where bs = bs and r = r1 and callback = callback and data = data] bs(2) by simp
        moreover have "netresolve_epoll_install True (wd_os wd) ?c = Inr (True, o2, (wd_ctx ?w0)\<lparr>cx_backends := Some bs\<rparr>)"
          unfolding c unfolding f(1)
          by (simp add: Some p netresolve_epoll_install_def netresolve_set_fd_callbacks_def netresolve_context_new_def zero_defs)
        moreover have w: "wd\<lparr>wd_queries := qs, wd_os := o2, wd_ctx := d\<rparr> = \<lparr>wd_os = o2, wd_ctx = d, wd_queries = qs\<rparr>" for d qs
          by (cases wd) simp
        moreover have "cx_callbacks (wd_ctx wd) = FD_NONE" by (simp add: f(1) netresolve_context_new_def zero_context_def)
        ultimately show ?thesis unfolding run conf using f(2) by (simp add: w)
      qed
    qed
  qed
qed

lemma no_watch_no_slot: "tidy s \<Longrightarrow> q_watches (s_query s) = [] \<Longrightarrow> get_slot sl (s_query s) = None"
  by (cases "get_slot sl (s_query s)") (auto simp: tidy_def slots_inv_def)

lemma no_watch_no_work:
  assumes "tidy s" and "q_watches (s_query s) = []"
  shows "query_work l (s_query s) = 0"
  using no_watch_no_slot [OF assms, of Slot_delayed] by (simp add: query_work_def get_slot_def)

lemma prepared_work:
  assumes "prepared m l wd"
  shows "pending_work (unfocus m wd s') \<le> backend_count (unfocus m wd s')"
proof -
  let ?f = "query_work (backend_count (unfocus m wd s'))"
  have t: "tidy (focus j wd)" "q_watches (wd_queries wd ! j) = []" if "j < m" for j
    using assms that by (simp_all add: prepared_def query_ok_def settled_def)
  have "?f (wd_queries wd ! j) = 0" if "j < m" for j
    using no_watch_no_work [OF t(1) [OF that]] t(2) [OF that] by simp
  then have "map ?f (take m (wd_queries wd)) = replicate m 0"
    using assms by (intro nth_equalityI) (simp_all add: prepared_def)
  moreover have "wd_queries (unfocus m wd s') = take m (wd_queries wd) @ [s_query s']"
    using assms by (simp add: prepared_def upd_conv_take_nth_drop)
  ultimately show ?thesis by (simp add: pending_work_def sum_list_replicate query_work_def)
qed

context prompt_code
begin

lemma start_rests:
  assumes p: "prepared m l wd" and n: "n > 2 * l"
  shows "returns F (on_query m (netresolve_query_set_state n C STATE_SETUP) wd)
    (\<lambda>wd'. world_ok wd' \<and> same_setting wd wd' \<and> pending_work wd' \<le> l)"
proof -
  let ?s = "focus m wd"
  have m: "m < length (wd_queries wd)" and t: "world_tidy wd" and e: "cx_callbacks (wd_ctx wd) = FD_EPOLL_INTERNAL"
    and l: "backend_count wd = l" and others: "\<And>j. j < m \<Longrightarrow> query_ok (focus j wd)" and r: "ready ?s"
    and st: "state_of ?s = STATE_NONE" "q_backend (s_query ?s) = 0" "q_watches (s_query ?s) = []"
    using p by (simp_all add: prepared_def)
  have x: "extra_watches ?s = 0"
    using world_tidyD(2) [OF t m] ev_invD(3) [of ?s] st(3) no_watch_no_slot [of ?s Slot_delayed]
      no_watch_no_slot [of ?s Slot_request_timeout] no_watch_no_slot [of ?s Slot_result_timeout]
    by (simp add: tidy_def extra_watches_def armed_def get_slot_def)
  have "returns F (netresolve_query_set_state n C STATE_SETUP ?s) (at_rest False ?s)"
    using n l st by (intro setup_rests [OF r]) simp_all
  then show ?thesis
    unfolding on_query_def if_P [OF m]
  proof (rule returns_bind)
    fix s' assume a: "at_rest False ?s s'"
    have sts: "statics False s' = statics False ?s" using a by (simp add: at_rest_def)
    then have "extra_watches s' = 0" using statics_eqD(4) [OF sts] x by simp
    then have ok: "query_ok s'" using a settled_at_rest [OF a] by (auto simp: query_ok_def at_rest_def split: if_splits)
    have "query_ok (focus j wd)" if "j < length (wd_queries wd)" "j \<noteq> m" for j
      using others [of j] that p by (simp add: prepared_def)
    note w = world_ok_step [OF t m this ok sts]
    show "returns F (Inr (unfocus m wd s')) (\<lambda>wd'. world_ok wd' \<and> same_setting wd wd' \<and> pending_work wd' \<le> l)"
      using w prepared_work [OF p, of s'] l by simp
  qed
qed

lemma start_blocking:
  assumes p: "prepared m l wd" and n: "n > 2 * l" and k: "k \<ge> l" and wait: "epoll_contract wait"
  shows "returns F (netresolve_query_start k n C wait m wd)
    (\<lambda>wd'. length (wd_queries wd') = Suc m \<and> world_ok wd' \<and> cx_callbacks (wd_ctx wd') = FD_EPOLL_INTERNAL \<and>
      (\<forall>q \<in> set (wd_queries wd'). q_watches q = []))"
proof -
  have e: "cx_callbacks (wd_ctx wd) = FD_EPOLL_INTERNAL" and l: "backend_count wd = l"
    using p by (simp_all add: prepared_def)
  from start_rests [OF p n] show ?thesis
    unfolding netresolve_query_start_def
  proof (rule returns_bind)
    fix wd1 assume "world_ok wd1 \<and> same_setting wd wd1 \<and> pending_work wd1 \<le> l"
    then have w1: "world_ok wd1" "same_setting wd wd1" "pending_work wd1 \<le> k" "uses_epoll wd1" using e k by simp_all
    have "returns F (netresolve_epoll_wait k n C wait wd1)
        (\<lambda>wd'. world_ok wd' \<and> same_setting wd1 wd' \<and> ep_count (cx_epoll (wd_ctx wd')) = 0)"
      using w1 n l by (intro epoll_wait_ok wait) simp_all
    then show "returns F (if cx_callbacks (wd_ctx wd1) = FD_EPOLL_INTERNAL then netresolve_epoll_wait k n C wait wd1 else Inr wd1)
      (\<lambda>wd'. length (wd_queries wd') = Suc m \<and> world_ok wd' \<and> cx_callbacks (wd_ctx wd') = FD_EPOLL_INTERNAL \<and>
      (\<forall>q \<in> set (wd_queries wd'). q_watches q = []))"
    proof (rule returns_if [OF returns_mono])
      fix wd2 assume w2: "world_ok wd2 \<and> same_setting wd1 wd2 \<and> ep_count (cx_epoll (wd_ctx wd2)) = 0"
      then have "uses_epoll wd2" using w1 by simp
      then show "length (wd_queries wd2) = Suc m \<and> world_ok wd2 \<and> cx_callbacks (wd_ctx wd2) = FD_EPOLL_INTERNAL \<and>
          (\<forall>q \<in> set (wd_queries wd2). q_watches q = [])"
        using w1(2) w2 e p unregistered_no_watches [of wd2] by (simp add: prepared_def)
    qed (use w1 e in simp_all)
  qed
qed

lemma query_blocking:
  assumes "blocking_ready E wd" and "\<And>r. fst (netresolve_request_set_options_from_va r opts)"
    and "n > 2 * configured E extra (wd_ctx wd)" and "k \<ge> configured E extra (wd_ctx wd)" and "epoll_contract wait"
  shows "returns (insert Invalid_free F) (query_start_new k n C E extra wait callback data type opts wd)
    (\<lambda>(h, wd'). h = Some (length (wd_queries wd)) \<and> length (wd_queries wd') = Suc (length (wd_queries wd)) \<and>
      world_ok wd' \<and> cx_callbacks (wd_ctx wd') = FD_EPOLL_INTERNAL \<and> (\<forall>q \<in> set (wd_queries wd'). q_watches q = []))"
proof -
  let ?m = "length (wd_queries wd)" and ?l = "configured E extra (wd_ctx wd)"
  have "returns (insert Invalid_free F) (prepare_query n C E extra callback data type opts wd)
      (\<lambda>(h, wd'). h = Some ?m \<and> prepared ?m ?l wd')"
    by (rule returns_mono [OF prepare_query_ok [OF assms(1,2)]]) (use aborts in simp_all)
  then show ?thesis
    unfolding query_start_new_def
  proof (rule returns_bind)
    fix x :: "nat option \<times> world" assume "case x of (h, wd') \<Rightarrow> h = Some ?m \<and> prepared ?m ?l wd'"
    then obtain wd1 where x: "x = (Some ?m, wd1)" and p: "prepared ?m ?l wd1" by (cases x) simp
    have "returns (insert Invalid_free F) (netresolve_query_start k n C wait ?m wd1)
      (\<lambda>wd'. length (wd_queries wd') = Suc ?m \<and> world_ok wd' \<and> cx_callbacks (wd_ctx wd') = FD_EPOLL_INTERNAL \<and>
        (\<forall>q \<in> set (wd_queries wd'). q_watches q = []))"
      by (rule returns_mono [OF start_blocking [OF p assms(3-5)]]) auto
    from returns_bind [OF this, of "\<lambda>wd. Inr (Some ?m, wd)"]
    show "returns (insert Invalid_free F)
      (case x of (h, wd) \<Rightarrow> case h of None \<Rightarrow> Inr (None, wd)
        | Some i \<Rightarrow> rbind (netresolve_query_start k n C wait i wd) (\<lambda>wd. Inr (Some i, wd)))
      (\<lambda>(h, wd'). h = Some ?m \<and> length (wd_queries wd') = Suc ?m \<and>
        world_ok wd' \<and> cx_callbacks (wd_ctx wd') = FD_EPOLL_INTERNAL \<and> (\<forall>q \<in> set (wd_queries wd'). q_watches q = []))"
      unfolding x by simp
  qed
qed

end

interpretation prompt_backends: prompt_code "local_code E junk reading_callback" local_faults
  by (intro prompt_code.intro local_code_contract reading_callback_quiet)

section \<open>Blocking queries over local backends\<close>

lemma query_ok_final:
  assumes "query_ok s" and "q_watches (s_query s) = []"
  shows "state_of s \<in> {STATE_DONE, STATE_FAILED} \<or> state_of s = STATE_RESOLVED \<and> q_delayed (s_query s) = None"
  using assms no_watch_no_slot [of s Slot_delayed] by (auto simp: query_ok_def settled_def get_slot_def)


definition blocking_env :: env where
  "blocking_env = sample_env\<lparr>secure_getenv := (\<lambda>name. if name = ''NETRESOLVE_BACKENDS'' then Some ''any|loopback'' else None),
     dlopen := (\<lambda>_. True), dlsym := (\<lambda>_ name. name = ''query_forward'')\<rparr>"

definition ready_all :: epoll_wait where
  "ready_all t l = Some (map (\<lambda>(fd, w). (w, POLLIN)) (ep_interest l))"

lemma ready_all_contract: "epoll_contract ready_all"
  by (force simp: epoll_contract_def ready_all_def)

definition blocking_world :: world where
  "blocking_world = \<lparr>wd_os = s_os initial_sys, wd_ctx = netresolve_context_new blocking_env, wd_queries = []\<rparr>"

lemma blocking_world_ready: "blocking_ready blocking_env blocking_world"
  using ev_invD(2) [OF ev_inv_initial_sys] by (simp add: blocking_ready_def blocking_world_def)




end
