(* ===== verification/Compat.thy ===== *)
theory Compat
  imports Context Paths
begin

text \<open>
  The POSIX-like front ends of \<open>lib/compat.c\<close>: socket addresses of results, and the
  \<open>getaddrinfo\<close>, \<open>getnameinfo\<close>, \<open>gethostbyname\<close> and \<open>gethostbyaddr\<close> calls with
  their completion functions. Releasing of result structures has no effect in the model.
\<close>

unbundle bit_operations_syntax

section \<open>Socket addresses\<close>

abbreviation sizeof_sockaddr_in :: int where "sizeof_sockaddr_in \<equiv> 16"
abbreviation sizeof_sockaddr_in6 :: int where "sizeof_sockaddr_in6 \<equiv> 28"

text \<open>
  The address is built in a buffer of the query, which is cleared first; a path of another
  family gives NULL. The lifetime is the one of the auxiliary information.
\<close>

definition netresolve_query_get_sockaddr ::
    "netresolve_query \<Rightarrow> nat \<Rightarrow> (sockaddr option \<times> int \<times> int \<times> int \<times> netresolve_query) res" where
  "netresolve_query_get_sockaddr q idx =
     rbind (netresolve_query_get_node_info q idx) (\<lambda>(family, address, ifindex).
     rbind (netresolve_query_get_service_info q idx) (\<lambda>(socktype, protocol, port).
     rbind (netresolve_query_get_aux_info q idx) (\<lambda>(_, _, ttl).
       (let sa = (if family = AF_INET then Some (Sockaddr_in (htons (word_of_int port)) (mem_read 4 address))
                  else if family = AF_INET6 then Some (Sockaddr_in6 (htons (word_of_int port)) ifindex (mem_read 16 address))
                  else None)
        in Inr (sa, socktype, protocol, ttl, q\<lparr>q_sa_buffer := sa\<rparr>)))))"

definition sa_family :: "sockaddr \<Rightarrow> int" where
  "sa_family sa = (case sa of Sockaddr_in _ _ \<Rightarrow> AF_INET | Sockaddr_in6 _ _ _ \<Rightarrow> AF_INET6)"

definition sa_length :: "sockaddr \<Rightarrow> int" where
  "sa_length sa = (case sa of Sockaddr_in _ _ \<Rightarrow> sizeof_sockaddr_in | Sockaddr_in6 _ _ _ \<Rightarrow> sizeof_sockaddr_in6)"

section \<open>getaddrinfo\<close>

abbreviation AI_CANONNAME :: int where "AI_CANONNAME \<equiv> 2"

definition zero_hints :: addrinfo where
  "zero_hints = \<lparr>ai_flags = 0, ai_family = 0, ai_socktype = 0, ai_protocol = 0, ai_addr = None\<rparr>"

text \<open>Without \<open>AI_CANONNAME\<close> the node name of the result is replaced by an empty one.\<close>

definition netresolve_query_getaddrinfo ::
    "nat \<Rightarrow> nat \<Rightarrow> code \<Rightarrow> env \<Rightarrow> string \<Rightarrow> epoll_wait \<Rightarrow> string option \<Rightarrow> string option \<Rightarrow> addrinfo option \<Rightarrow>
     query_callback option \<Rightarrow> user_data \<Rightarrow> world \<Rightarrow> (nat option \<times> world) res" where
  "netresolve_query_getaddrinfo k n C E extra wait nodename servname hints callback data wd =
     (let h = (case hints of None \<Rightarrow> zero_hints | Some h \<Rightarrow> h)
      in rbind (query_start_new k n C E extra wait callback data REQUEST_FORWARD
           [OPTION_NODE_NAME nodename,
            OPTION_SERVICE_NAME (Some (case servname of None \<Rightarrow> [] | Some s \<Rightarrow> s)),
            OPTION_FAMILY (ai_family h), OPTION_SOCKTYPE (ai_socktype h), OPTION_PROTOCOL (ai_protocol h),
            OPTION_DEFAULT_LOOPBACK (ai_flags h AND AI_PASSIVE = 0)] wd) (\<lambda>(q, wd).
         if ai_flags h AND AI_CANONNAME = 0 then
           (case q of
              None \<Rightarrow> Inl Null_dereference
            | Some i \<Rightarrow> rbind (on_query i (\<lambda>s. Inr (upd_response (\<lambda>r. r\<lparr>rs_nodename := Some []\<rparr>) s)) wd)
                (\<lambda>wd. Inr (q, wd)))
         else Inr (q, wd)))"

record addrinfo_result = addrinfo +
  ai_addrlen :: int
  ai_canonname :: "string option"

text \<open>The path at one index, appended to the list under construction; the lowest lifetime is kept.\<close>

definition addrinfo_append ::
    "string option \<Rightarrow> nat \<Rightarrow> addrinfo_result list \<times> int \<times> netresolve_query \<Rightarrow>
     (addrinfo_result list \<times> int \<times> netresolve_query) res" where
  "addrinfo_append canonname i = (\<lambda>(items, ttlp, q).
     rbind (netresolve_query_get_sockaddr q i) (\<lambda>(sa, socktype, protocol, ttl, q).
       (case sa of
          None \<Rightarrow> Inl Null_dereference
        | Some a \<Rightarrow>
            Inr (items @ [\<lparr>ai_flags = 0, ai_family = sa_family a, ai_socktype = socktype,
                    ai_protocol = protocol, ai_addr = Some a, ai_addrlen = sa_length a,
                    ai_canonname = (if i = 0 \<and> canonname \<noteq> None \<and> canonname \<noteq> Some [] then canonname else None)\<rparr>],
                 min ttlp ttl, q))))"

definition netresolve_query_getaddrinfo_done ::
    "nat \<Rightarrow> code \<Rightarrow> sys \<Rightarrow> (int \<times> addrinfo_result list \<times> int \<times> sys) res" where
  "netresolve_query_getaddrinfo_done n C s =
     (let q = s_query s; canonname = netresolve_query_get_node_name q
      in rbind (foreach (addrinfo_append canonname) [0..<netresolve_query_get_count q] ([], INT32_MAX, q))
           (\<lambda>(items, ttl, q).
             rbind (netresolve_query_free n C (s\<lparr>s_query := q\<rparr>)) (\<lambda>s.
               Inr (if items \<noteq> [] then 0 else EAI_NODATA, items, ttl, s))))"

section \<open>getnameinfo\<close>

abbreviation NI_DGRAM :: int where "NI_DGRAM \<equiv> 16"

definition netresolve_query_getnameinfo ::
    "nat \<Rightarrow> nat \<Rightarrow> code \<Rightarrow> env \<Rightarrow> string \<Rightarrow> epoll_wait \<Rightarrow> sockaddr \<Rightarrow> int \<Rightarrow> int \<Rightarrow>
     query_callback option \<Rightarrow> user_data \<Rightarrow> world \<Rightarrow> (nat option \<times> world) res" where
  "netresolve_query_getnameinfo k n C E extra wait sa salen flags callback data wd =
     (let protocol = (if flags AND NI_DGRAM \<noteq> 0 then IPPROTO_UDP else IPPROTO_TCP)
      in case sa of
           Sockaddr_in port addr \<Rightarrow>
             if salen \<noteq> sizeof_sockaddr_in then Inr (None, wd)
             else netresolve_query_reverse k n C E extra wait AF_INET addr 0 protocol (uint (ntohs port)) callback data wd
         | Sockaddr_in6 port scope_id addr \<Rightarrow>
             if salen \<noteq> sizeof_sockaddr_in6 then Inr (None, wd)
             else netresolve_query_reverse k n C E extra wait AF_INET6 addr scope_id protocol (uint (ntohs port)) callback data wd)"

definition netresolve_query_getnameinfo_done ::
    "nat \<Rightarrow> code \<Rightarrow> sys \<Rightarrow> (string option \<times> string option \<times> sys) res" where
  "netresolve_query_getnameinfo_done n C s =
     (let node = netresolve_query_get_node_name (s_query s);
          service = netresolve_query_get_service_name (s_query s)
      in rbind (netresolve_query_free n C s) (\<lambda>s. Inr (node, service, s)))"

section \<open>gethostbyname and gethostbyaddr\<close>

abbreviation HOST_NOT_FOUND :: int where "HOST_NOT_FOUND \<equiv> 1"

definition netresolve_query_gethostbyname ::
    "nat \<Rightarrow> nat \<Rightarrow> code \<Rightarrow> env \<Rightarrow> string \<Rightarrow> epoll_wait \<Rightarrow> string option \<Rightarrow> int \<Rightarrow>
     query_callback option \<Rightarrow> user_data \<Rightarrow> world \<Rightarrow> (nat option \<times> world) res" where
  "netresolve_query_gethostbyname k n C E extra wait name family callback data =
     query_start_new k n C E extra wait callback data REQUEST_FORWARD
       [OPTION_NODE_NAME name, OPTION_FAMILY family]"

text \<open>
  The address list has the family of the first internet path; paths of the other family are
  skipped, though their lifetimes count.
\<close>

definition hostent_append :: "netresolve_query \<Rightarrow> nat \<Rightarrow> int \<times> byte list list \<times> int \<Rightarrow> (int \<times> byte list list \<times> int) res" where
  "hostent_append q idx = (\<lambda>(addrtype, addrs, ttlp).
     rbind (netresolve_query_get_node_info q idx) (\<lambda>(family, address, ifindex).
     rbind (netresolve_query_get_service_info q idx) (\<lambda>_.
     rbind (netresolve_query_get_aux_info q idx) (\<lambda>(_, _, ttl).
       (let ttlp = min ttlp ttl
        in if family \<noteq> AF_INET \<and> family \<noteq> AF_INET6 then Inr (addrtype, addrs, ttlp)
           else if addrtype \<noteq> 0 \<and> addrtype \<noteq> family then Inr (addrtype, addrs, ttlp)
           else Inr (family, addrs @ [mem_read (if family = AF_INET then 4 else 16) address], ttlp))))))"

definition get_hostent :: "nat \<Rightarrow> code \<Rightarrow> sys \<Rightarrow> (hostent \<times> int \<times> sys) res" where
  "get_hostent n C s =
     (let q = s_query s
      in rbind (foreach (hostent_append q) [0..<netresolve_query_get_count q] (0, [], INT32_MAX))
           (\<lambda>(addrtype, addrs, ttl).
             rbind (netresolve_query_free n C s) (\<lambda>s.
               Inr (\<lparr>h_name = netresolve_query_get_node_name q, h_addrtype = addrtype, h_addr_list = addrs\<rparr>, ttl, s))))"

text \<open>Without a result the error is set and the query stays allocated.\<close>

definition netresolve_query_gethostbyname_done ::
    "nat \<Rightarrow> code \<Rightarrow> sys \<Rightarrow> (int + hostent \<times> int \<times> sys) res" where
  "netresolve_query_gethostbyname_done n C s =
     (if netresolve_query_get_count (s_query s) = 0 then Inr (Inl HOST_NOT_FOUND)
      else rbind (get_hostent n C s) (\<lambda>r. Inr (Inr r)))"

text \<open>The case of an IPv6 address lacks its \<open>break\<close>.\<close>

definition netresolve_query_gethostbyaddr ::
    "nat \<Rightarrow> nat \<Rightarrow> code \<Rightarrow> env \<Rightarrow> string \<Rightarrow> epoll_wait \<Rightarrow> byte list \<Rightarrow> int \<Rightarrow> int \<Rightarrow>
     query_callback option \<Rightarrow> user_data \<Rightarrow> world \<Rightarrow> (nat option \<times> world) res" where
  "netresolve_query_gethostbyaddr k n C E extra wait address len family callback data wd =
     (if family = AF_INET \<and> len = 4 then
        rbind (netresolve_query_reverse k n C E extra wait family address 0 0 0 callback data wd) (\<lambda>(q, wd).
          (case q of
             None \<Rightarrow> Inr (None, wd)
           | Some i \<Rightarrow> rbind (on_query i (netresolve_backend_add_path E (netresolve_query_set_state n C)
                 family address 0 0 0 0 0 0 0) wd) (\<lambda>wd. Inr (Some i, wd))))
      else Inr (None, wd))"

definition netresolve_query_gethostbyaddr_done :: "nat \<Rightarrow> code \<Rightarrow> sys \<Rightarrow> (hostent \<times> int \<times> sys) res" where
  "netresolve_query_gethostbyaddr_done n C s = get_hostent n C s"

section \<open>Properties\<close>

lemma htons_htons [simp]: "htons (htons w) = w"
proof (rule bit_word_eqI)
  fix n assume "n < LENGTH(16)"
  then show "bit (htons (htons w)) n = bit w n"
    by (auto simp: htons_def bit_simps)
qed

lemma uint_port: "0 \<le> port \<Longrightarrow> port < 65536 \<Longrightarrow> uint (word_of_int port :: 16 word) = port"
  by (simp add: uint_word_of_int)


definition sample_answer :: netresolve_query where
  "sample_answer = zero_query\<lparr>q_state := STATE_DONE, q_backend := 1, q_response := zero_response\<lparr>rs_paths :=
     Some [(sample_path AF_INET)\<lparr>node_address := [10, 0, 0, 1], service_port := 8080\<rparr>]\<rparr>\<rparr>"


text \<open>A finished query: nothing is registered, no timeout is armed and no backend is current.\<close>

definition finished :: "sys \<Rightarrow> bool" where
  "finished s \<longleftrightarrow> state_of s \<noteq> STATE_NONE \<and> q_watches (s_query s) = [] \<and> q_nfds (s_query s) = 0 \<and>
     q_delayed (s_query s) = None \<and> q_request_timeout (s_query s) = None \<and> q_result_timeout (s_query s) = None \<and>
     current_backend s = None \<and> netresolve_service_list_free (q_services (s_query s)) = Inr ()"

text \<open>Destroying it empties the response, unless the request has a DNS name, which is freed twice.\<close>

lemma query_free_finished:
  assumes "finished s" and "n > 0"
  shows "netresolve_query_free n C s =
    (if rq_dns_name (request_of s) \<noteq> None then Inl Invalid_free
     else Inr (upd_response (\<lambda>_. zero_response) (upd_query (\<lambda>q. q\<lparr>q_state := STATE_NONE\<rparr>) s)))"
proof -
  obtain m where m: "n = Suc m" using assms(2) by (cases n) auto
  have "cleanup_query C s = Inr s"
    using assms(1) by (simp add: finished_def cleanup_query_def clear_timeout_def get_slot_def cleanup_backend_def)
  then show ?thesis
    using assms(1) m
    by (auto simp: netresolve_query_free_def finished_def enter_state_def enter_none_def Let_def)
qed

definition effective_ttl :: "netresolve_request \<Rightarrow> netresolve_path \<Rightarrow> int" where
  "effective_ttl r p = (if rq_clamp_ttl r \<ge> 0 then rq_clamp_ttl r else path_ttl p)"

text \<open>What a path becomes in the list of results.\<close>

definition path_sockaddr :: "netresolve_path \<Rightarrow> sockaddr" where
  "path_sockaddr p =
     (if node_family p = AF_INET then Sockaddr_in (htons (word_of_int (service_port p))) (mem_read 4 (node_address p))
      else Sockaddr_in6 (htons (word_of_int (service_port p))) (node_ifindex p) (mem_read 16 (node_address p)))"

definition path_addrinfo :: "string option \<Rightarrow> netresolve_path \<Rightarrow> addrinfo_result" where
  "path_addrinfo canonname p = \<lparr>ai_flags = 0, ai_family = node_family p, ai_socktype = service_socktype p,
     ai_protocol = service_protocol p, ai_addr = Some (path_sockaddr p),
     ai_addrlen = (if node_family p = AF_INET then sizeof_sockaddr_in else sizeof_sockaddr_in6),
     ai_canonname = canonname\<rparr>"

lemma get_sockaddr_path:
  assumes "idx < length (path_list (q_response q))" and "internet (path_list (q_response q) ! idx)"
  shows "netresolve_query_get_sockaddr q idx =
    (let p = path_list (q_response q) ! idx
     in Inr (Some (path_sockaddr p), service_socktype p, service_protocol p, effective_ttl (q_request q) p,
          q\<lparr>q_sa_buffer := Some (path_sockaddr p)\<rparr>))"
  using assms
  by (auto simp: netresolve_query_get_sockaddr_def netresolve_query_get_node_info_def
      netresolve_query_get_service_info_def netresolve_query_get_aux_info_def get_path_def
      netresolve_query_get_count_def internet_def path_sockaddr_def effective_ttl_def Let_def)

lemma addrinfo_append_path:
  assumes "i < length (path_list (q_response q))" and "internet (path_list (q_response q) ! i)"
  shows "addrinfo_append cn i (items, ttl, q) =
    (let p = path_list (q_response q) ! i
     in Inr (items @ [path_addrinfo (if i = 0 \<and> cn \<noteq> Some [] then cn else None) p],
          min ttl (effective_ttl (q_request q) p), q\<lparr>q_sa_buffer := Some (path_sockaddr p)\<rparr>))"
proof -
  let ?p = "path_list (q_response q) ! i"
  have "sa_family (path_sockaddr ?p) = node_family ?p"
    "sa_length (path_sockaddr ?p) = (if node_family ?p = AF_INET then sizeof_sockaddr_in else sizeof_sockaddr_in6)"
    using assms(2) by (auto simp: path_sockaddr_def sa_family_def sa_length_def internet_def)
  moreover note get_sockaddr_path [OF assms]
  ultimately show ?thesis
    by (cases cn) (simp_all add: addrinfo_append_def Let_def path_addrinfo_def)
qed

lemma addrinfo_append_paths:
  assumes "\<forall>i < k. internet (path_list (q_response q) ! i)" and "k \<le> length (path_list (q_response q))"
  shows "\<exists>b. foreach (addrinfo_append cn) [0..<k] ([], INT32_MAX, q) =
    Inr (map (\<lambda>i. path_addrinfo (if i = 0 \<and> cn \<noteq> Some [] then cn else None) (path_list (q_response q) ! i)) [0..<k],
      fold (\<lambda>p t. min t (effective_ttl (q_request q) p)) (take k (path_list (q_response q))) INT32_MAX,
      q\<lparr>q_sa_buffer := b\<rparr>)"
  using assms
proof (induction k)
  case 0
  show ?case by (rule exI [of _ "q_sa_buffer q"]) simp
next
  case (Suc k)
  let ?items = "\<lambda>k. map (\<lambda>i. path_addrinfo (if i = 0 \<and> cn \<noteq> Some [] then cn else None) (path_list (q_response q) ! i)) [0..<k]"
  let ?ttl = "\<lambda>k. fold (\<lambda>p t. min t (effective_ttl (q_request q) p)) (take k (path_list (q_response q))) INT32_MAX"
  from Suc obtain b where b: "foreach (addrinfo_append cn) [0..<k] ([], INT32_MAX, q) =
      Inr (?items k, ?ttl k, q\<lparr>q_sa_buffer := b\<rparr>)" by auto
  let ?p = "path_list (q_response q) ! k"
  have "addrinfo_append cn k (?items k, ?ttl k, q\<lparr>q_sa_buffer := b\<rparr>) =
      Inr (?items (Suc k), min (?ttl k) (effective_ttl (q_request q) ?p), q\<lparr>q_sa_buffer := Some (path_sockaddr ?p)\<rparr>)"
    by (subst addrinfo_append_path) (use Suc.prems in \<open>simp_all add: Let_def\<close>)
  moreover have "min (?ttl k) (effective_ttl (q_request q) ?p) = ?ttl (Suc k)"
    using Suc.prems by (simp add: take_Suc_conv_app_nth)
  ultimately show ?case using b by (auto simp: foreach_append simp del: upt_Suc simp add: upt_Suc_append)
qed

text \<open>
  C21: picking up the result of a finished \<open>getaddrinfo\<close> query gives one entry per path, in the
  order of the paths, each with the path's address; the first one carries the canonical name; the
  lifetime is the lowest of all; no path at all is reported as missing data; and the query is
  destroyed.
\<close>

theorem getaddrinfo_done_paths:
  assumes "finished s" and "n > 0" and "rq_dns_name (request_of s) = None"
    and "\<forall>p \<in> set (path_list (response_of s)). internet p"
  shows "\<exists>s'. netresolve_query_getaddrinfo_done n C s =
    Inr (if path_list (response_of s) = [] then EAI_NODATA else 0,
      map (\<lambda>i. path_addrinfo (if i = 0 \<and> netresolve_query_get_node_name (s_query s) \<noteq> Some []
          then netresolve_query_get_node_name (s_query s) else None) (path_list (response_of s) ! i))
        [0..<length (path_list (response_of s))],
      fold (\<lambda>p t. min t (effective_ttl (request_of s) p)) (path_list (response_of s)) INT32_MAX, s') \<and>
    state_of s' = STATE_NONE \<and> path_list (response_of s') = []"
proof -
  let ?q = "s_query s" and ?ps = "path_list (response_of s)" and ?cn = "netresolve_query_get_node_name (s_query s)"
  obtain b where b: "foreach (addrinfo_append ?cn) [0..<length ?ps] ([], INT32_MAX, ?q) =
      Inr (map (\<lambda>i. path_addrinfo (if i = 0 \<and> ?cn \<noteq> Some [] then ?cn else None) (?ps ! i)) [0..<length ?ps],
        fold (\<lambda>p t. min t (effective_ttl (request_of s) p)) ?ps INT32_MAX, ?q\<lparr>q_sa_buffer := b\<rparr>)"
    using addrinfo_append_paths [of "length ?ps" ?q ?cn] assms(4) by auto
  have "finished (s\<lparr>s_query := ?q\<lparr>q_sa_buffer := b\<rparr>\<rparr>)"
    using assms(1) by (simp add: finished_def current_backend_def backend_list_def split: if_splits)
  from query_free_finished [OF this assms(2), of C] show ?thesis
    using b assms(3) by (auto simp: netresolve_query_getaddrinfo_done_def Let_def netresolve_query_get_count_def
        zero_response_def path_list_def)
qed

theorem getaddrinfo_done_paths_witness:
  "\<exists>s'. netresolve_query_getaddrinfo_done 1 (local_code sample_env [] reading_callback)
      (initial_sys\<lparr>s_query := sample_answer\<rparr>) =
    Inr (0, [\<lparr>ai_flags = 0, ai_family = AF_INET, ai_socktype = SOCK_STREAM, ai_protocol = IPPROTO_TCP,
        ai_addr = Some (Sockaddr_in 36895 [10, 0, 0, 1]), ai_addrlen = 16, ai_canonname = Some ''localhost''\<rparr>], 0, s')"
proof -
  let ?s = "initial_sys\<lparr>s_query := sample_answer\<rparr>" and ?C = "local_code sample_env [] reading_callback"
  have f: "finished ?s" "rq_dns_name (request_of ?s) = None" "\<forall>p \<in> set (path_list (response_of ?s)). internet p"
    by code_simp+
  have r: "path_list (q_response sample_answer) = [(sample_path AF_INET)\<lparr>node_address := [10, 0, 0, 1], service_port := 8080\<rparr>]"
    "netresolve_query_get_node_name sample_answer = Some ''localhost''"
    "effective_ttl (q_request sample_answer) ((sample_path AF_INET)\<lparr>node_address := [10, 0, 0, 1], service_port := 8080\<rparr>) = 0"
    "path_addrinfo (Some ''localhost'') ((sample_path AF_INET)\<lparr>node_address := [10, 0, 0, 1], service_port := 8080\<rparr>) =
      \<lparr>ai_flags = 0, ai_family = AF_INET, ai_socktype = SOCK_STREAM, ai_protocol = IPPROTO_TCP,
        ai_addr = Some (Sockaddr_in 36895 [10, 0, 0, 1]), ai_addrlen = 16, ai_canonname = Some ''localhost''\<rparr>"
    by code_simp+
  from getaddrinfo_done_paths [OF f(1) _ f(2,3), of 1 ?C] show ?thesis
    by (auto simp: r)
qed

text \<open>
  C23: when one of the paths is not an internet one (a local socket, as the backend for them
  delivers), picking up the result follows a null pointer.
\<close>

theorem getaddrinfo_done_other_family:
  assumes "p \<in> set (path_list (response_of s))" and "\<not> internet p"
  shows "netresolve_query_getaddrinfo_done n C s = Inl Null_dereference"
proof -
  let ?ps = "path_list (response_of s)" and ?cn = "netresolve_query_get_node_name (s_query s)"
  let ?k = "find_index (\<lambda>p. \<not> internet p) ?ps"
  have k: "?k < length ?ps" using assms by (auto simp: find_index_less_iff)
  then have bad: "\<not> internet (?ps ! ?k)" using find_index_nth [of "\<lambda>p. \<not> internet p" ?ps] by blast
  have "\<forall>i < ?k. internet (?ps ! i)" using find_index_before [of _ "\<lambda>p. \<not> internet p" ?ps] by blast
  with addrinfo_append_paths [of ?k "s_query s" ?cn] k obtain items ttl b where
    pre: "foreach (addrinfo_append ?cn) [0..<?k] ([], INT32_MAX, s_query s) = Inr (items, ttl, (s_query s)\<lparr>q_sa_buffer := b\<rparr>)"
    by auto
  have "addrinfo_append ?cn ?k (items, ttl, (s_query s)\<lparr>q_sa_buffer := b\<rparr>) = Inl Null_dereference"
    using k bad by (simp add: addrinfo_append_def netresolve_query_get_sockaddr_def netresolve_query_get_node_info_def
        netresolve_query_get_service_info_def netresolve_query_get_aux_info_def get_path_def
        netresolve_query_get_count_def internet_def Let_def)
  moreover have "[0..<length ?ps] = [0..<?k] @ ?k # [Suc ?k..<length ?ps]"
    using k upt_add_eq_append [of 0 ?k "length ?ps - ?k"] upt_conv_Cons [of ?k "length ?ps"] by simp
  ultimately show ?thesis
    using pre by (simp add: netresolve_query_getaddrinfo_done_def Let_def netresolve_query_get_count_def foreach_append)
qed

theorem getaddrinfo_done_other_family_witness:
  "netresolve_query_getaddrinfo_done 1 (local_code sample_env [] reading_callback)
     (initial_sys\<lparr>s_query := zero_query\<lparr>q_response := zero_response\<lparr>rs_paths := Some [sample_path AF_UNIX]\<rparr>\<rparr>\<rparr>) =
   Inl Null_dereference"
  by (rule getaddrinfo_done_other_family [of "sample_path AF_UNIX"])
    (simp_all add: path_list_def internet_def sample_path_def new_path_def zero_query_def)

text \<open>
  C22: the host entry has the node name and the addresses of all paths of one family, in the order
  of the paths: the family of the first internet path.
\<close>

definition first_family :: "netresolve_path list \<Rightarrow> int" where
  "first_family ps = (case filter internet ps of [] \<Rightarrow> 0 | p # _ \<Rightarrow> node_family p)"

lemma hostent_append_path:
  assumes "i < length (path_list (q_response q))"
  shows "hostent_append q i (ty, as, ttl) =
    (let p = path_list (q_response q) ! i
     in Inr (if internet p \<and> (ty = 0 \<or> ty = node_family p)
          then (node_family p, as @ [mem_read (if node_family p = AF_INET then 4 else 16) (node_address p)],
                min ttl (effective_ttl (q_request q) p))
          else (ty, as, min ttl (effective_ttl (q_request q) p))))"
  using assms
  by (auto simp: hostent_append_def netresolve_query_get_node_info_def netresolve_query_get_service_info_def
      netresolve_query_get_aux_info_def get_path_def netresolve_query_get_count_def internet_def
      effective_ttl_def Let_def)

lemma first_family_snoc:
  "first_family (ps @ [p]) = (if first_family ps = 0 \<and> internet p then node_family p else first_family ps)"
proof (cases "filter internet ps")
  case (Cons x xs)
  then have "internet x" by (auto simp: filter_eq_Cons_iff)
  then show ?thesis using Cons by (auto simp: first_family_def internet_def)
qed (simp add: first_family_def)

lemma hostent_append_paths:
  "k \<le> length (path_list (q_response q)) \<Longrightarrow>
   foreach (hostent_append q) [0..<k] (0, [], INT32_MAX) =
     (let ps = take k (path_list (q_response q)); ty = first_family ps
      in Inr (ty, map (\<lambda>p. mem_read (if ty = AF_INET then 4 else 16) (node_address p))
            (filter (\<lambda>p. internet p \<and> node_family p = ty) ps),
          fold (\<lambda>p t. min t (effective_ttl (q_request q) p)) ps INT32_MAX))"
proof (induction k)
  case 0
  show ?case by (simp add: first_family_def Let_def)
next
  case (Suc k)
  let ?ps = "take k (path_list (q_response q))" and ?p = "path_list (q_response q) ! k"
  have tk: "take (Suc k) (path_list (q_response q)) = ?ps @ [?p]"
    using Suc.prems by (simp add: take_Suc_conv_app_nth)
  have none: "filter internet ?ps = [] \<or> first_family ?ps \<noteq> 0"
    by (cases "filter internet ?ps")
      (auto simp: first_family_def internet_def filter_eq_Cons_iff)
  have empty: "first_family ?ps = 0 \<Longrightarrow> filter (\<lambda>p. internet p \<and> node_family p = t) ?ps = []" for t
    using none by (auto simp: filter_empty_conv)
  show ?case
    using Suc hostent_append_path [of k q] empty
    by (auto simp: foreach_append Let_def tk first_family_snoc)
qed

theorem hostent_first_family:
  assumes "finished s" and "n > 0" and "rq_dns_name (request_of s) = None"
  shows "\<exists>ttl s'. get_hostent n C s = Inr (\<lparr>h_name = netresolve_query_get_node_name (s_query s),
      h_addrtype = first_family (path_list (response_of s)),
      h_addr_list = map (\<lambda>p. mem_read (if first_family (path_list (response_of s)) = AF_INET then 4 else 16) (node_address p))
        (filter (\<lambda>p. internet p \<and> node_family p = first_family (path_list (response_of s))) (path_list (response_of s)))\<rparr>,
      ttl, s')"
  using hostent_append_paths [of "length (path_list (response_of s))" "s_query s"]
    query_free_finished [OF assms(1,2)] assms(3)
  by (simp add: get_hostent_def Let_def netresolve_query_get_count_def)

theorem hostent_first_family_witness:
  "\<exists>ttl s'. get_hostent 1 (local_code sample_env [] reading_callback) (initial_sys\<lparr>s_query := sample_answer\<rparr>) =
    Inr (\<lparr>h_name = Some ''localhost'', h_addrtype = AF_INET, h_addr_list = [[10, 0, 0, 1]]\<rparr>, ttl, s')"
proof -
  let ?s = "initial_sys\<lparr>s_query := sample_answer\<rparr>" and ?C = "local_code sample_env [] reading_callback"
  have f: "finished ?s" "rq_dns_name (request_of ?s) = None" by code_simp+
  have r: "netresolve_query_get_node_name sample_answer = Some ''localhost''"
    "first_family (path_list (q_response sample_answer)) = AF_INET"
    "map (\<lambda>p. mem_read 4 (node_address p)) (filter (\<lambda>p. internet p \<and> node_family p = AF_INET) (path_list (q_response sample_answer))) =
      [[10, 0, 0, 1]]"
    by code_simp+
  from hostent_first_family [OF f(1) _ f(2), of 1 ?C] show ?thesis by (simp add: r)
qed

text \<open>
  An IPv6 address can never be looked up by \<open>gethostbyaddr\<close>: NULL is returned before
  any query is made, whatever the length of the address.
\<close>

theorem gethostbyaddr_ipv6_null:
  "netresolve_query_gethostbyaddr k n C E extra wait address len AF_INET6 callback data wd = Inr (None, wd)"
  by (simp add: netresolve_query_gethostbyaddr_def)

end
