(* ===== verification/Socket.thy ===== *)
theory Socket
  imports Compat
begin

text \<open>
  The socket interface of \<open>lib/socket.c\<close>: connecting to the paths of a result, one IPv4 and
  one IPv6 address at a time, and listening on all of them. The kernel's answers to the socket
  calls and the callback of the application are a parameter. A path is named by its index; the
  private structure is in the user data of the query.
\<close>

unbundle bit_operations_syntax

section \<open>The kernel and the application\<close>

text \<open>
  Each answer may depend on the number of earlier calls. A number is an \<open>errno\<close> value, zero for
  success; a truth value tells whether the call succeeds.
\<close>

record net =
  n_socket :: "nat \<Rightarrow> int \<Rightarrow> int \<Rightarrow> int \<Rightarrow> int"
  n_connect :: "nat \<Rightarrow> int \<Rightarrow> sockaddr \<Rightarrow> int"
  n_sock_error :: "nat \<Rightarrow> int \<Rightarrow> int"
  n_reuseaddr :: "nat \<Rightarrow> int \<Rightarrow> bool"
  n_v6only :: "nat \<Rightarrow> int \<Rightarrow> bool"
  n_bind :: "nat \<Rightarrow> int \<Rightarrow> sockaddr \<Rightarrow> bool"
  n_listen :: "nat \<Rightarrow> int \<Rightarrow> bool"
  n_accept :: "nat \<Rightarrow> int \<Rightarrow> bool"
  n_fcntl :: "nat \<Rightarrow> int \<Rightarrow> bool"
  n_callback :: "nat \<Rightarrow> nat \<Rightarrow> int \<Rightarrow> sys \<Rightarrow> sys res"

abbreviation EINPROGRESS :: int where "EINPROGRESS \<equiv> 115"
abbreviation EMFILE :: int where "EMFILE \<equiv> 24"
abbreviation O_NONBLOCK :: int where "O_NONBLOCK \<equiv> 2048"
abbreviation SOCK_NONBLOCK :: int where "SOCK_NONBLOCK \<equiv> 2048"
abbreviation SOCK_CLOEXEC :: int where "SOCK_CLOEXEC \<equiv> 524288"

definition clock :: "sys \<Rightarrow> nat" where
  "clock s = os_clock (s_os s)"

definition tick :: "sys \<Rightarrow> sys" where
  "tick = upd_os (\<lambda>o1. o1\<lparr>os_clock := Suc (os_clock o1)\<rparr>)"

text \<open>\<open>socket()\<close>: a new descriptor with error zero, or -1 with an error.\<close>

definition sys_socket :: "net \<Rightarrow> int \<Rightarrow> int \<Rightarrow> int \<Rightarrow> sys \<Rightarrow> int \<times> int \<times> sys" where
  "sys_socket N family socktype protocol s =
     (let e = n_socket N (clock s) family socktype protocol; s = tick s
      in if e \<noteq> 0 then (- 1, e, s)
         else (case alloc_fd (s_os s) of
                 None \<Rightarrow> (- 1, EMFILE, s)
               | Some (fd, o1) \<Rightarrow> (fd, 0, s\<lparr>s_os := o1\<rparr>)))"

section \<open>Paths and the private structure\<close>

text \<open>The indices that a loop over the paths visits; the array is NULL without any result.\<close>

definition scan_paths :: "sys \<Rightarrow> nat list res" where
  "scan_paths s =
     (case rs_paths (response_of s) of
        None \<Rightarrow> Inl Null_dereference
      | Some ps \<Rightarrow> Inr [0..<length (takeWhile (\<lambda>p. node_family p \<noteq> 0) ps)])"

definition path_at :: "nat \<Rightarrow> sys \<Rightarrow> netresolve_path" where
  "path_at i s = path_list (response_of s) ! i"

definition upd_path :: "nat \<Rightarrow> (netresolve_path \<Rightarrow> netresolve_path) \<Rightarrow> sys \<Rightarrow> sys" where
  "upd_path i f = upd_response (\<lambda>r. r\<lparr>rs_paths := map_option (\<lambda>ps. ps[i := f (ps ! i)]) (rs_paths r)\<rparr>)"

definition get_socket :: "sys \<Rightarrow> netresolve_socket res" where
  "get_socket s = (case q_user_data (s_query s) of UD_socket p \<Rightarrow> Inr p | _ \<Rightarrow> Inl Null_dereference)"

definition upd_socket :: "(netresolve_socket \<Rightarrow> netresolve_socket) \<Rightarrow> sys \<Rightarrow> sys" where
  "upd_socket f = upd_query (\<lambda>q. q\<lparr>q_user_data :=
     (case q_user_data q of UD_socket p \<Rightarrow> UD_socket (f p) | d \<Rightarrow> d)\<rparr>)"

text \<open>The timeouts go through \<open>priv->query\<close>, which is set when name resolution is done.\<close>

definition clear_timeouts :: "sys \<Rightarrow> sys res" where
  "clear_timeouts s =
     rbind (get_socket s) (\<lambda>priv.
     rbind (case so_timeout priv of None \<Rightarrow> Inr s
            | Some w \<Rightarrow> rbind (netresolve_timeout_remove w s) (\<lambda>s. Inr (upd_socket (\<lambda>p. p\<lparr>so_timeout := None\<rparr>) s))) (\<lambda>s.
       (case so_priority_timeout priv of None \<Rightarrow> Inr s
        | Some w \<Rightarrow> rbind (netresolve_timeout_remove w s) (\<lambda>s. Inr (upd_socket (\<lambda>p. p\<lparr>so_priority_timeout := None\<rparr>) s)))))"

section \<open>One connection\<close>

definition socket_watch_add :: "nat \<Rightarrow> int \<Rightarrow> watch_callback \<Rightarrow> sys \<Rightarrow> sys res" where
  "socket_watch_add i events callback s =
     rbind (netresolve_watch_add (socket_fd (path_at i s)) events callback (DATA_path i) s) (\<lambda>(w, s).
       Inr (upd_path i (\<lambda>p. p\<lparr>socket_watch := Some w\<rparr>) s))"

definition socket_schedule :: "nat \<Rightarrow> int \<Rightarrow> watch_callback \<Rightarrow> sys \<Rightarrow> sys res" where
  "socket_schedule i events callback s =
     rbind (assert_that (socket_state (path_at i s) = SOCKET_STATE_NONE) s) (\<lambda>s.
       socket_watch_add i events callback (upd_path i (\<lambda>p. p\<lparr>socket_state := SOCKET_STATE_SCHEDULED\<rparr>) s))"

definition socket_pause :: "nat \<Rightarrow> sys \<Rightarrow> sys res" where
  "socket_pause i s =
     rbind (assert_that (socket_state (path_at i s) = SOCKET_STATE_SCHEDULED) s) (\<lambda>s.
       (case socket_watch (path_at i s) of
          None \<Rightarrow> Inl Assertion_failed
        | Some w \<Rightarrow> rbind (netresolve_watch_remove w False s) (\<lambda>s.
            Inr (upd_path i (\<lambda>p. p\<lparr>socket_watch := None\<rparr>) s))))"

definition socket_resume :: "nat \<Rightarrow> int \<Rightarrow> watch_callback \<Rightarrow> sys \<Rightarrow> sys res" where
  "socket_resume i events callback s =
     rbind (assert_that (socket_state (path_at i s) = SOCKET_STATE_SCHEDULED) s) (\<lambda>s.
     rbind (assert_that (socket_watch (path_at i s) = None) s) (socket_watch_add i events callback))"

definition socket_cleanup :: "nat \<Rightarrow> sys \<Rightarrow> sys res" where
  "socket_cleanup i s =
     (let s = upd_path i (\<lambda>p. p\<lparr>socket_state := SOCKET_STATE_DONE\<rparr>) s
      in rbind (case socket_watch (path_at i s) of
                  None \<Rightarrow> Inr s
                | Some w \<Rightarrow> rbind (netresolve_watch_remove w False s) (\<lambda>s.
                    Inr (upd_path i (\<lambda>p. p\<lparr>socket_watch := None\<rparr>) s))) (\<lambda>s.
           Inr (if socket_fd (path_at i s) \<noteq> - 1
                then upd_path i (\<lambda>p. p\<lparr>socket_fd := - 1\<rparr>) (close_fd (socket_fd (path_at i s)) s)
                else s)))"

section \<open>Choosing a connection\<close>

text \<open>
  \<open>pickup_connected_socket\<close>, \<open>connect_check\<close>, \<open>connect_start\<close> and
  \<open>enable_sockets\<close> call each other in a circle; \<open>enable\<close> is the recursive call.
\<close>

text \<open>Handing over a ready connection.\<close>

definition pass_socket :: "net \<Rightarrow> nat \<Rightarrow> nat list \<Rightarrow> sys \<Rightarrow> sys res" where
  "pass_socket N i is s =
     (let fd = socket_fd (path_at i s);
          s = upd_path i (\<lambda>p. p\<lparr>socket_state := SOCKET_STATE_DONE, socket_fd := - 1\<rparr>) s
      in rbind (foreach (\<lambda>j s. if socket_state (path_at j s) = SOCKET_STATE_SCHEDULED then socket_pause j s else Inr s) is s) (\<lambda>s.
         rbind (get_socket s) (\<lambda>priv.
         rbind (clear_timeouts (if so_priority_timeout priv \<noteq> None
                  then upd_socket (\<lambda>p. p\<lparr>so_skip_scheduled := False\<rparr>) s else s)) (\<lambda>s.
           (case so_callback priv of
              None \<Rightarrow> Inl Null_dereference
            | Some cb \<Rightarrow> n_callback N cb i fd (upd_os (\<lambda>o1. o1\<lparr>os_sockets := os_sockets o1 @ [(i, fd)]\<rparr>) s))))))"

text \<open>A preferred connection is waited for while another one is ready.\<close>

definition schedule_priority_timeout :: "env \<Rightarrow> nat list \<Rightarrow> sys \<Rightarrow> sys res" where
  "schedule_priority_timeout E is s =
     (if \<exists>i \<in> set is. socket_state (path_at i s) = SOCKET_STATE_READY then
        rbind (get_socket s) (\<lambda>priv.
          if so_priority_timeout priv \<noteq> None then Inr s
          else rbind (netresolve_timeout_add (getenv_int E ''NETRESOLVE_CONNECT_PRIORITY_TIMEOUT'' 1) 0
                 TCB_connect_priority_timeout DATA_socket s) (\<lambda>(w, s).
            Inr (upd_socket (\<lambda>p. p\<lparr>so_priority_timeout := w\<rparr>) s)))
      else Inr s)"

definition pickup_connected_socket :: "env \<Rightarrow> net \<Rightarrow> (sys \<Rightarrow> sys res) \<Rightarrow> sys \<Rightarrow> sys res" where
  "pickup_connected_socket E N enable s =
     rbind (scan_paths s) (\<lambda>is.
     rbind (get_socket s) (\<lambda>priv.
       (case find (\<lambda>i. socket_state (path_at i s) = SOCKET_STATE_SCHEDULED \<and> \<not> so_skip_scheduled priv \<or>
                       socket_state (path_at i s) = SOCKET_STATE_READY) is of
          None \<Rightarrow> enable s
        | Some i \<Rightarrow>
            if socket_state (path_at i s) = SOCKET_STATE_READY then pass_socket N i is s
            else rbind (schedule_priority_timeout E is s) enable)))"

definition connect_check :: "env \<Rightarrow> net \<Rightarrow> (sys \<Rightarrow> sys res) \<Rightarrow> nat \<Rightarrow> int \<Rightarrow> sys \<Rightarrow> sys res" where
  "connect_check E N enable i errno s =
     (if errno = EINPROGRESS then socket_schedule i POLLOUT CB_connect_ready s
      else if errno = 0 then
        rbind (if socket_state (path_at i s) = SOCKET_STATE_SCHEDULED then socket_pause i s else Inr s) (\<lambda>s.
          pickup_connected_socket E N enable (upd_path i (\<lambda>p. p\<lparr>socket_state := SOCKET_STATE_READY\<rparr>) s))
      else rbind (socket_cleanup i s) (pickup_connected_socket E N enable))"

definition connect_start :: "env \<Rightarrow> net \<Rightarrow> (sys \<Rightarrow> sys res) \<Rightarrow> nat \<Rightarrow> sys \<Rightarrow> sys res" where
  "connect_start E N enable i s =
     rbind (assert_that (socket_state (path_at i s) = SOCKET_STATE_NONE) s) (\<lambda>s.
     rbind (netresolve_query_get_sockaddr (s_query s) i) (\<lambda>(sa, socktype, protocol, ttl, q).
       (let s = s\<lparr>s_query := q\<rparr>
        in case sa of
             None \<Rightarrow> Inr s
           | Some a \<Rightarrow>
               (case sys_socket N (sa_family a) (socktype OR O_NONBLOCK) protocol s of (fd, errno, s) \<Rightarrow>
                 (let s = upd_path i (\<lambda>p. p\<lparr>socket_fd := fd\<rparr>) s
                  in if errno = 0 then connect_check E N enable i (n_connect N (clock s) fd a) (tick s)
                     else connect_check E N enable i errno s)))))"

definition ensure_timeout :: "env \<Rightarrow> sys \<Rightarrow> sys res" where
  "ensure_timeout E s =
     rbind (get_socket s) (\<lambda>priv.
       if so_timeout priv \<noteq> None then Inr s
       else rbind (netresolve_timeout_add (getenv_int E ''NETRESOLVE_CONNECT_TIMEOUT'' 15) 0
              TCB_connect_timeout DATA_socket s) (\<lambda>(w, s).
         Inr (upd_socket (\<lambda>p. p\<lparr>so_timeout := w\<rparr>) s)))"

text \<open>The loop counts the addresses of both families that it has seen.\<close>

fun enable_loop :: "env \<Rightarrow> net \<Rightarrow> (sys \<Rightarrow> sys res) \<Rightarrow> nat list \<Rightarrow> nat \<Rightarrow> nat \<Rightarrow> sys \<Rightarrow> (nat \<times> nat \<times> sys) res" where
  "enable_loop E N enable [] ip4 ip6 s = Inr (ip4, ip6, s)"
| "enable_loop E N enable (i # is) ip4 ip6 s =
     (let p = path_at i s;
          ip4' = (if node_family p = AF_INET then Suc ip4 else ip4);
          ip6' = (if node_family p = AF_INET6 then Suc ip6 else ip6)
      in if socket_state p = SOCKET_STATE_DONE then enable_loop E N enable is ip4 ip6 s
         else if node_family p = AF_INET \<and> ip4 > 0 \<or> node_family p = AF_INET6 \<and> ip6 > 0
         then enable_loop E N enable is ip4' ip6' s
         else rbind (ensure_timeout E s) (\<lambda>s.
              rbind (if socket_state (path_at i s) = SOCKET_STATE_NONE then connect_start E N enable i s
                     else if socket_state (path_at i s) = SOCKET_STATE_SCHEDULED \<and> socket_watch (path_at i s) = None
                     then socket_resume i POLLOUT CB_connect_ready s
                     else Inr s) (\<lambda>s.
              rbind (get_socket s) (\<lambda>priv.
                if so_sequential_connect priv then Inr (ip4', ip6', s)
                else enable_loop E N enable is ip4' ip6' s))))"

primrec enable_sockets :: "nat \<Rightarrow> env \<Rightarrow> net \<Rightarrow> sys \<Rightarrow> sys res" where
  "enable_sockets 0 E N = (\<lambda>s. Inl Out_of_fuel)"
| "enable_sockets (Suc m) E N = (\<lambda>s.
     rbind (scan_paths s) (\<lambda>is.
     rbind (enable_loop E N (enable_sockets m E N) is 0 0 s) (\<lambda>(ip4, ip6, s).
       if ip4 = 0 \<and> ip6 = 0 then clear_timeouts s else Inr s)))"

section \<open>Callbacks of a connecting query\<close>

definition connect_ready :: "nat \<Rightarrow> env \<Rightarrow> net \<Rightarrow> netresolve_watch \<Rightarrow> int \<Rightarrow> sys \<Rightarrow> sys res" where
  "connect_ready m E N watch events s =
     (case w_data watch of
        DATA_path i \<Rightarrow>
          rbind (assert_that (w_fd watch = socket_fd (path_at i s)) s) (\<lambda>s.
          rbind (assert_that (events AND POLLOUT \<noteq> 0) s) (\<lambda>s.
          rbind (assert_that (socket_state (path_at i s) = SOCKET_STATE_SCHEDULED) s) (\<lambda>s.
          rbind (assert_that (socket_watch (path_at i s) \<noteq> None) s) (\<lambda>s.
            connect_check E N (enable_sockets m E N) i (n_sock_error N (clock s) (w_fd watch)) (tick s)))))
      | _ \<Rightarrow> Inl Null_dereference)"

definition connect_timeout :: "nat \<Rightarrow> env \<Rightarrow> net \<Rightarrow> sys \<Rightarrow> sys res" where
  "connect_timeout m E N s =
     rbind (clear_timeouts s) (\<lambda>s.
     rbind (scan_paths s) (\<lambda>is.
     rbind (foreach (\<lambda>i s. if socket_state (path_at i s) = SOCKET_STATE_SCHEDULED then socket_cleanup i s else Inr s) is s)
       (enable_sockets m E N)))"

definition connect_priority_timeout :: "nat \<Rightarrow> env \<Rightarrow> net \<Rightarrow> sys \<Rightarrow> sys res" where
  "connect_priority_timeout m E N s =
     pickup_connected_socket E N (enable_sockets m E N) (upd_socket (\<lambda>p. p\<lparr>so_skip_scheduled := True\<rparr>) s)"

definition connect_prepare :: "nat \<Rightarrow> env \<Rightarrow> net \<Rightarrow> sys \<Rightarrow> sys res" where
  "connect_prepare m E N s =
     rbind (scan_paths s) (\<lambda>is.
     rbind (foreach (\<lambda>i s. Inr (upd_path i (\<lambda>p. p\<lparr>socket_fd := - 1\<rparr>) s)) is s) (\<lambda>s.
       enable_sockets m E N (upd_socket (\<lambda>p. p\<lparr>so_query := True\<rparr>) s)))"

section \<open>The connecting side\<close>

definition socket_flags :: "int \<Rightarrow> int" where
  "socket_flags socktype = socktype AND (SOCK_NONBLOCK OR SOCK_CLOEXEC)"

definition netresolve_connect ::
    "nat \<Rightarrow> nat \<Rightarrow> code \<Rightarrow> env \<Rightarrow> string \<Rightarrow> epoll_wait \<Rightarrow> string option \<Rightarrow> string option \<Rightarrow>
     int \<Rightarrow> int \<Rightarrow> int \<Rightarrow> nat option \<Rightarrow> world \<Rightarrow> (nat option \<times> world) res" where
  "netresolve_connect k n C E extra wait nodename servname family socktype protocol callback =
     query_start_new k n C E extra wait (Some QC_connect_prepare)
       (UD_socket \<lparr>so_query = False, so_callback = callback, so_flags = socket_flags socktype,
          so_timeout = None, so_priority_timeout = None, so_skip_scheduled = False,
          so_sequential_connect = getenv_bool E ''NETRESOLVE_SEQUENTIAL_CONNECT'' False\<rparr>)
       REQUEST_FORWARD
       [OPTION_NODE_NAME nodename, OPTION_SERVICE_NAME servname, OPTION_FAMILY family,
        OPTION_SOCKTYPE (socktype AND (NOT (socket_flags socktype))), OPTION_PROTOCOL protocol,
        OPTION_DEFAULT_LOOPBACK True]"

text \<open>A query whose callback has not run yet has no pointer to itself.\<close>

definition netresolve_connect_next :: "nat \<Rightarrow> env \<Rightarrow> net \<Rightarrow> sys \<Rightarrow> sys res" where
  "netresolve_connect_next m E N s =
     rbind (get_socket s) (\<lambda>priv. if so_query priv then enable_sockets m E N s else Inl Null_dereference)"

definition zero_socket :: netresolve_socket where
  "zero_socket = \<lparr>so_query = False, so_callback = None, so_flags = 0, so_timeout = None,
     so_priority_timeout = None, so_skip_scheduled = False, so_sequential_connect = False\<rparr>"

definition netresolve_connect_free :: "nat \<Rightarrow> code \<Rightarrow> sys \<Rightarrow> sys res" where
  "netresolve_connect_free n C s =
     rbind (get_socket s) (\<lambda>priv.
       if \<not> so_query priv then Inl Null_dereference
       else rbind (scan_paths s) (\<lambda>is.
            rbind (foreach socket_cleanup is s) (\<lambda>s.
            rbind (clear_timeouts s) (\<lambda>s.
              netresolve_query_free n C (upd_socket (\<lambda>_. zero_socket) s)))))"

section \<open>The listening side\<close>

text \<open>
  A descriptor that cannot be bound is closed, but stays recorded in the path; a path without a
  socket address keeps the descriptor number zero of a new path.
\<close>

definition listen_path :: "net \<Rightarrow> nat \<Rightarrow> sys \<Rightarrow> sys res" where
  "listen_path N i s =
     rbind (netresolve_query_get_sockaddr (s_query s) i) (\<lambda>(sa, socktype, protocol, ttl, q).
       (let s = s\<lparr>s_query := q\<rparr>
        in case sa of
             None \<Rightarrow> Inr s
           | Some a \<Rightarrow>
               (case sys_socket N (sa_family a) (socktype OR O_NONBLOCK) protocol s of (fd, errno, s) \<Rightarrow>
                 (let s = upd_path i (\<lambda>p. p\<lparr>socket_fd := fd\<rparr>) s
                  in if fd = - 1 then Inr s
                     else if \<not> n_reuseaddr N (clock s) fd then Inr (tick s)
                     else if sa_family a = AF_INET6 \<and> \<not> n_v6only N (clock s) fd then Inr (tick (tick s))
                     else if \<not> n_bind N (clock s) fd a \<or> \<not> n_listen N (clock s) fd then Inr (close_fd fd (tick s))
                     else Inr (upd_path i (\<lambda>p. p\<lparr>socket_state := SOCKET_STATE_SCHEDULED\<rparr>) (tick s))))))"

definition listen_callback :: "net \<Rightarrow> sys \<Rightarrow> sys res" where
  "listen_callback N s =
     rbind (scan_paths s) (\<lambda>is. foreach (listen_path N) is (upd_socket (\<lambda>p. p\<lparr>so_query := True\<rparr>) s))"

definition accept_callback :: "net \<Rightarrow> netresolve_watch \<Rightarrow> int \<Rightarrow> sys \<Rightarrow> sys res" where
  "accept_callback N watch events s =
     (case w_data watch of
        DATA_path i \<Rightarrow>
          rbind (assert_that (w_fd watch = socket_fd (path_at i s)) s) (\<lambda>s.
          rbind (assert_that (events AND POLLIN \<noteq> 0) s) (\<lambda>s.
          rbind (assert_that (socket_state (path_at i s) = SOCKET_STATE_SCHEDULED) s) (\<lambda>s.
          rbind (assert_that (socket_watch (path_at i s) \<noteq> None) s) (\<lambda>s.
            (let ok = n_accept N (clock s) (w_fd watch); s = tick s
             in if \<not> ok then Inr s
                else (case alloc_fd (s_os s) of
                        None \<Rightarrow> Inr s
                      | Some (fd, o1) \<Rightarrow>
                          (let s = s\<lparr>s_os := o1\<rparr>
                           in if \<not> n_fcntl N (clock s) fd then Inr (tick s)
                              else rbind (get_socket s) (\<lambda>priv.
                                (case so_callback priv of
                                   None \<Rightarrow> Inr (tick s)
                                 | Some cb \<Rightarrow> n_callback N cb i fd
                                     (upd_os (\<lambda>o1. o1\<lparr>os_sockets := os_sockets o1 @ [(i, fd)]\<rparr>) (tick s)))))))))))
      | _ \<Rightarrow> Inl Null_dereference)"

definition netresolve_listen ::
    "nat \<Rightarrow> nat \<Rightarrow> code \<Rightarrow> env \<Rightarrow> string \<Rightarrow> epoll_wait \<Rightarrow> string option \<Rightarrow> string option \<Rightarrow>
     int \<Rightarrow> int \<Rightarrow> int \<Rightarrow> world \<Rightarrow> (nat option \<times> world) res" where
  "netresolve_listen k n C E extra wait nodename servname family socktype protocol =
     query_start_new k n C E extra wait (Some QC_listen_callback)
       (UD_socket (zero_socket\<lparr>so_flags := socket_flags socktype\<rparr>))
       REQUEST_FORWARD
       [OPTION_NODE_NAME nodename, OPTION_SERVICE_NAME servname, OPTION_FAMILY family,
        OPTION_SOCKTYPE (socktype AND (NOT (socket_flags socktype))), OPTION_PROTOCOL protocol,
        OPTION_DEFAULT_LOOPBACK False]"

definition accept_paths :: "nat option \<Rightarrow> sys \<Rightarrow> sys res" where
  "accept_paths on_accept s =
     rbind (get_socket s) (\<lambda>_.
     rbind (scan_paths s) (\<lambda>is.
       foreach (\<lambda>i s. if socket_state (path_at i s) = SOCKET_STATE_SCHEDULED \<and> socket_watch (path_at i s) = None
                       then socket_resume i POLLIN CB_accept s else Inr s) is
         (upd_socket (\<lambda>p. p\<lparr>so_callback := on_accept\<rparr>) s)))"

definition netresolve_accept :: "nat \<Rightarrow> nat \<Rightarrow> code \<Rightarrow> epoll_wait \<Rightarrow> nat option \<Rightarrow> nat \<Rightarrow> world \<Rightarrow> world res" where
  "netresolve_accept k n C wait on_accept q wd =
     rbind (on_query q (accept_paths on_accept) wd) (\<lambda>wd.
       if cx_callbacks (wd_ctx wd) = FD_EPOLL_INTERNAL then netresolve_epoll_wait k n C wait wd else Inr wd)"

definition netresolve_listen_free :: "nat \<Rightarrow> code \<Rightarrow> sys \<Rightarrow> sys res" where
  "netresolve_listen_free n C s =
     rbind (scan_paths s) (\<lambda>is.
     rbind (foreach socket_cleanup is s) (\<lambda>s.
       netresolve_query_free n C (upd_query (\<lambda>q. q\<lparr>q_user_data := UD_NULL\<rparr>) s)))"

section \<open>The code behind the function pointers\<close>

definition socket_code :: "nat \<Rightarrow> env \<Rightarrow> net \<Rightarrow> code \<Rightarrow> code" where
  "socket_code m E N C = C\<lparr>
     c_query_callback := (\<lambda>cb. case cb of
        QC_connect_prepare \<Rightarrow> connect_prepare m E N
      | QC_listen_callback \<Rightarrow> listen_callback N
      | QC_application a \<Rightarrow> c_query_callback C (QC_application a)),
     c_watch_callback := (\<lambda>watch events ss s. case w_callback watch of
        CB_connect_ready \<Rightarrow> connect_ready m E N watch events s
      | CB_accept \<Rightarrow> accept_callback N watch events s
      | _ \<Rightarrow> c_watch_callback C watch events ss s),
     c_timeout_callback := (\<lambda>watch ss s. case w_timeout_callback watch of
        TCB_connect_timeout \<Rightarrow> connect_timeout m E N s
      | TCB_connect_priority_timeout \<Rightarrow> connect_priority_timeout m E N s
      | _ \<Rightarrow> c_timeout_callback C watch ss s)\<rparr>"

end
