(* ===== verification/Waiting.thy ===== *)
theory Waiting
  imports Paths
begin

text \<open>
  Results that arrive while a query waits for its backend: what the backend may rely on when it
  adds paths and names, and when it reports, from the callback of one of its own watches. The
  interface is a locale over the state changes; the state machine provides it.
\<close>

section \<open>A query that is being waited for\<close>

text \<open>
  The bookkeeping of watches and timeouts is in order, and the state is one of those between the
  setup and the final states. A result timeout of zero is excluded: it would end the query and
  release the backend in the middle of its callback.
\<close>

definition waiting_ok :: "sys \<Rightarrow> bool" where
  "waiting_ok s \<longleftrightarrow> tidy s \<and> rq_result_timeout (request_of s) \<noteq> 0 \<and>
     state_of s \<in> {STATE_WAITING, STATE_WAITING_MORE, STATE_RESOLVED, STATE_ERROR} \<and>
     (state_of s = STATE_WAITING \<longrightarrow> get_slot Slot_result_timeout (s_query s) = None)"

lemma waiting_ok_response: "waiting_ok s \<Longrightarrow> waiting_ok (upd_response f s)"
  unfolding waiting_ok_def upd_response_def by (auto intro: tidy_query_cong)

lemma waiting_ok_services: "waiting_ok s \<Longrightarrow> waiting_ok (set_services sl s)"
proof -
  assume s: "waiting_ok s"
  have "get_slot a (s_query s\<lparr>q_services := sl\<rparr>) = get_slot a (s_query s)" for a
    by (cases a) (simp_all add: get_slot_def)
  then show ?thesis
    using s unfolding waiting_ok_def set_services_def by (auto intro: tidy_query_cong)
qed

lemma waiting_ok_backend: "waiting_ok s \<Longrightarrow> waiting_ok (upd_backend i f s)"
  unfolding waiting_ok_def by (auto simp: tidy_upd_backend) (simp_all add: upd_backend_def)

text \<open>Watches stay linked, and descriptors that are open stay open and registered as they were.\<close>

definition keeps_watches :: "sys \<Rightarrow> sys \<Rightarrow> bool" where
  "keeps_watches s s' \<longleftrightarrow> set (q_watches (s_query s)) \<subseteq> set (q_watches (s_query s')) \<and>
     (\<forall>fd \<in> set (os_open_fds (s_os s)). fd \<in> set (os_open_fds (s_os s')) \<and>
        loop_watched (s_ctx s') fd = loop_watched (s_ctx s) fd)"

lemma keeps_watches_refl [simp]: "keeps_watches s s"
  by (simp add: keeps_watches_def)

lemma keeps_watches_trans [trans]: "keeps_watches s t \<Longrightarrow> keeps_watches t u \<Longrightarrow> keeps_watches s u"
  unfolding keeps_watches_def by auto

lemma keeps_watches_upd [simp]:
  "keeps_watches r (upd_response f s) = keeps_watches r s"
  "keeps_watches r (set_services sl s) = keeps_watches r s"
  "keeps_watches r (upd_backend i g s) = keeps_watches r s"
  by (simp_all add: keeps_watches_def upd_response_def set_services_def upd_backend_def)

lemma start_timeout_keeps:
  assumes inv: "ev_inv s" and ms: "0 \<le> ms" and start: "start_timeout sl ms cb s = Inr s'"
  shows "keeps_watches s s'"
proof (cases "alloc_fd (s_os s)")
  case None
  then show ?thesis
    using start by (auto simp: start_timeout_def netresolve_timeout_add_ms_def netresolve_timeout_add_def keeps_watches_def)
next
  case (Some p)
  obtain fd o1 where p: "alloc_fd (s_os s) = Some (fd, o1)" using Some by (cases p) auto
  then have new: "fd \<notin> set (os_open_fds (s_os s))"
    using lowest_fd_fresh by (auto simp: alloc_fd_def Let_def split: if_splits)
  obtain t where t: "netresolve_timeout_add_ms ms cb DATA_NULL s = Inr (Some (os_next_watch (s_os s)), t)"
    "q_watches (s_query t) = q_watches (s_query s) @ [timer_watch (os_next_watch (s_os s)) fd cb DATA_NULL]"
    "os_open_fds (s_os t) = fd # os_open_fds (s_os s)"
    "loop_watched (s_ctx t) = (loop_watched (s_ctx s))(fd \<mapsto> os_next_watch (s_os s))"
    using timeout_add_ok [OF inv timer_value_ok [OF ms] p] unfolding netresolve_timeout_add_ms_def by metis
  then show ?thesis using start new by (auto simp: start_timeout_def keeps_watches_def)
qed

text \<open>What a report leaves alone.\<close>

definition report_frame :: "sys \<Rightarrow> sys \<Rightarrow> bool" where
  "report_frame s s' \<longleftrightarrow> request_of s' = request_of s \<and> response_of s' = response_of s \<and>
     q_backend (s_query s') = q_backend (s_query s) \<and> cx_backends (s_ctx s') = cx_backends (s_ctx s) \<and>
     keeps_watches s s'"

text \<open>The state machine takes a report without running any other code.\<close>

lemma set_state_reports:
  assumes s: "waiting_ok s"
    and st: "st \<in> {STATE_RESOLVED, STATE_ERROR} \<or> st = STATE_WAITING_MORE \<and> state_of s = STATE_WAITING"
  shows "returns {} (netresolve_query_set_state (Suc n) C st s)
    (\<lambda>s'. waiting_ok s' \<and> state_of s' = st \<and> report_frame s s')"
proof (cases "st = state_of s")
  case True
  then show ?thesis using s by (simp add: report_frame_def)
next
  case False
  let ?s = "upd_query (\<lambda>q. q\<lparr>q_state := st\<rparr>) s"
  have t: "tidy ?s" using s by (intro tidy_query_cong) (simp_all add: waiting_ok_def)
  have old: "state_of s \<noteq> STATE_SETUP" and rt: "rq_result_timeout (request_of s) \<noteq> 0" using s by (auto simp: waiting_ok_def)
  have plain: "waiting_ok ?s \<and> state_of ?s = st \<and> report_frame s ?s"
    if "st \<noteq> STATE_WAITING" using s st t that by (auto simp: waiting_ok_def report_frame_def keeps_watches_def)
  show ?thesis
  proof (cases "st = STATE_WAITING_MORE \<and> rq_result_timeout (request_of s) > 0")
    case True
    then have none: "get_slot Slot_result_timeout (s_query ?s) = None" using s st False by (auto simp: waiting_ok_def)
    have ev: "ev_inv ?s" "slots_inv ?s" "0 \<le> rq_result_timeout (request_of s)" "TCB_result_timeout = slot_callback Slot_result_timeout"
      using t True by (simp_all add: tidy_def slot_callback_def)
    obtain s' w where s': "start_timeout Slot_result_timeout (rq_result_timeout (request_of s)) TCB_result_timeout ?s = Inr s'"
      "ev_inv s'" "slots_inv s'" "core s' = core (upd_query (set_slot Slot_result_timeout w) ?s)"
      by (rule start_timeout_ok [OF ev none])
    have "keeps_watches ?s s'" by (rule start_timeout_keeps [OF ev(1,3) s'(1)])
    then have "keeps_watches s s'" by (simp add: keeps_watches_def)
    then have "waiting_ok s' \<and> state_of s' = st \<and> report_frame s s'"
      using core_eqD(1-4,11) [OF s'(4)] s' s True by (simp add: waiting_ok_def report_frame_def tidy_def)
    then show ?thesis using False True s'(1) by (simp add: enter_state_def enter_waiting_more_def)
  next
    case more: False
    then have "netresolve_query_set_state (Suc n) C st s = Inr ?s"
      using st False old rt by (auto simp: enter_state_def enter_resolved_def enter_waiting_more_def)
    then show ?thesis using plain st by auto
  qed
qed

section \<open>The interface\<close>

locale reporting =
  fixes ss :: set_state and F :: "fault set" and ok :: "sys \<Rightarrow> bool"
  assumes null: "Null_dereference \<in> F"
    and more: "ok s \<Longrightarrow> state_of s = STATE_WAITING \<Longrightarrow> returns F (ss STATE_WAITING_MORE s) ok"
    and response: "ok s \<Longrightarrow> rs_security (f (response_of s)) = rs_security (response_of s) \<Longrightarrow> ok (upd_response f s)"
    and services: "ok s \<Longrightarrow> ok (set_services sl s)"
begin

lemma add_path_ok: "ok s \<Longrightarrow> returns F (add_path E ss p s) ok"
  using more [of "upd_response (\<lambda>r. r\<lparr>rs_paths := Some (insert_path E (check_reachability E (s_os s) p) (path_list r))\<rparr>) s"]
  by (simp add: add_path_def Let_def response)

lemma typed_path_ok:
  assumes "ok s"
  shows "returns F (backend_add_typed_path E ss fam addr idx st pr po prio wt ttl s) ok"
proof -
  have "returns F (netresolve_service_list_query E set_services name a b 0 (path_callback E ss p) s) ok" for name a b p
    by (rule returns_service_query) (simp_all add: path_callback_def add_path_ok services null assms)
  then show ?thesis using assms by (simp add: backend_add_typed_path_def Let_def add_path_ok)
qed

lemma backend_add_path_ok:
  assumes "ok s"
  shows "returns F (netresolve_backend_add_path E ss fam addr idx st pr po prio wt ttl s) ok"
  unfolding netresolve_backend_add_path_def
  by (intro returns_if returns_bind [OF typed_path_ok] typed_path_ok) (simp_all add: assms)

lemma add_name_info_ok:
  assumes "ok s"
  shows "returns F (netresolve_backend_add_name_info E n sv s) ok"
proof -
  let ?s = "upd_response (\<lambda>r. r\<lparr>rs_nodename := n\<rparr>) s"
  have s: "ok ?s" by (rule response [OF assms]) simp
  have "returns F (netresolve_service_list_query E set_services None 0
      (netresolve_backend_get_protocol ?s) (rq_port (request_of ?s)) service_callback ?s) ok"
    by (rule returns_service_query) (simp_all add: service_callback_def response services null s)
  then show ?thesis using assms s by (simp add: netresolve_backend_add_name_info_def Let_def)
qed

end

interpretation waiting: reporting "netresolve_query_set_state (Suc n) C" "{Null_dereference}" waiting_ok
proof
  fix s assume "waiting_ok s" "state_of s = STATE_WAITING"
  then show "returns {Null_dereference} (netresolve_query_set_state (Suc n) C STATE_WAITING_MORE s) waiting_ok"
    by (intro returns_mono [OF set_state_reports]) simp_all
qed (simp_all add: waiting_ok_response waiting_ok_services)

end
