(* ===== verification/Dns.thy ===== *)
theory Dns
  imports Waiting
begin

text \<open>
  The DNS backend, after \<open>backends/dns.c\<close>: what all its builds share, and the build for
  libunbound. The two libraries behind it are parameters: libunbound takes lookups and answers them
  later, one call of \<open>ub_process\<close> reporting any of the outstanding ones, and ldns turns the bytes of
  an answer into records. Shared routines have the build's \<open>lookup_dns\<close> as an argument. Routines that
  follow the private data get it from the current backend, where it lives.
\<close>

unbundle bit_operations_syntax

section \<open>Libraries\<close>

abbreviation LDNS_RR_TYPE_A :: int where "LDNS_RR_TYPE_A \<equiv> 1"
abbreviation LDNS_RR_TYPE_PTR :: int where "LDNS_RR_TYPE_PTR \<equiv> 12"
abbreviation LDNS_RR_TYPE_AAAA :: int where "LDNS_RR_TYPE_AAAA \<equiv> 28"
abbreviation LDNS_RR_TYPE_SRV :: int where "LDNS_RR_TYPE_SRV \<equiv> 33"
abbreviation LDNS_RR_CLASS_IN :: int where "LDNS_RR_CLASS_IN \<equiv> 1"
abbreviation LDNS_RCODE_NXDOMAIN :: int where "LDNS_RCODE_NXDOMAIN \<equiv> 3"

text \<open>The records that the backend looks at; names are in presentation format.\<close>

datatype ldns_rr =
    RR_CNAME string
  | RR_PTR string
  | RR_A "byte list" int
  | RR_AAAA "byte list" int
  | RR_SRV int int int string
  | RR_other int

record ldns_pkt =
  pkt_rcode :: int
  pkt_question :: "int list"
  pkt_answer :: "ldns_rr list"
  pkt_ad :: bool

record ub_result =
  ub_secure :: bool
  ub_bogus :: bool
  ub_answer_packet :: "byte list option"

record unbound =
  ub_ctx_create :: bool
  ub_ctx_set_fwd :: "string \<Rightarrow> int"
  ub_ctx_resolvconf :: int
  ub_ctx_add_ta_file :: "string \<Rightarrow> int"
  ub_fd :: int
  ub_resolve_async :: "dns_lookup \<Rightarrow> bool"
  ub_process :: "dns_lookup list \<Rightarrow> (dns_lookup \<times> int \<times> ub_result) list"
  ldns_wire2pkt :: "byte list \<Rightarrow> ldns_pkt option"

section \<open>Private data\<close>

definition zero_srv :: priv_srv where
  "zero_srv = \<lparr>srv_priority = 0, srv_weight = 0, srv_port = 0, srv_name = None\<rparr>"

definition zero_dns :: priv_dns where
  "zero_dns = \<lparr>dn_protocol = 0, dn_family = 0, dn_address = [], dn_cls = 0, dn_type = 0, dn_srv = zero_srv,
     dn_srvs = [], dn_pending = 0, dn_answered = False, dn_failed = False, dn_secure = False,
     dn_ctx = None, dn_validate = False, dn_watch = None,
     dn_ares = \<lparr>ar_rfds = [], ar_wfds = [], ar_nfds = 0, ar_watches = []\<rparr>\<rparr>"

definition get_dns :: "sys \<Rightarrow> priv_dns res" where
  "get_dns s =
     rbind (netresolve_backend_get_priv s) (\<lambda>p.
       (case p of Some (Priv_dns d) \<Rightarrow> Inr d | _ \<Rightarrow> Inl Null_dereference))"

definition set_dns :: "priv_dns \<Rightarrow> sys \<Rightarrow> sys" where
  "set_dns d s = upd_backend (q_backend (s_query s)) (\<lambda>b. b\<lparr>be_data := Some (Priv_dns d)\<rparr>) s"

definition upd_dns :: "(priv_dns \<Rightarrow> priv_dns) \<Rightarrow> sys \<Rightarrow> sys res" where
  "upd_dns f s = rbind (get_dns s) (\<lambda>d. Inr (set_dns (f d) s))"

text \<open>The service a lookup is for: the head of the list, or an element that has been linked.\<close>

definition find_srv :: "nat option \<Rightarrow> priv_dns \<Rightarrow> priv_srv res" where
  "find_srv i d = (case i of None \<Rightarrow> Inr (dn_srv d)
     | Some j \<Rightarrow> if j < length (dn_srvs d) then Inr (dn_srvs d ! j) else Inl Out_of_bounds)"

section \<open>Lookups\<close>

type_synonym lookup = "nat option \<Rightarrow> string option \<Rightarrow> int \<Rightarrow> int \<Rightarrow> sys \<Rightarrow> sys res"

text \<open>The status of \<open>ub_resolve_async\<close> is ignored: the lookup counts as pending either way.\<close>

definition lookup_dns :: "unbound \<Rightarrow> lookup" where
  "lookup_dns U srv name type cls s =
     rbind (get_dns s) (\<lambda>d.
       (case (dn_ctx d, name) of
          (Some ls, Some nm) \<Rightarrow>
            (let l = \<lparr>lk_srv = srv, lk_name = nm, lk_type = type, lk_class = cls\<rparr>
             in Inr (set_dns (d\<lparr>dn_pending := dn_pending d + 1,
                  dn_ctx := Some (if ub_resolve_async U l then ls @ [l] else ls)\<rparr>) s))
        | _ \<Rightarrow> Inl Null_dereference))"

definition dns_protocol_to_string :: "int \<Rightarrow> string" where
  "dns_protocol_to_string proto =
     (if proto = IPPROTO_UDP then ''udp'' else if proto = IPPROTO_TCP then ''tcp''
      else if proto = IPPROTO_SCTP then ''sctp'' else ''0'')"

text \<open>A missing service name is printed as the C library prints a NULL string.\<close>

definition print_string :: "string option \<Rightarrow> string" where
  "print_string str = (case str of None \<Rightarrow> ''(null)'' | Some s \<Rightarrow> s)"

definition lookup_srv :: "lookup \<Rightarrow> sys \<Rightarrow> sys res" where
  "lookup_srv L s =
     rbind (get_dns s) (\<lambda>d.
       L None (Some (''_'' @ print_string (netresolve_backend_get_servname s) @ ''._'' @
           dns_protocol_to_string (dn_protocol d) @ ''.'' @ print_string (netresolve_backend_get_nodename s)))
         LDNS_RR_TYPE_SRV LDNS_RR_CLASS_IN s)"

definition lookup_host :: "lookup \<Rightarrow> nat option \<Rightarrow> sys \<Rightarrow> sys res" where
  "lookup_host L srv s =
     rbind (get_dns s) (\<lambda>d.
     rbind (find_srv srv d) (\<lambda>v.
     rbind (if dn_family d = AF_INET \<or> dn_family d = AF_UNSPEC
            then L srv (srv_name v) LDNS_RR_TYPE_A LDNS_RR_CLASS_IN s else Inr s) (\<lambda>s.
     if dn_family d = AF_INET6 \<or> dn_family d = AF_UNSPEC
     then L srv (srv_name v) LDNS_RR_TYPE_AAAA LDNS_RR_CLASS_IN s else Inr s)))"

definition hex_char :: "nat \<Rightarrow> char" where
  "hex_char n = char_of (if n < 10 then 48 + n else 87 + n)"

text \<open>The last byte of the address comes first, and of each byte the low half.\<close>

definition ptr_name4 :: "byte list \<Rightarrow> string" where
  "ptr_name4 a = concat (map (\<lambda>b. show_int (uint b) @ ''.'') (rev (mem_read 4 a))) @ ''in-addr.arpa.''"

definition ptr_name6 :: "byte list \<Rightarrow> string" where
  "ptr_name6 a =
     concat (map (\<lambda>b. [hex_char (unat (b AND 0x0f)), CHR ''.'', hex_char (unat (drop_bit 4 b)), CHR ''.''])
       (rev (mem_read 16 a))) @ ''ip6.arpa''"

text \<open>The name is printed into 128 bytes; another family aborts.\<close>

definition reverse_name :: "int \<Rightarrow> byte list \<Rightarrow> string option" where
  "reverse_name family a =
     (if family = AF_INET then Some (take 127 (ptr_name4 a))
      else if family = AF_INET6 then Some (take 127 (ptr_name6 a))
      else None)"

definition lookup_address :: "lookup \<Rightarrow> sys \<Rightarrow> sys res" where
  "lookup_address L s =
     rbind (get_dns s) (\<lambda>d.
       (case reverse_name (dn_family d) (dn_address d) of
          None \<Rightarrow> Inl Aborted
        | Some name \<Rightarrow> L None (Some name) LDNS_RR_TYPE_PTR LDNS_RR_CLASS_IN s))"

section \<open>Applying answers\<close>

text \<open>A trailing dot is cut; of an empty name, the byte before it is looked at.\<close>

definition set_name :: "env \<Rightarrow> string \<Rightarrow> sys \<Rightarrow> sys res" where
  "set_name E name s =
     (if name = [] then Inl Out_of_bounds
      else netresolve_backend_add_name_info E
             (Some (if last name = CHR ''.'' then butlast name else name)) None s)"

definition apply_name :: "env \<Rightarrow> string \<Rightarrow> sys \<Rightarrow> sys res" where
  "apply_name E rdf s = set_name E rdf s"

definition apply_address :: "env \<Rightarrow> set_state \<Rightarrow> nat option \<Rightarrow> int \<Rightarrow> byte list \<Rightarrow> int \<Rightarrow> sys \<Rightarrow> sys res" where
  "apply_address E ss srv family addr ttl s =
     rbind (get_dns s) (\<lambda>d.
     rbind (find_srv srv d) (\<lambda>v.
     rbind (netresolve_backend_add_path E ss family addr 0 0 (dn_protocol d) (srv_port v)
              (srv_priority v) (srv_weight v) (to_int ttl) s)
       (upd_dns (\<lambda>d. d\<lparr>dn_answered := True\<rparr>))))"

definition apply_srv :: "lookup \<Rightarrow> env \<Rightarrow> int \<Rightarrow> int \<Rightarrow> int \<Rightarrow> string \<Rightarrow> sys \<Rightarrow> sys res" where
  "apply_srv L E priority weight port name s =
     rbind (get_dns s) (\<lambda>d.
       (let v = \<lparr>srv_priority = to_uint16 priority, srv_weight = to_uint16 weight, srv_port = to_uint16 port,
                 srv_name = Some name\<rparr>
        in rbind (set_name E name (set_dns (d\<lparr>dn_srvs := dn_srvs d @ [v]\<rparr>) s))
             (lookup_host L (Some (length (dn_srvs d))))))"

definition apply_record :: "lookup \<Rightarrow> env \<Rightarrow> set_state \<Rightarrow> nat option \<Rightarrow> ldns_rr \<Rightarrow> sys \<Rightarrow> sys res" where
  "apply_record L E ss srv rr s =
     (case rr of
        RR_CNAME name \<Rightarrow> apply_name E name s
      | RR_PTR name \<Rightarrow> rbind (apply_name E name s) (upd_dns (\<lambda>d. d\<lparr>dn_answered := True\<rparr>))
      | RR_A addr ttl \<Rightarrow> apply_address E ss srv AF_INET addr ttl s
      | RR_AAAA addr ttl \<Rightarrow> apply_address E ss srv AF_INET6 addr ttl s
      | RR_SRV priority weight port name \<Rightarrow> apply_srv L E priority weight port name s
      | RR_other _ \<Rightarrow> Inr s)"

text \<open>An empty answer without an error is taken for a name that does not exist.\<close>

definition apply_packet :: "lookup \<Rightarrow> env \<Rightarrow> set_state \<Rightarrow> nat option \<Rightarrow> ldns_pkt \<Rightarrow> sys \<Rightarrow> sys res" where
  "apply_packet L E ss srv pkt s =
     (case pkt_question pkt of
        [] \<Rightarrow> Inl Out_of_bounds
      | type # _ \<Rightarrow>
          rbind (upd_dns (\<lambda>d. if \<not> dn_validate d \<and> \<not> pkt_ad pkt then d\<lparr>dn_secure := False\<rparr> else d) s) (\<lambda>s.
            (let rcode = (if pkt_rcode pkt = 0 \<and> pkt_answer pkt = [] then LDNS_RCODE_NXDOMAIN else pkt_rcode pkt)
             in if rcode = 0 then foreach (apply_record L E ss srv) (pkt_answer pkt) s
                else if rcode = LDNS_RCODE_NXDOMAIN \<and> type = LDNS_RR_TYPE_SRV then lookup_host L None s
                else upd_dns (\<lambda>d. d\<lparr>dn_failed := True\<rparr>) s)))"

definition apply_answer :: "lookup \<Rightarrow> (byte list \<Rightarrow> ldns_pkt option) \<Rightarrow> env \<Rightarrow> set_state \<Rightarrow> nat option \<Rightarrow> byte list option \<Rightarrow> sys \<Rightarrow> sys res" where
  "apply_answer L wire2pkt E ss srv data s =
     (case data of
        None \<Rightarrow> Inl Assertion_failed
      | Some bytes \<Rightarrow>
          if bytes = [] then Inl Assertion_failed
          else rbind (get_dns s) (\<lambda>d.
            if dn_type d \<noteq> 0 then
              upd_dns (\<lambda>d. d\<lparr>dn_answered := True\<rparr>) (netresolve_backend_set_dns_answer bytes s)
            else (case wire2pkt bytes of
                    None \<Rightarrow> upd_dns (\<lambda>d. d\<lparr>dn_failed := True\<rparr>) s
                  | Some pkt \<Rightarrow> apply_packet L E ss srv pkt s)))"

definition dns_check :: "set_state \<Rightarrow> sys \<Rightarrow> sys res" where
  "dns_check ss s =
     rbind (get_dns s) (\<lambda>d.
     rbind (assert_that (dn_pending d \<ge> 0) s) (\<lambda>s.
       if dn_pending d = 0 then
         (let s1 = (if dn_answered d \<and> dn_secure d then netresolve_backend_set_secure s else s)
          in if \<not> dn_failed d then netresolve_backend_finished ss s1 else netresolve_backend_failed ss s1)
       else Inr s))"

section \<open>libunbound\<close>

definition ubdns_callback :: "unbound \<Rightarrow> env \<Rightarrow> set_state \<Rightarrow> nat option \<Rightarrow> int \<Rightarrow> ub_result \<Rightarrow> sys \<Rightarrow> sys res" where
  "ubdns_callback U E ss srv status result s =
     rbind (upd_dns (\<lambda>d. d\<lparr>dn_pending := dn_pending d - 1\<rparr>) s) (\<lambda>s.
       if status \<noteq> 0 then upd_dns (\<lambda>d. d\<lparr>dn_failed := True\<rparr>) s
       else rbind (if \<not> ub_secure result then upd_dns (\<lambda>d. d\<lparr>dn_secure := False\<rparr>) s else Inr s) (\<lambda>s.
            rbind (if \<not> ub_bogus result then apply_answer (lookup_dns U) (ldns_wire2pkt U) E ss srv (ub_answer_packet result) s
                   else upd_dns (\<lambda>d. d\<lparr>dn_secure := False, dn_failed := True\<rparr>) s)
              (dns_check ss)))"

text \<open>A completed lookup is no longer outstanding when its callback runs.\<close>

definition ub_complete :: "unbound \<Rightarrow> env \<Rightarrow> set_state \<Rightarrow> dns_lookup \<times> int \<times> ub_result \<Rightarrow> sys \<Rightarrow> sys res" where
  "ub_complete U E ss = (\<lambda>(l, status, result) s.
     rbind (get_dns s) (\<lambda>d.
       (case dn_ctx d of
          None \<Rightarrow> Inl Null_dereference
        | Some ls \<Rightarrow>
            if l \<in> set ls
            then ubdns_callback U E ss (lk_srv l) status result (set_dns (d\<lparr>dn_ctx := Some (remove1 l ls)\<rparr>) s)
            else Inr s)))"

definition dns_dispatch :: "unbound \<Rightarrow> env \<Rightarrow> set_state \<Rightarrow> sys \<Rightarrow> sys res" where
  "dns_dispatch U E ss s =
     rbind (get_dns s) (\<lambda>d.
       (case dn_ctx d of
          None \<Rightarrow> Inl Null_dereference
        | Some ls \<Rightarrow> foreach (ub_complete U E ss) (ub_process U ls) s))"

definition dns_cleanup :: "priv option \<Rightarrow> sys \<Rightarrow> sys res" where
  "dns_cleanup data s =
     (case data of
        Some (Priv_dns d) \<Rightarrow>
          (case dn_watch d of None \<Rightarrow> Inr s | Some w \<Rightarrow> netresolve_watch_remove w False s)
      | _ \<Rightarrow> Inl Null_dereference)"

section \<open>Setting up\<close>

definition dns_setting :: "string \<Rightarrow> priv_dns \<times> string option \<Rightarrow> priv_dns \<times> string option" where
  "dns_setting setting = (\<lambda>(d, server).
     if setting = ''trust'' then (d\<lparr>dn_secure := True\<rparr>, server)
     else if setting = ''validate'' then (d\<lparr>dn_validate := True, dn_secure := True\<rparr>, server)
     else if take 7 setting = ''server='' then (d, Some (drop 7 setting))
     else (d, server))"

text \<open>False is a NULL result; the private data stays with the backend.\<close>

definition dns_setup :: "unbound \<Rightarrow> string list \<Rightarrow> sys \<Rightarrow> (bool \<times> sys) res" where
  "dns_setup U settings s =
     rbind (netresolve_backend_new_priv (Priv_dns zero_dns) s) (\<lambda>s.
       (case fold dns_setting settings (zero_dns, None) of (d, server) \<Rightarrow>
         (let d = d\<lparr>dn_srv := (dn_srv d)\<lparr>srv_name := netresolve_backend_get_nodename s\<rparr>,
                    dn_family := netresolve_backend_get_family s\<rparr>;
              d1 = d\<lparr>dn_ctx := if ub_ctx_create U then Some [] else None\<rparr>;
              s1 = set_dns d1 s
          in if \<not> ub_ctx_create U then Inr (False, s1)
             else if (case server of Some sv \<Rightarrow> ub_ctx_set_fwd U sv | None \<Rightarrow> ub_ctx_resolvconf U) \<noteq> 0 then Inr (False, s1)
             else if dn_validate d1 \<and> ub_ctx_add_ta_file U ''/etc/dnssec/root-anchors.txt'' \<noteq> 0 then Inr (False, s1)
             else rbind (netresolve_watch_add (ub_fd U) POLLIN (CB_backend ''ubdns'') DATA_NULL s1) (\<lambda>(w, s2).
                  rbind (upd_dns (\<lambda>d. d\<lparr>dn_watch := Some w\<rparr>) s2) (\<lambda>s3. Inr (True, s3))))))"

definition dns_query_forward :: "unbound \<Rightarrow> set_state \<Rightarrow> string list \<Rightarrow> sys \<Rightarrow> sys res" where
  "dns_query_forward U ss settings s =
     rbind (dns_setup U settings s) (\<lambda>(ok, s).
       if \<not> ok then netresolve_backend_failed ss s
       else rbind (get_dns s) (\<lambda>d.
         if srv_name (dn_srv d) = None then netresolve_backend_failed ss s
         else if netresolve_backend_get_dns_srv_lookup s
         then lookup_srv (lookup_dns U) (set_dns (d\<lparr>dn_protocol := netresolve_backend_get_protocol s\<rparr>) s)
         else lookup_host (lookup_dns U) None s))"

text \<open>The address of a request is an array, so that its pointer is never NULL.\<close>

definition dns_query_reverse :: "unbound \<Rightarrow> set_state \<Rightarrow> string list \<Rightarrow> sys \<Rightarrow> sys res" where
  "dns_query_reverse U ss settings s =
     (let address = netresolve_backend_get_address s
      in rbind (dns_setup U settings s) (\<lambda>(ok, s).
           if \<not> ok then netresolve_backend_failed ss s
           else rbind (upd_dns (\<lambda>d. d\<lparr>dn_address := address\<rparr>) s) (lookup_address (lookup_dns U))))"

definition dns_query_dns :: "unbound \<Rightarrow> set_state \<Rightarrow> string list \<Rightarrow> sys \<Rightarrow> sys res" where
  "dns_query_dns U ss settings s =
     rbind (dns_setup U settings s) (\<lambda>(ok, s).
       if \<not> ok then netresolve_backend_failed ss s
       else rbind (get_dns s) (\<lambda>d.
         if srv_name (dn_srv d) = None then netresolve_backend_failed ss s
         else (case netresolve_backend_get_dns_query s of (_, cls, type) \<Rightarrow>
                lookup_dns U None (srv_name (dn_srv d)) type cls
                  (set_dns (d\<lparr>dn_cls := cls, dn_type := type\<rparr>) s))))"

text \<open>The functions of the module, with the application's callback.\<close>

definition dns_code :: "unbound \<Rightarrow> env \<Rightarrow> (query_callback \<Rightarrow> sys \<Rightarrow> sys res) \<Rightarrow> code" where
  "dns_code U E app = \<lparr>
     c_setup = (\<lambda>m t ss settings. case t of
        REQUEST_FORWARD \<Rightarrow> dns_query_forward U ss settings
      | REQUEST_REVERSE \<Rightarrow> dns_query_reverse U ss settings
      | REQUEST_DNS \<Rightarrow> dns_query_dns U ss settings),
     c_cleanup = (\<lambda>m. dns_cleanup),
     c_query_callback = app,
     c_watch_callback = (\<lambda>watch events ss. dns_dispatch U E ss),
     c_timeout_callback = (\<lambda>watch ss s. Inl Null_dereference)\<rparr>"

section \<open>The counter of pending lookups\<close>

lemma get_dns_cong:
  "q_backend (s_query s') = q_backend (s_query s) \<Longrightarrow> cx_backends (s_ctx s') = cx_backends (s_ctx s) \<Longrightarrow>
     get_dns s' = get_dns s"
  by (simp add: get_dns_def netresolve_backend_get_priv_def current_backend_def backend_list_def)

lemma get_dns_upd [simp]:
  "get_dns (upd_response f s) = get_dns s" "get_dns (set_services sl s) = get_dns s"
  by (rule get_dns_cong; simp add: upd_response_def set_services_def)+

lemma get_set_dns:
  assumes "get_dns s = Inr d"
  shows "get_dns (set_dns d' s) = Inr d'"
proof -
  have "q_backend (s_query s) < length (backend_list s)"
    using assms by (auto simp: get_dns_def netresolve_backend_get_priv_def current_backend_def split: if_splits)
  moreover from this obtain bs where "cx_backends (s_ctx s) = Some bs" by (auto simp: backend_list_def split: option.splits)
  ultimately show ?thesis
    by (simp add: get_dns_def netresolve_backend_get_priv_def current_backend_def set_dns_def upd_backend_def backend_list_def)
qed

lemma set_dns_simps [simp]: "s_query (set_dns d s) = s_query s" "s_os (set_dns d s) = s_os s"
  by (simp_all add: set_dns_def upd_backend_def)

lemma set_dns_set_dns [simp]: "set_dns d2 (set_dns d1 s) = set_dns d2 s"
proof (cases "cx_backends (s_ctx s)")
  case (Some bs)
  then show ?thesis
    by (cases "q_backend (s_query s) < length bs")
      (simp_all add: set_dns_def upd_backend_def upd_ctx_def list_update_beyond)
qed (simp add: set_dns_def upd_backend_def upd_ctx_def)

text \<open>
  The counter is the number of outstanding lookups, and every one of them is for a service that is
  still linked; linked services have names.
\<close>

definition dns_ok :: "priv_dns \<Rightarrow> bool" where
  "dns_ok d \<longleftrightarrow> (\<exists>ls. dn_ctx d = Some ls \<and> dn_pending d = int (length ls) \<and>
     (\<forall>l \<in> set ls. \<forall>j. lk_srv l = Some j \<longrightarrow> j < length (dn_srvs d)) \<and>
     (\<forall>v \<in> set (dn_srvs d). srv_name v \<noteq> None))"

text \<open>
  The invariant of a callback, relative to the state \<open>r\<close> it started in: at least \<open>k\<close> services are
  linked, the answers may only be secure if \<open>b\<close>, and the security of the response, the watches and
  the descriptors of the backend are as in \<open>r\<close>.
\<close>

definition ares_of :: "sys \<Rightarrow> priv_ares option" where
  "ares_of s = (case get_dns s of Inl _ \<Rightarrow> None | Inr d \<Rightarrow> Some (dn_ares d))"

definition dns_frame :: "sys \<Rightarrow> sys \<Rightarrow> bool" where
  "dns_frame r s \<longleftrightarrow> keeps_watches r s \<and> ares_of s = ares_of r"

definition dns_state :: "nat \<Rightarrow> bool \<Rightarrow> sys \<Rightarrow> sys \<Rightarrow> bool" where
  "dns_state k b r s \<longleftrightarrow> waiting_ok s \<and> rs_security (response_of s) = rs_security (response_of r) \<and> dns_frame r s \<and>
     (\<exists>d. get_dns s = Inr d \<and> dns_ok d \<and> k \<le> length (dn_srvs d) \<and> (dn_secure d \<longrightarrow> b))"

lemma ares_of_upd [simp]:
  "ares_of (upd_response f s) = ares_of s" "ares_of (set_services sl s) = ares_of s"
  by (simp_all add: ares_of_def)

lemma dns_frame_upd [simp]:
  "dns_frame r (upd_response f s) = dns_frame r s" "dns_frame r (set_services sl s) = dns_frame r s"
  by (simp_all add: dns_frame_def)

lemma dns_frame_report: "dns_frame r s \<Longrightarrow> report_frame s s' \<Longrightarrow> dns_frame r s'"
  using get_dns_cong [of s' s] keeps_watches_trans [of r s s'] by (simp add: dns_frame_def report_frame_def ares_of_def)

lemma dns_frame_set_dns:
  assumes "get_dns s = Inr d" and "dn_ares d' = dn_ares d" and "dns_frame r s"
  shows "dns_frame r (set_dns d' s)"
  using assms get_set_dns [OF assms(1)] by (simp add: dns_frame_def ares_of_def) (simp add: set_dns_def)

lemma dns_state_frame:
  "dns_state k b r s \<Longrightarrow> waiting_ok s' \<Longrightarrow> report_frame s s' \<Longrightarrow> dns_state k b r s'"
  using get_dns_cong [of s' s] dns_frame_report [of r s s'] by (simp add: dns_state_def report_frame_def)

lemma dns_state_set_dns:
  assumes "dns_state k b c s" and "get_dns s = Inr d" and "dns_ok d'" and "k \<le> length (dn_srvs d')"
    and "dn_secure d' \<longrightarrow> b" and "dn_ares d' = dn_ares d"
  shows "dns_state k b c (set_dns d' s)"
  using assms get_set_dns [OF assms(2), of d'] dns_frame_set_dns [OF assms(2,6)]
  by (simp add: dns_state_def) (simp add: set_dns_def waiting_ok_backend)

abbreviation dns_faults :: "fault set" where "dns_faults \<equiv> {Null_dereference, Out_of_bounds}"

interpretation dns_reporting: reporting "netresolve_query_set_state (Suc n) C" dns_faults "dns_state k b c"
proof
  fix s assume s: "dns_state k b c s" "state_of s = STATE_WAITING"
  then have "waiting_ok s" by (simp add: dns_state_def)
  then show "returns dns_faults (netresolve_query_set_state (Suc n) C STATE_WAITING_MORE s) (dns_state k b c)"
    by (rule returns_mono [OF set_state_reports]) (use s dns_state_frame in auto)
qed (simp_all add: dns_state_def waiting_ok_response waiting_ok_services, simp_all add: set_services_def)

text \<open>Small changes of the private data that keep the counter right.\<close>

lemma upd_dns_ok:
  assumes s: "dns_state k b c s" and f: "\<And>d. dns_ok d \<Longrightarrow> dns_ok (f d) \<and> dn_srvs (f d) = dn_srvs d \<and> dn_ares (f d) = dn_ares d"
    and b: "\<And>d. (dn_secure d \<longrightarrow> b) \<Longrightarrow> (dn_secure (f d) \<longrightarrow> b')" and bb: "b' \<longrightarrow> b"
  shows "returns F (upd_dns f s) (dns_state k b' c)"
proof -
  obtain d where d: "get_dns s = Inr d" "dns_ok d" "k \<le> length (dn_srvs d)" "dn_secure d \<longrightarrow> b" "waiting_ok s"
    "rs_security (response_of s) = rs_security (response_of c)" "dns_frame c s"
    using s by (auto simp: dns_state_def)
  have "dns_state k b' c (set_dns (f d) s)"
    using d f [OF d(2)] b [OF d(4)] get_set_dns [OF d(1), of "f d"] dns_frame_set_dns [OF d(1) _ d(7), of "f d"]
    by (simp add: dns_state_def) (simp add: set_dns_def waiting_ok_backend)
  then show ?thesis by (simp add: upd_dns_def d(1))
qed

lemma dns_ok_flags [simp]:
  "dns_ok (d\<lparr>dn_answered := x\<rparr>) = dns_ok d" "dns_ok (d\<lparr>dn_failed := x\<rparr>) = dns_ok d"
  "dns_ok (d\<lparr>dn_secure := x\<rparr>) = dns_ok d"
  by (simp_all add: dns_ok_def)

lemma upd_answered_ok: "dns_state k b c s \<Longrightarrow> returns F (upd_dns (\<lambda>d. d\<lparr>dn_answered := x\<rparr>) s) (dns_state k b c)"
  by (rule upd_dns_ok [where b = b]) auto

lemma upd_failed_ok: "dns_state k b c s \<Longrightarrow> returns F (upd_dns (\<lambda>d. d\<lparr>dn_failed := x\<rparr>) s) (dns_state k b c)"
  by (rule upd_dns_ok [where b = b]) auto

lemma dns_state_mono: "dns_state k' b' c s \<Longrightarrow> k \<le> k' \<Longrightarrow> (b' \<longrightarrow> b) \<Longrightarrow> dns_state k b c s"
  unfolding dns_state_def by (meson order_trans)

abbreviation srv_valid :: "nat option \<Rightarrow> nat \<Rightarrow> bool" where
  "srv_valid srv k \<equiv> (\<forall>j. srv = Some j \<longrightarrow> j < k)"

lemma find_srv_ok: "srv_valid srv k \<Longrightarrow> k \<le> length (dn_srvs d) \<Longrightarrow> \<exists>v. find_srv srv d = Inr v"
  by (cases srv) (auto simp: find_srv_def)

lemma lookup_dns_ok:
  assumes U: "\<And>l. ub_resolve_async U l" and s: "dns_state k b c s" and srv: "srv_valid srv k"
  shows "returns dns_faults (lookup_dns U srv name type cls s) (dns_state k b c)"
proof -
  obtain d ls where d: "get_dns s = Inr d" "dns_ok d" "k \<le> length (dn_srvs d)" "dn_secure d \<longrightarrow> b" "dn_ctx d = Some ls"
    using s by (auto simp: dns_state_def dns_ok_def)
  have "dns_state k b c (set_dns (d\<lparr>dn_pending := dn_pending d + 1,
      dn_ctx := Some (ls @ [\<lparr>lk_srv = srv, lk_name = nm, lk_type = type, lk_class = cls\<rparr>])\<rparr>) s)" for nm
    using d srv by (intro dns_state_set_dns [OF s d(1)]) (auto simp: dns_ok_def)
  then show ?thesis
    using d U by (cases name) (simp_all add: lookup_dns_def Let_def)
qed

text \<open>
  What the shared routines rely on: the lookup of the build keeps the invariant. The facts about
  applying answers follow for every such lookup.
\<close>

locale lookups =
  fixes L :: lookup
  assumes lookup_ok: "dns_state k b c s \<Longrightarrow> srv_valid srv k \<Longrightarrow>
    returns dns_faults (L srv name type cls s) (dns_state k b c)"
begin

lemma lookup_host_ok:
  assumes s: "dns_state k b c s" and srv: "srv_valid srv k"
  shows "returns dns_faults (lookup_host L srv s) (dns_state k b c)"
proof -
  obtain d where d: "get_dns s = Inr d" "k \<le> length (dn_srvs d)" using s by (auto simp: dns_state_def)
  obtain v where v: "find_srv srv d = Inr v" using find_srv_ok [OF srv d(2)] by blast
  have l: "returns dns_faults (L srv nm ty cl t) (dns_state k b c)" if "dns_state k b c t" for t nm ty cl
    by (rule lookup_ok [OF that srv])
  have opt: "returns dns_faults (if P then L srv nm ty cl t else Inr t) (dns_state k b c)"
    if "dns_state k b c t" for t nm ty cl P using l that by simp
  show ?thesis
    unfolding lookup_host_def d(1) v rbind_simps by (rule returns_bind [OF opt [OF s] opt])
qed

lemma set_name_ok: "dns_state k b c s \<Longrightarrow> returns dns_faults (set_name E name s) (dns_state k b c)"
  using dns_reporting.add_name_info_ok by (simp add: set_name_def)

lemma apply_address_ok:
  assumes s: "dns_state k b c s" and srv: "srv_valid srv k"
  shows "returns dns_faults (apply_address E (netresolve_query_set_state (Suc n) C) srv fam addr ttl s) (dns_state k b c)"
proof -
  obtain d where d: "get_dns s = Inr d" "k \<le> length (dn_srvs d)" using s by (auto simp: dns_state_def)
  obtain v where v: "find_srv srv d = Inr v" using find_srv_ok [OF srv d(2)] by blast
  show ?thesis
    unfolding apply_address_def d(1) v rbind_simps
    by (rule returns_bind [OF dns_reporting.backend_add_path_ok [OF s] upd_answered_ok])
qed

lemma apply_srv_ok:
  assumes s: "dns_state k b c s"
  shows "returns dns_faults (apply_srv L E priority weight port name s) (dns_state k b c)"
proof -
  obtain d where d: "get_dns s = Inr d" "dns_ok d" "k \<le> length (dn_srvs d)" "dn_secure d \<longrightarrow> b"
    using s by (auto simp: dns_state_def)
  let ?v = "\<lparr>srv_priority = to_uint16 priority, srv_weight = to_uint16 weight, srv_port = to_uint16 port, srv_name = Some name\<rparr>"
  let ?s = "set_dns (d\<lparr>dn_srvs := dn_srvs d @ [?v]\<rparr>) s" and ?n = "length (dn_srvs d)"
  have "dns_ok (d\<lparr>dn_srvs := dn_srvs d @ [?v]\<rparr>)" using d(2) by (auto simp: dns_ok_def) (meson less_SucI)
  then have "dns_state (Suc ?n) b c ?s"
    using s d get_set_dns [OF d(1)] dns_frame_set_dns [OF d(1), of "d\<lparr>dn_srvs := dn_srvs d @ [?v]\<rparr>" c]
    by (simp add: dns_state_def) (simp add: set_dns_def waiting_ok_backend)
  then have "returns dns_faults (rbind (set_name E name ?s) (lookup_host L (Some ?n))) (dns_state (Suc ?n) b c)"
    by (intro returns_bind [OF set_name_ok] lookup_host_ok) simp_all
  then show ?thesis
    unfolding apply_srv_def d(1) rbind_simps Let_def
    by (rule returns_mono) (use d(3) dns_state_mono in auto)
qed

lemma apply_record_ok:
  assumes s: "dns_state k b c s" and srv: "srv_valid srv k"
  shows "returns dns_faults (apply_record L E (netresolve_query_set_state (Suc n) C) srv rr s) (dns_state k b c)"
proof (cases rr)
  case (RR_PTR name)
  then show ?thesis by (simp add: apply_record_def apply_name_def returns_bind [OF set_name_ok [OF s] upd_answered_ok])
qed (simp_all add: apply_record_def apply_name_def set_name_ok apply_address_ok [OF s srv] apply_srv_ok [OF s] s
      del: netresolve_query_set_state.simps)

lemma apply_packet_ok:
  assumes s: "dns_state k b c s" and srv: "srv_valid srv k"
  shows "returns dns_faults (apply_packet L E (netresolve_query_set_state (Suc n) C) srv pkt s) (dns_state k b c)"
proof (cases "pkt_question pkt")
  case (Cons type types)
  let ?f = "\<lambda>d. if \<not> dn_validate d \<and> \<not> pkt_ad pkt then d\<lparr>dn_secure := False\<rparr> else d"
  have "returns dns_faults (upd_dns ?f s) (dns_state k b c)"
    by (rule upd_dns_ok [OF s]) auto
  then show ?thesis
    unfolding apply_packet_def Cons list.case
  proof (rule returns_bind)
    fix t assume t: "dns_state k b c t"
    have "returns dns_faults (foreach (apply_record L E (netresolve_query_set_state (Suc n) C) srv) rrs t) (dns_state k b c)" for rrs
      by (rule returns_foreach) (use apply_record_ok [OF _ srv] t in auto)
    then show "returns dns_faults (let rcode = (if pkt_rcode pkt = 0 \<and> pkt_answer pkt = [] then LDNS_RCODE_NXDOMAIN else pkt_rcode pkt)
        in if rcode = 0 then foreach (apply_record L E (netresolve_query_set_state (Suc n) C) srv) (pkt_answer pkt) t
           else if rcode = LDNS_RCODE_NXDOMAIN \<and> type = LDNS_RR_TYPE_SRV then lookup_host L None t
           else upd_dns (\<lambda>d. d\<lparr>dn_failed := True\<rparr>) t) (dns_state k b c)"
      unfolding Let_def
      by (intro returns_if) (use lookup_host_ok [OF t, of None] upd_failed_ok [OF t] in auto)
  qed
qed (simp add: apply_packet_def)

lemma apply_answer_ok:
  assumes s: "dns_state k b c s" and srv: "srv_valid srv k"
    and data: "data \<noteq> None" "data \<noteq> Some []"
  shows "returns dns_faults (apply_answer L wire2pkt E (netresolve_query_set_state (Suc n) C) srv data s) (dns_state k b c)"
proof -
  obtain bytes where bytes: "data = Some bytes" "bytes \<noteq> []" using data by auto
  obtain d where d: "get_dns s = Inr d" using s by (auto simp: dns_state_def)
  have "dns_state k b c (netresolve_backend_set_dns_answer bytes s)"
    unfolding netresolve_backend_set_dns_answer_def by (rule dns_reporting.response [OF s]) simp
  then show ?thesis
    using bytes s upd_answered_ok upd_failed_ok apply_packet_ok [OF s srv]
    by (auto simp: apply_answer_def d split: option.splits)
qed

end

lemma unbound_lookups: "(\<And>l. ub_resolve_async U l) \<Longrightarrow> lookups (lookup_dns U)"
  by unfold_locales (rule lookup_dns_ok)

text \<open>The report at the end of a callback.\<close>

definition dns_reported :: "bool \<Rightarrow> sys \<Rightarrow> bool \<Rightarrow> sys \<Rightarrow> bool" where
  "dns_reported b r z s \<longleftrightarrow> waiting_ok s \<and> dns_frame r s \<and> (\<exists>d. get_dns s = Inr d \<and> dns_ok d \<and> (dn_secure d \<longrightarrow> b) \<and>
     (rs_security (response_of s) = rs_security (response_of r) \<or> b) \<and>
     (z \<and> dn_ctx d = Some [] \<longrightarrow> state_of s \<in> {STATE_RESOLVED, STATE_ERROR}))"

lemma dns_check_ok:
  assumes s: "dns_state k b c s"
  shows "returns F (dns_check (netresolve_query_set_state (Suc n) C) s) (dns_reported b c True)"
proof -
  obtain d ls where d: "get_dns s = Inr d" "dns_ok d" "dn_secure d \<longrightarrow> b" "dn_ctx d = Some ls" "dn_pending d = int (length ls)"
    using s by (auto simp: dns_state_def dns_ok_def)
  have w: "waiting_ok s" "rs_security (response_of s) = rs_security (response_of c)" "dns_frame c s" using s by (simp_all add: dns_state_def)
  define s1 where "s1 = (if dn_answered d \<and> dn_secure d then netresolve_backend_set_secure s else s)"
  have s1: "waiting_ok s1" "get_dns s1 = Inr d" "rs_security (response_of s1) = rs_security (response_of c) \<or> b" "dns_frame c s1"
    using w d by (auto simp: s1_def netresolve_backend_set_secure_def waiting_ok_response dns_frame_def)
  have rep: "returns F (netresolve_query_set_state (Suc n) C st s1) (dns_reported b c True)"
    if "st \<in> {STATE_RESOLVED, STATE_ERROR}" for st
  proof (rule returns_mono [OF set_state_reports [OF s1(1)]])
    fix t assume t: "waiting_ok t \<and> state_of t = st \<and> report_frame s1 t"
    then have "get_dns t = Inr d" using get_dns_cong [of t s1] s1(2) by (simp add: report_frame_def)
    then show "dns_reported b c True t"
      using t d s1(3,4) that dns_frame_report [of c s1 t] by (auto simp: dns_reported_def report_frame_def)
  qed (use that in simp_all)
  show ?thesis
  proof (cases "ls = []")
    case True
    then show ?thesis
      unfolding dns_check_def d(1) rbind_simps d(5)
      using rep [of STATE_RESOLVED] rep [of STATE_ERROR]
      by (simp add: netresolve_backend_finished_def netresolve_backend_failed_def s1_def [symmetric]
          del: netresolve_query_set_state.simps)
  next
    case False
    then show ?thesis unfolding dns_check_def d(1) rbind_simps d(5) using d w by (simp add: dns_reported_def)
  qed
qed

lemma ubdns_callback_ok:
  assumes U: "\<And>l. ub_resolve_async U l" and data: "ub_answer_packet r \<noteq> None" "ub_answer_packet r \<noteq> Some []"
    and s: "waiting_ok s" "get_dns s = Inr d" "dns_ok (d\<lparr>dn_pending := dn_pending d - 1\<rparr>)"
    and srv: "srv_valid srv (length (dn_srvs d))"
  shows "returns dns_faults (ubdns_callback U E (netresolve_query_set_state (Suc n) C) srv status r s)
    (dns_reported (dn_secure d \<and> (status = 0 \<longrightarrow> ub_secure r \<and> \<not> ub_bogus r)) s (status = 0))"
proof -
  let ?c = s and ?k = "length (dn_srvs d)" and ?ss = "netresolve_query_set_state (Suc n) C"
  let ?s = "set_dns (d\<lparr>dn_pending := dn_pending d - 1\<rparr>) s"
  have s1: "dns_state ?k (dn_secure d) ?c ?s"
    using s get_set_dns [OF s(2)] dns_frame_set_dns [OF s(2), of "d\<lparr>dn_pending := dn_pending d - 1\<rparr>" s]
    by (simp add: dns_state_def dns_frame_def) (simp add: set_dns_def waiting_ok_backend)
  show ?thesis
  proof (cases "status = 0")
    case False
    have "returns dns_faults (upd_dns (\<lambda>d. d\<lparr>dn_failed := True\<rparr>) ?s) (dns_state ?k (dn_secure d) ?c)"
      by (rule upd_failed_ok [OF s1])
    then show ?thesis
      unfolding ubdns_callback_def upd_dns_def [of _ s] s(2) rbind_simps if_P [OF False]
      by (rule returns_mono) (auto simp: False dns_state_def dns_reported_def)
  next
    case True
    let ?b1 = "dn_secure d \<and> ub_secure r" and ?b2 = "dn_secure d \<and> ub_secure r \<and> \<not> ub_bogus r"
    have step1: "returns dns_faults (if \<not> ub_secure r then upd_dns (\<lambda>d. d\<lparr>dn_secure := False\<rparr>) ?s else Inr ?s) (dns_state ?k ?b1 ?c)"
      using s1 upd_dns_ok [OF s1, of "\<lambda>d. d\<lparr>dn_secure := False\<rparr>" ?b1] by (cases "ub_secure r") simp_all
    have step2: "returns dns_faults (if \<not> ub_bogus r then apply_answer (lookup_dns U) (ldns_wire2pkt U) E ?ss srv (ub_answer_packet r) t
        else upd_dns (\<lambda>d. d\<lparr>dn_secure := False, dn_failed := True\<rparr>) t) (dns_state ?k ?b2 ?c)"
      if t: "dns_state ?k ?b1 ?c t" for t
      using lookups.apply_answer_ok [OF unbound_lookups [OF U] t srv data] upd_dns_ok [OF t, of "\<lambda>d. d\<lparr>dn_secure := False, dn_failed := True\<rparr>" ?b2]
      by (cases "ub_bogus r") (simp_all del: netresolve_query_set_state.simps)
    have "returns dns_faults (rbind (if \<not> ub_secure r then upd_dns (\<lambda>d. d\<lparr>dn_secure := False\<rparr>) ?s else Inr ?s) (\<lambda>s.
        rbind (if \<not> ub_bogus r then apply_answer (lookup_dns U) (ldns_wire2pkt U) E ?ss srv (ub_answer_packet r) s
               else upd_dns (\<lambda>d. d\<lparr>dn_secure := False, dn_failed := True\<rparr>) s) (dns_check ?ss)))
      (dns_reported ?b2 ?c True)"
      by (rule returns_bind [OF step1 returns_bind [OF step2 dns_check_ok]])
    then show ?thesis
      unfolding ubdns_callback_def upd_dns_def [of _ s] s(2) rbind_simps True
      by (simp del: netresolve_query_set_state.simps)
  qed
qed

text \<open>A lookup that has been reported is no longer counted.\<close>

lemma dns_ok_remove:
  assumes "dns_ok d" and "dn_ctx d = Some ls" and "l \<in> set ls"
  shows "dns_ok (d\<lparr>dn_ctx := Some (remove1 l ls), dn_pending := dn_pending d - 1\<rparr>)"
proof -
  have "length (remove1 l ls) = length ls - 1" "length ls > 0" using assms(3) by (auto simp: length_remove1)
  then have "int (length (remove1 l ls)) = int (length ls) - 1" by linarith
  then show ?thesis using assms by (auto simp: dns_ok_def dest: notin_set_remove1)
qed

section \<open>Properties\<close>


text \<open>
  C27: a response is only marked as secure when every answer was. Of a callback without error
  status: the flag in the private data survives only a secure answer that is not bogus, and the
  security of the response changes only when the flag has survived.
\<close>

theorem dns_secure_sound:
  assumes "\<And>l. ub_resolve_async U l" and "ub_answer_packet r \<noteq> None" and "ub_answer_packet r \<noteq> Some []"
    and "waiting_ok s" and "get_dns s = Inr d" and "dns_ok (d\<lparr>dn_pending := dn_pending d - 1\<rparr>)"
    and "\<forall>j. srv = Some j \<longrightarrow> j < length (dn_srvs d)"
    and "ubdns_callback U E (netresolve_query_set_state (Suc n) C) srv 0 r s = Inr s'"
  shows "\<exists>d'. get_dns s' = Inr d' \<and> (dn_secure d' \<longrightarrow> dn_secure d \<and> ub_secure r \<and> \<not> ub_bogus r) \<and>
    (rs_security (response_of s') \<noteq> rs_security (response_of s) \<longrightarrow> dn_secure d \<and> ub_secure r \<and> \<not> ub_bogus r)"
proof -
  have "dns_reported (dn_secure d \<and> (0 = (0 :: int) \<longrightarrow> ub_secure r \<and> \<not> ub_bogus r)) s (0 = (0 :: int)) s'"
    using ubdns_callback_ok [OF assms(1-7), of E n C 0] unfolding assms(8) by simp
  then show ?thesis by (auto simp: dns_reported_def)
qed


text \<open>
  C31: a host with addresses of one family only. When the lookups for the other family come last
  and are answered by an empty answer, the backend reports a failure, whatever was found before;
  the paths that were found stay in the response.
\<close>

theorem dns_one_family_fails:
  assumes "waiting_ok s" and "get_dns s = Inr d" and "dn_pending d = 1" and "dn_type d = 0"
    and "ub_answer_packet r = Some bytes" and "bytes \<noteq> []" and "\<not> ub_bogus r"
    and "ldns_wire2pkt U bytes = Some pkt" and "pkt_rcode pkt = 0" and "pkt_answer pkt = []"
    and "pkt_question pkt = [type]" and "type \<noteq> LDNS_RR_TYPE_SRV"
  shows "\<exists>s'. ubdns_callback U E (netresolve_query_set_state (Suc n) C) srv 0 r s = Inr s' \<and>
    state_of s' = STATE_ERROR \<and> rs_paths (response_of s') = rs_paths (response_of s)"
proof -
  let ?ss = "netresolve_query_set_state (Suc n) C"
  let ?d = "if \<not> ub_secure r \<or> \<not> dn_validate d \<and> \<not> pkt_ad pkt
    then d\<lparr>dn_pending := 0, dn_secure := False, dn_failed := True\<rparr> else d\<lparr>dn_pending := 0, dn_failed := True\<rparr>"
  define s1 where "s1 = set_dns ?d s"
  have g: "get_dns (set_dns d1 s) = Inr d1" for d1 by (rule get_set_dns [OF assms(2)])
  define s2 where "s2 = (if dn_answered d \<and> dn_secure ?d then netresolve_backend_set_secure s1 else s1)"
  have "ubdns_callback U E ?ss srv 0 r s = ?ss STATE_ERROR s2"
    using assms(3-12)
    by (auto simp: ubdns_callback_def upd_dns_def assms(2) g apply_answer_def apply_packet_def dns_check_def
        netresolve_backend_failed_def Let_def s1_def s2_def simp del: netresolve_query_set_state.simps)
  moreover have "waiting_ok s2"
    using assms(1) by (simp add: s2_def s1_def netresolve_backend_set_secure_def waiting_ok_response set_dns_def waiting_ok_backend)
  then have "returns {} (?ss STATE_ERROR s2) (\<lambda>s'. waiting_ok s' \<and> state_of s' = STATE_ERROR \<and> report_frame s2 s')"
    by (rule set_state_reports) simp
  then obtain s' where "?ss STATE_ERROR s2 = Inr s'" "state_of s' = STATE_ERROR" "report_frame s2 s'"
    using returns_noneE by blast
  moreover have "rs_paths (response_of s2) = rs_paths (response_of s)"
    by (simp add: s2_def s1_def netresolve_backend_set_secure_def)
  ultimately show ?thesis by (auto simp: report_frame_def)
qed

text \<open>A waiting query for a host, with one or two lookups outstanding.\<close>

definition sample_lookup :: "int \<Rightarrow> dns_lookup" where
  "sample_lookup type = \<lparr>lk_srv = None, lk_name = ''host'', lk_type = type, lk_class = LDNS_RR_CLASS_IN\<rparr>"

definition sample_dns :: "int list \<Rightarrow> priv_dns" where
  "sample_dns types = zero_dns\<lparr>dn_srv := zero_srv\<lparr>srv_name := Some ''host''\<rparr>, dn_secure := True,
     dn_pending := int (length types), dn_ctx := Some (map sample_lookup types)\<rparr>"

definition waiting_sys :: sys where
  "waiting_sys = upd_query (\<lambda>q. q\<lparr>q_state := STATE_WAITING, q_request := (q_request q)\<lparr>rq_result_timeout := 5000\<rparr>\<rparr>)
     (sample_sys [''ubdns''] ''host'')"

definition sample_ub :: unbound where
  "sample_ub = \<lparr>ub_ctx_create = True, ub_ctx_set_fwd = (\<lambda>_. 0), ub_ctx_resolvconf = 0, ub_ctx_add_ta_file = (\<lambda>_. 0),
     ub_fd = 7, ub_resolve_async = (\<lambda>_. True),
     ub_process = map (\<lambda>l. (l, 0, \<lparr>ub_secure = True, ub_bogus = False,
       ub_answer_packet = Some [if lk_type l = LDNS_RR_TYPE_A then 1 else 2]\<rparr>)),
     ldns_wire2pkt = (\<lambda>bytes. Some (if bytes = [1]
       then \<lparr>pkt_rcode = 0, pkt_question = [LDNS_RR_TYPE_A], pkt_answer = [RR_A [10, 0, 0, 1] 60], pkt_ad = True\<rparr>
       else \<lparr>pkt_rcode = 0, pkt_question = [LDNS_RR_TYPE_AAAA], pkt_answer = [], pkt_ad = True\<rparr>))\<rparr>"

lemma waiting_sys_ok: "waiting_ok (set_dns d waiting_sys)" "get_dns (set_dns d waiting_sys) = Inr d"
proof -
  have "tidy (sample_sys [''ubdns''] ''host'')" using sample_sys_ready [of "[''ubdns'']"] by (simp add: ready_def)
  then have "tidy waiting_sys" unfolding waiting_sys_def by (rule tidy_query_cong) simp_all
  moreover have "state_of waiting_sys = STATE_WAITING" "rq_result_timeout (request_of waiting_sys) = 5000"
    "get_slot Slot_result_timeout (s_query waiting_sys) = None"
    by (simp_all add: waiting_sys_def sample_sys_def zero_defs get_slot_def)
  ultimately have "waiting_ok waiting_sys" by (simp add: waiting_ok_def)
  then show "waiting_ok (set_dns d waiting_sys)" by (simp add: set_dns_def waiting_ok_backend)
  show "get_dns (set_dns d waiting_sys) = Inr d"
    by (simp add: get_dns_def netresolve_backend_get_priv_def current_backend_def backend_list_def set_dns_def
        waiting_sys_def sample_sys_def upd_backend_def zero_defs)
qed

lemma sample_dns_ok: "dns_ok (sample_dns types)" "dn_ctx (sample_dns types) = Some (map sample_lookup types)"
  by (auto simp: dns_ok_def sample_dns_def sample_lookup_def zero_dns_def)


theorem dns_secure_sound_witness:
  "\<exists>s'. ubdns_callback sample_ub sample_env (netresolve_query_set_state 1 (dns_code sample_ub sample_env reading_callback)) None 0
      \<lparr>ub_secure = False, ub_bogus = False, ub_answer_packet = Some [1]\<rparr>
      (set_dns (sample_dns [LDNS_RR_TYPE_A]\<lparr>dn_ctx := Some []\<rparr>) waiting_sys) = Inr s' \<and>
    rs_security (response_of s') = rs_security (response_of (set_dns (sample_dns [LDNS_RR_TYPE_A]\<lparr>dn_ctx := Some []\<rparr>) waiting_sys))"
proof -
  let ?d = "sample_dns [LDNS_RR_TYPE_A]\<lparr>dn_ctx := Some []\<rparr>"
  let ?s = "set_dns ?d waiting_sys" and ?u = "\<lparr>ub_secure = False, ub_bogus = False, ub_answer_packet = Some [1]\<rparr>"
  let ?r = "ubdns_callback sample_ub sample_env (netresolve_query_set_state 1 (dns_code sample_ub sample_env reading_callback)) None 0 ?u ?s"
  have "returns {} ?r (\<lambda>_. True)" by code_simp
  from returns_noneE [OF this] obtain s' where s': "?r = Inr s'" by blast
  have "dns_ok (?d\<lparr>dn_pending := dn_pending ?d - 1\<rparr>)" by (simp add: dns_ok_def sample_dns_def zero_dns_def)
  moreover have "ub_resolve_async sample_ub l" for l by (simp add: sample_ub_def)
  ultimately have "\<exists>d'. get_dns s' = Inr d' \<and> (dn_secure d' \<longrightarrow> dn_secure ?d \<and> ub_secure ?u \<and> \<not> ub_bogus ?u) \<and>
      (rs_security (response_of s') \<noteq> rs_security (response_of ?s) \<longrightarrow> dn_secure ?d \<and> ub_secure ?u \<and> \<not> ub_bogus ?u)"
    using dns_secure_sound [OF _ _ _ waiting_sys_ok _ _ s' [unfolded One_nat_def]] by simp
  then show ?thesis using s' by auto
qed


theorem dns_one_family_fails_witness:
  "\<exists>s'. ubdns_callback sample_ub sample_env (netresolve_query_set_state 1 (dns_code sample_ub sample_env reading_callback)) None 0
      \<lparr>ub_secure = True, ub_bogus = False, ub_answer_packet = Some [2]\<rparr>
      (upd_response (\<lambda>r. r\<lparr>rs_paths := Some [sample_path AF_INET]\<rparr>)
        (set_dns (sample_dns [LDNS_RR_TYPE_AAAA]\<lparr>dn_answered := True\<rparr>) waiting_sys)) = Inr s' \<and>
    state_of s' = STATE_ERROR \<and> rs_paths (response_of s') = Some [sample_path AF_INET]"
proof -
  let ?d = "sample_dns [LDNS_RR_TYPE_AAAA]\<lparr>dn_answered := True\<rparr>" and ?C = "dns_code sample_ub sample_env reading_callback"
  let ?s = "upd_response (\<lambda>r. r\<lparr>rs_paths := Some [sample_path AF_INET]\<rparr>) (set_dns ?d waiting_sys)"
  let ?u = "\<lparr>ub_secure = True, ub_bogus = False, ub_answer_packet = Some [2]\<rparr>"
  have s: "waiting_ok ?s" "get_dns ?s = Inr ?d" using waiting_sys_ok by (simp_all add: waiting_ok_response)
  have "dn_pending ?d = 1" "dn_type ?d = 0" by (simp_all add: sample_dns_def zero_dns_def)
  from dns_one_family_fails [OF s this, of ?u "[2]" sample_ub
      "\<lparr>pkt_rcode = 0, pkt_question = [LDNS_RR_TYPE_AAAA], pkt_answer = [], pkt_ad = True\<rparr>" LDNS_RR_TYPE_AAAA sample_env 0 ?C None]
  show ?thesis by (simp add: sample_ub_def del: netresolve_query_set_state.simps)
qed

section \<open>Names for reverse lookups\<close>

lemma of_hex_char: "n < 16 \<Longrightarrow> (of_char (hex_char n) :: nat) = (if n < 10 then 48 + n else 87 + n)"
  by (simp add: hex_char_def)

lemma hex_char_inj: "n < 16 \<Longrightarrow> m < 16 \<Longrightarrow> hex_char n = hex_char m \<longleftrightarrow> n = m"
proof
  assume "n < 16" "m < 16" "hex_char n = hex_char m"
  then have "(if n < 10 then 48 + n else 87 + n) = (if m < 10 then 48 + m else 87 + m)" by (metis of_hex_char)
  then show "n = m" by (auto split: if_splits)
qed simp

lemma byte_halves: "(b :: byte) AND 0x0f = c AND 0x0f \<Longrightarrow> drop_bit 4 b = drop_bit 4 c \<Longrightarrow> b = c"
proof (rule bit_word_eqI)
  fix n assume a: "b AND 0x0f = c AND 0x0f" "drop_bit 4 b = drop_bit 4 c" and n: "n < LENGTH(8)"
  show "bit b n = bit c n"
  proof (cases "n < 4")
    case True
    have "bit (b AND 0x0f) n = bit (c AND 0x0f) n" using a(1) by simp
    moreover have "bit (0x0f :: byte) n" using True by (auto simp: less_Suc_eq numeral_eq_Suc)
    ultimately show ?thesis by (simp add: bit_and_iff)
  next
    case False
    have "bit (drop_bit 4 b) (n - 4) = bit (drop_bit 4 c) (n - 4)" using a(2) by simp
    then show ?thesis using False by (simp add: bit_drop_bit_eq)
  qed
qed

text \<open>Texts of bytes that can be told apart at their beginning.\<close>

lemma concat_code_inj:
  assumes code: "\<And>b c r t. g b @ r = g c @ t \<Longrightarrow> b = c \<and> r = t" and "length xs = length ys"
    and "concat (map g xs) @ r = concat (map g ys) @ t"
  shows "xs = ys"
  using assms(2,3)
proof (induction xs ys rule: list_induct2)
  case (Cons x xs y ys)
  then have "g x @ (concat (map g xs) @ r) = g y @ (concat (map g ys) @ t)" by simp
  from code [OF this] Cons.IH show ?case by simp
qed simp

lemma low_half: "unat (b AND 0x0f :: byte) < 16"
proof -
  have "b AND 0x0f \<le> (0x0f :: byte)" by (rule word_and_le1)
  then show ?thesis by (simp add: word_le_nat_alt)
qed

lemma high_half: "unat (drop_bit 4 b :: byte) < 16"
proof -
  have "unat (drop_bit 4 b) = unat b div 16" unfolding unat_drop_bit_eq by (simp add: drop_bit_eq_div)
  then show ?thesis using unsigned_less [where ?'a = nat, of b] by (simp add: less_mult_imp_div_less)
qed

lemma code6:
  fixes b c :: byte
  assumes "[hex_char (unat (b AND 0x0f)), CHR ''.'', hex_char (unat (drop_bit 4 b)), CHR ''.''] @ r =
    [hex_char (unat (c AND 0x0f)), CHR ''.'', hex_char (unat (drop_bit 4 c)), CHR ''.''] @ t"
  shows "b = c \<and> r = t"
proof -
  have "unat (b AND 0x0f) = unat (c AND 0x0f)" "unat (drop_bit 4 b) = unat (drop_bit 4 c)" "r = t"
    using assms by (simp_all add: hex_char_inj low_half high_half)
  then show ?thesis using byte_halves [of b c] by (metis unsigned_word_eqI)
qed

lemma code4:
  fixes b c :: byte
  assumes "(show_int (uint b) @ ''.'') @ r = (show_int (uint c) @ ''.'') @ t"
  shows "b = c \<and> r = t"
proof -
  have dot: "takeWhile (\<lambda>x. x \<noteq> CHR ''.'') (show_int (uint w) @ ''.'' @ u) = show_int (uint w)" for w :: byte and u
  proof -
    have "x \<noteq> CHR ''.''" if "x \<in> set (show_nat n)" for x n
      using show_nat_digits [of n] that by (auto simp: isdigit_def)
    then show ?thesis by (simp add: show_int_def takeWhile_append2)
  qed
  have e: "show_int (uint b) = show_int (uint c)"
    using assms dot [of b r] dot [of c t] by (metis append.assoc)
  then have "show_nat (unat b) = show_nat (unat c)" by (simp add: show_int_def)
  then have "int (unat b) = int (unat c)" by (metis digits_value_show_nat)
  then have "b = c" by (simp add: unsigned_word_eqI)
  then show ?thesis using assms by simp
qed

lemma show_byte_length: "length (show_int (uint (b :: byte))) \<le> 3"
proof -
  have "unat b < 256" using unsigned_less [where ?'a = nat, of b] by simp
  then have "unat b div 10 < 26" "unat b div 10 div 10 < 10" by simp_all
  then have "length (show_nat (unat b)) \<le> 3"
    by (simp add: show_nat.simps [of "unat b"] show_nat.simps [of "unat b div 10"] show_nat.simps [of "unat b div 10 div 10"])
  then show ?thesis by (simp add: show_int_def)
qed

lemma sum_list_map_le: "(\<And>x. x \<in> set xs \<Longrightarrow> f x \<le> (m :: nat)) \<Longrightarrow> sum_list (map f xs) \<le> m * length xs"
  by (induction xs) (auto simp: add_mono)

lemma ptr_name_lengths: "length (ptr_name4 a) \<le> 127" "length (ptr_name6 a) \<le> 127"
proof -
  have len: "length (mem_read n a) = n" for n by (simp add: mem_read_def)
  then have "sum_list (map (\<lambda>b. length (show_int (uint b) @ ''.'')) (rev (mem_read 4 a))) \<le> 4 * 4"
    using sum_list_map_le [of "rev (mem_read 4 a)" "\<lambda>b. length (show_int (uint b) @ ''.'')" 4] show_byte_length by force
  then show "length (ptr_name4 a) \<le> 127" by (simp add: ptr_name4_def length_concat o_def)
  show "length (ptr_name6 a) \<le> 127"
    using sum_list_map_le [of "rev (mem_read 16 a)" "\<lambda>_. Suc (Suc (Suc (Suc 0)))" 4] len
    by (simp add: ptr_name6_def length_concat o_def)
qed



end
