(* ===== verification/Dns_Ares.thy ===== *)
theory Dns_Ares
  imports Dns
begin

text \<open>
  The DNS backend as it is built for c-ares, after \<open>backends/dns.c\<close>. A channel of c-ares has
  several descriptors, which change while it works: they are watched after each call into the
  library and released before the next one. c-ares is a parameter: it takes or refuses a lookup,
  tells the descriptors of the outstanding lookups and which of them to wait for, and reports any
  of them when it is given a ready descriptor.
\<close>

unbundle bit_operations_syntax

section \<open>The library\<close>

abbreviation ARES_SUCCESS :: int where "ARES_SUCCESS \<equiv> 0"
abbreviation ARES_ENOTFOUND :: int where "ARES_ENOTFOUND \<equiv> 4"
abbreviation ARES_EDESTRUCTION :: int where "ARES_EDESTRUCTION \<equiv> 16"
abbreviation ARES_SOCKET_BAD :: int where "ARES_SOCKET_BAD \<equiv> - 1"

record ares =
  ares_library_init :: int
  ares_init_options :: int
  ares_query :: "dns_lookup \<Rightarrow> bool"
  ares_fds :: "dns_lookup list \<Rightarrow> int \<times> int list \<times> int list"
  ares_process_fd :: "int \<Rightarrow> int \<Rightarrow> dns_lookup list \<Rightarrow> (dns_lookup \<times> int \<times> byte list option) list"
  ares_wire2pkt :: "byte list \<Rightarrow> ldns_pkt option"

section \<open>Lookups\<close>

text \<open>A lookup that c-ares cannot start is called back at once, with an error.\<close>

definition ares_lookup_dns :: "ares \<Rightarrow> lookup" where
  "ares_lookup_dns A srv name type cls s =
     rbind (get_dns s) (\<lambda>d.
       (case (dn_ctx d, name) of
          (Some ls, Some nm) \<Rightarrow>
            (let l = \<lparr>lk_srv = srv, lk_name = nm, lk_type = type, lk_class = cls\<rparr>;
                 d1 = d\<lparr>dn_pending := dn_pending d + 1\<rparr>
             in Inr (set_dns (if ares_query A l then d1\<lparr>dn_ctx := Some (ls @ [l])\<rparr>
                              else d1\<lparr>dn_pending := dn_pending d1 - 1, dn_failed := True\<rparr>) s))
        | _ \<Rightarrow> Inl Null_dereference))"

section \<open>Descriptors\<close>

definition ares_watch_fd :: "int \<Rightarrow> int \<Rightarrow> sys \<Rightarrow> sys res" where
  "ares_watch_fd fd events s =
     rbind (netresolve_watch_add fd events (CB_backend ''aresdns'') DATA_NULL s) (\<lambda>(w, s).
       upd_dns (\<lambda>d. d\<lparr>dn_ares := (dn_ares d)\<lparr>ar_watches := (fd, w) # ar_watches (dn_ares d)\<rparr>\<rparr>) s)"

definition ares_watch_loop :: "int list \<Rightarrow> int list \<Rightarrow> int \<Rightarrow> sys \<Rightarrow> sys res" where
  "ares_watch_loop rfds wfds fd s =
     rbind (if FD_ISSET fd rfds then ares_watch_fd fd POLLIN s else Inr s) (\<lambda>s.
       if FD_ISSET fd wfds then ares_watch_fd fd POLLOUT s else Inr s)"

definition watch_file_descriptors :: "ares \<Rightarrow> sys \<Rightarrow> sys res" where
  "watch_file_descriptors A s =
     rbind (get_dns s) (\<lambda>d.
     rbind (assert_that (ar_nfds (dn_ares d) = 0) s) (\<lambda>s.
       (case dn_ctx d of
          None \<Rightarrow> Inl Null_dereference
        | Some ls \<Rightarrow>
            (case ares_fds A ls of (n, r, w) \<Rightarrow>
              (let a = (dn_ares d)\<lparr>ar_nfds := n, ar_rfds := fold FD_SET r (ar_rfds (dn_ares d)),
                         ar_wfds := fold FD_SET w (ar_wfds (dn_ares d))\<rparr>
               in foreach (ares_watch_loop (ar_rfds a) (ar_wfds a)) [0..n - 1] (set_dns (d\<lparr>dn_ares := a\<rparr>) s))))))"

text \<open>
  Only watches for reading are removed; the array of watches is a list of its entries, and one that
  has never been written is read out of bounds. The private data is given, as the cleanup has it.
\<close>

definition ares_unwatch_loop :: "priv_ares \<Rightarrow> int \<Rightarrow> sys \<Rightarrow> sys res" where
  "ares_unwatch_loop a fd s =
     (if FD_ISSET fd (ar_rfds a)
      then (case map_of (ar_watches a) fd of None \<Rightarrow> Inl Out_of_bounds | Some w \<Rightarrow> netresolve_watch_remove w False s)
      else Inr s)"

definition unwatch_file_descriptors :: "priv_ares \<Rightarrow> sys \<Rightarrow> (priv_ares \<times> sys) res" where
  "unwatch_file_descriptors a s =
     rbind (assert_that (ar_nfds a \<noteq> 0) s) (\<lambda>s.
     rbind (foreach (ares_unwatch_loop a) [0..ar_nfds a - 1] s) (\<lambda>s.
       Inr (a\<lparr>ar_rfds := [], ar_wfds := [], ar_nfds := 0\<rparr>, s)))"

section \<open>Answers\<close>

definition aresdns_callback ::
    "ares \<Rightarrow> env \<Rightarrow> set_state \<Rightarrow> nat option \<Rightarrow> int \<Rightarrow> byte list option \<Rightarrow> sys \<Rightarrow> sys res" where
  "aresdns_callback A E ss srv status abuf s =
     rbind (upd_dns (\<lambda>d. d\<lparr>dn_pending := dn_pending d - 1\<rparr>) s) (\<lambda>s.
       if status = ARES_EDESTRUCTION then Inr s
       else if status \<noteq> ARES_SUCCESS \<and> status \<noteq> ARES_ENOTFOUND then upd_dns (\<lambda>d. d\<lparr>dn_failed := True\<rparr>) s
       else rbind (apply_answer (ares_lookup_dns A) (ares_wire2pkt A) E ss srv abuf s) (dns_check ss))"

text \<open>A completed lookup is no longer outstanding when its callback runs.\<close>

definition ares_complete ::
    "ares \<Rightarrow> env \<Rightarrow> set_state \<Rightarrow> dns_lookup \<times> int \<times> byte list option \<Rightarrow> sys \<Rightarrow> sys res" where
  "ares_complete A E ss = (\<lambda>(l, status, abuf) s.
     rbind (get_dns s) (\<lambda>d.
       (case dn_ctx d of
          None \<Rightarrow> Inl Null_dereference
        | Some ls \<Rightarrow>
            if l \<in> set ls
            then aresdns_callback A E ss (lk_srv l) status abuf (set_dns (d\<lparr>dn_ctx := Some (remove1 l ls)\<rparr>) s)
            else Inr s)))"

definition ares_process :: "ares \<Rightarrow> env \<Rightarrow> set_state \<Rightarrow> int \<Rightarrow> int \<Rightarrow> sys \<Rightarrow> sys res" where
  "ares_process A E ss rfd wfd s =
     rbind (get_dns s) (\<lambda>d.
       (case dn_ctx d of
          None \<Rightarrow> Inl Null_dereference
        | Some ls \<Rightarrow> foreach (ares_complete A E ss) (ares_process_fd A rfd wfd ls) s))"

definition ares_dispatch :: "ares \<Rightarrow> env \<Rightarrow> set_state \<Rightarrow> int \<Rightarrow> int \<Rightarrow> sys \<Rightarrow> sys res" where
  "ares_dispatch A E ss fd events s =
     rbind (get_dns s) (\<lambda>d.
     rbind (unwatch_file_descriptors (dn_ares d) s) (\<lambda>(a, s).
     rbind (upd_dns (\<lambda>d. d\<lparr>dn_ares := a\<rparr>) s) (\<lambda>s.
     rbind (ares_process A E ss (if events AND POLLIN \<noteq> 0 then fd else ARES_SOCKET_BAD)
              (if events AND POLLOUT \<noteq> 0 then fd else ARES_SOCKET_BAD) s) (\<lambda>s.
     rbind (watch_file_descriptors A s) (dns_check ss)))))"

definition ares_cleanup :: "priv option \<Rightarrow> sys \<Rightarrow> sys res" where
  "ares_cleanup data s =
     (case data of
        Some (Priv_dns d) \<Rightarrow>
          if ar_nfds (dn_ares d) \<noteq> 0
          then rbind (unwatch_file_descriptors (dn_ares d) s) (\<lambda>(_, s). Inr s) else Inr s
      | _ \<Rightarrow> Inl Null_dereference)"

section \<open>Setting up\<close>

definition ares_setup :: "ares \<Rightarrow> string list \<Rightarrow> sys \<Rightarrow> (bool \<times> sys) res" where
  "ares_setup A settings s =
     rbind (netresolve_backend_new_priv (Priv_dns zero_dns) s) (\<lambda>s.
       (let d = zero_dns\<lparr>dn_secure := (''trust'' \<in> set settings),
                  dn_srv := zero_srv\<lparr>srv_name := netresolve_backend_get_nodename s\<rparr>,
                  dn_family := netresolve_backend_get_family s\<rparr>
        in if ares_library_init A \<noteq> ARES_SUCCESS \<or> ares_init_options A \<noteq> ARES_SUCCESS
           then Inr (False, set_dns d s)
           else Inr (True, set_dns (d\<lparr>dn_ctx := Some []\<rparr>) s)))"

definition ares_query_forward :: "ares \<Rightarrow> set_state \<Rightarrow> string list \<Rightarrow> sys \<Rightarrow> sys res" where
  "ares_query_forward A ss settings s =
     rbind (ares_setup A settings s) (\<lambda>(ok, s).
       if \<not> ok then netresolve_backend_failed ss s
       else rbind (get_dns s) (\<lambda>d.
         if srv_name (dn_srv d) = None then netresolve_backend_failed ss s
         else rbind (if netresolve_backend_get_dns_srv_lookup s
                     then lookup_srv (ares_lookup_dns A) (set_dns (d\<lparr>dn_protocol := netresolve_backend_get_protocol s\<rparr>) s)
                     else lookup_host (ares_lookup_dns A) None s)
                (watch_file_descriptors A)))"

definition ares_query_reverse :: "ares \<Rightarrow> set_state \<Rightarrow> string list \<Rightarrow> sys \<Rightarrow> sys res" where
  "ares_query_reverse A ss settings s =
     (let address = netresolve_backend_get_address s
      in rbind (ares_setup A settings s) (\<lambda>(ok, s).
           if \<not> ok then netresolve_backend_failed ss s
           else rbind (upd_dns (\<lambda>d. d\<lparr>dn_address := address\<rparr>) s) (\<lambda>s.
                rbind (lookup_address (ares_lookup_dns A) s) (watch_file_descriptors A))))"

definition ares_query_dns :: "ares \<Rightarrow> set_state \<Rightarrow> string list \<Rightarrow> sys \<Rightarrow> sys res" where
  "ares_query_dns A ss settings s =
     rbind (ares_setup A settings s) (\<lambda>(ok, s).
       if \<not> ok then netresolve_backend_failed ss s
       else rbind (get_dns s) (\<lambda>d.
         if srv_name (dn_srv d) = None then netresolve_backend_failed ss s
         else (case netresolve_backend_get_dns_query s of (_, cls, type) \<Rightarrow>
                rbind (ares_lookup_dns A None (srv_name (dn_srv d)) type cls
                         (set_dns (d\<lparr>dn_cls := cls, dn_type := type\<rparr>) s))
                  (watch_file_descriptors A))))"

text \<open>The functions of the module, with the application's callback.\<close>

definition ares_code :: "ares \<Rightarrow> env \<Rightarrow> (query_callback \<Rightarrow> sys \<Rightarrow> sys res) \<Rightarrow> code" where
  "ares_code A E app = \<lparr>
     c_setup = (\<lambda>m t ss settings. case t of
        REQUEST_FORWARD \<Rightarrow> ares_query_forward A ss settings
      | REQUEST_REVERSE \<Rightarrow> ares_query_reverse A ss settings
      | REQUEST_DNS \<Rightarrow> ares_query_dns A ss settings),
     c_cleanup = (\<lambda>m. ares_cleanup),
     c_query_callback = app,
     c_watch_callback = (\<lambda>watch events ss. ares_dispatch A E ss (w_fd watch) events),
     c_timeout_callback = (\<lambda>watch ss s. Inl Null_dereference)\<rparr>"

section \<open>The contract of lookups\<close>

interpretation ares_lookups: lookups "ares_lookup_dns A"
proof
  fix k b c s srv name type cls
  assume s: "dns_state k b c s" and srv: "srv_valid srv k"
  obtain d ls where d: "get_dns s = Inr d" "dns_ok d" "k \<le> length (dn_srvs d)" "dn_secure d \<longrightarrow> b" "dn_ctx d = Some ls"
    using s by (auto simp: dns_state_def dns_ok_def)
  have "dns_state k b c (set_dns (d\<lparr>dn_pending := dn_pending d + 1,
      dn_ctx := Some (ls @ [\<lparr>lk_srv = srv, lk_name = nm, lk_type = type, lk_class = cls\<rparr>])\<rparr>) s)" for nm
    using d srv by (intro dns_state_set_dns [OF s d(1)]) (auto simp: dns_ok_def)
  moreover have "dns_state k b c (set_dns (d\<lparr>dn_pending := dn_pending d, dn_failed := True\<rparr>) s)"
    using d by (intro dns_state_set_dns [OF s d(1)]) (auto simp: dns_ok_def)
  ultimately show "returns dns_faults (ares_lookup_dns A srv name type cls s) (dns_state k b c)"
    using d by (cases name) (simp_all add: ares_lookup_dns_def Let_def)
qed

section \<open>Watching and releasing\<close>

lemma get_dns_core: "core s' = core s \<Longrightarrow> get_dns s' = get_dns s"
  by (intro get_dns_cong core_eqD(2,11))

lemma waiting_ok_core:
  assumes "waiting_ok s" and "core s' = core s" and "ev_inv s'" and "slots_inv s'"
  shows "waiting_ok s'"
  using assms core_eqD(1,3) [OF assms(2)] core_get_slot [OF assms(2)] by (simp add: waiting_ok_def tidy_def)

text \<open>A watch of the backend, told apart from the timeouts of the query.\<close>

definition watched_for :: "(int \<times> nat) list \<Rightarrow> sys \<Rightarrow> int \<Rightarrow> bool" where
  "watched_for m s fd \<longleftrightarrow> (\<exists>x \<in> set (q_watches (s_query s)).
     map_of m fd = Some (w_id x) \<and> w_fd x = fd \<and> w_timeout_callback x = TCB_NULL)"

lemma waiting_remove:
  assumes s: "waiting_ok s" and x: "x \<in> set (q_watches (s_query s))" "w_timeout_callback x = TCB_NULL"
  obtains s' where "netresolve_watch_remove (w_id x) False s = Inr s'" "waiting_ok s'" "core s' = core s"
    "q_watches (s_query s') = filter (\<lambda>y. w_id y \<noteq> w_id x) (q_watches (s_query s))"
    "os_open_fds (s_os s') = os_open_fds (s_os s)"
    "loop_watched (s_ctx s') = (loop_watched (s_ctx s))(w_fd x := None)"
proof -
  have inv: "ev_inv s" "slots_inv s" using s by (simp_all add: waiting_ok_def tidy_def)
  obtain s' where s': "netresolve_watch_remove (w_id x) False s = Inr s'" "ev_inv s'"
    "q_watches (s_query s') = filter (\<lambda>y. w_id y \<noteq> w_id x) (q_watches (s_query s))"
    "os_open_fds (s_os s') = os_open_fds (s_os s)"
    "loop_watched (s_ctx s') = (loop_watched (s_ctx s))(w_fd x := None)" "core s' = core s"
    using watch_remove_ok [OF inv(1) x(1), of False] by auto
  have "slots_inv s'"
    unfolding slots_inv_def
  proof (intro allI impI)
    fix sl w assume "get_slot sl (s_query s') = Some w"
    then obtain fd where t: "timer_watch w fd (slot_callback sl) DATA_NULL \<in> set (q_watches (s_query s))"
      using inv(2) core_get_slot [OF s'(6)] unfolding slots_inv_def by metis
    have "w \<noteq> w_id x"
    proof
      assume "w = w_id x"
      then have "timer_watch w fd (slot_callback sl) DATA_NULL = x"
        using ev_invD(5) [OF inv(1)] t x(1) by (metis distinct_map inj_onD timer_watch_id(1))
      then show False using x(2) by (auto simp: timer_watch_def)
    qed
    with t s'(3) show "\<exists>fd. timer_watch w fd (slot_callback sl) DATA_NULL \<in> set (q_watches (s_query s'))" by auto
  qed
  then show thesis using that s' waiting_ok_core [OF s s'(6,2)] by blast
qed

lemma waiting_add:
  assumes s: "waiting_ok s" and fd: "fd \<in> set (os_open_fds (s_os s))" "loop_watched (s_ctx s) fd = None"
    and ev: "events_ok ev"
  obtains s' x where "netresolve_watch_add fd ev cb dt s = Inr (w_id x, s')" "waiting_ok s'" "core s' = core s"
    "q_watches (s_query s') = q_watches (s_query s) @ [x]" "w_fd x = fd" "w_timeout_callback x = TCB_NULL"
    "os_open_fds (s_os s') = os_open_fds (s_os s)"
    "\<And>f. f \<noteq> fd \<Longrightarrow> loop_watched (s_ctx s') f = loop_watched (s_ctx s) f"
proof -
  have inv: "ev_inv s" "slots_inv s" using s by (simp_all add: waiting_ok_def tidy_def)
  let ?x = "\<lparr>w_id = os_next_watch (s_os s), w_fd = fd, w_callback = cb, w_timeout_callback = TCB_NULL, w_data = dt\<rparr>"
  obtain s' where s': "netresolve_watch_add fd ev cb dt s = Inr (w_id ?x, s')" "ev_inv s'"
    "q_watches (s_query s') = q_watches (s_query s) @ [?x]" "os_open_fds (s_os s') = os_open_fds (s_os s)"
    "loop_watched (s_ctx s') = (loop_watched (s_ctx s))(fd \<mapsto> os_next_watch (s_os s))" "core s' = core s"
    using watch_add_ok [OF inv(1) fd ev, of cb dt] by auto
  have "slots_inv s'" using inv(2) s'(3) core_get_slot [OF s'(6)] unfolding slots_inv_def by fastforce
  then show thesis using that [of ?x s'] s' waiting_ok_core [OF s s'(6,2)] by simp
qed

lemma unwatch_loop_ok:
  assumes "waiting_ok s" and "distinct fds" and "\<forall>fd \<in> set fds \<inter> set (ar_rfds a). watched_for (ar_watches a) s fd"
  shows "\<exists>s'. foreach (ares_unwatch_loop a) fds s = Inr s' \<and> waiting_ok s' \<and> core s' = core s \<and>
    os_open_fds (s_os s') = os_open_fds (s_os s) \<and>
    (\<forall>fd. loop_watched (s_ctx s') fd = (if fd \<in> set fds \<inter> set (ar_rfds a) then None else loop_watched (s_ctx s) fd))"
  using assms
proof (induction fds arbitrary: s)
  case Nil
  then show ?case by simp
next
  case (Cons fd fds)
  show ?case
  proof (cases "fd \<in> set (ar_rfds a)")
    case False
    then show ?thesis using Cons.IH [of s] Cons.prems by (simp add: ares_unwatch_loop_def [of a fd] FD_ISSET_def Int_insert_left)
  next
    case True
    then obtain x where x: "x \<in> set (q_watches (s_query s))" "map_of (ar_watches a) fd = Some (w_id x)" "w_fd x = fd"
      "w_timeout_callback x = TCB_NULL" using Cons.prems(3) by (auto simp: watched_for_def)
    obtain s1 where s1: "netresolve_watch_remove (w_id x) False s = Inr s1" "waiting_ok s1" "core s1 = core s"
      "q_watches (s_query s1) = filter (\<lambda>y. w_id y \<noteq> w_id x) (q_watches (s_query s))"
      "os_open_fds (s_os s1) = os_open_fds (s_os s)"
      "loop_watched (s_ctx s1) = (loop_watched (s_ctx s))(fd := None)"
      using waiting_remove [OF Cons.prems(1) x(1,4)] x(3) by metis
    have inv: "ev_inv s" using Cons.prems(1) by (simp add: waiting_ok_def tidy_def)
    have "watched_for (ar_watches a) s1 f" if f: "f \<in> set fds \<inter> set (ar_rfds a)" for f
    proof -
      obtain y where y: "y \<in> set (q_watches (s_query s))" "map_of (ar_watches a) f = Some (w_id y)" "w_fd y = f"
        "w_timeout_callback y = TCB_NULL" using f Cons.prems(3) by (auto simp: watched_for_def)
      have "f \<noteq> fd" using f Cons.prems(2) by auto
      then have "w_id y \<noteq> w_id x" using ev_invD(6) [OF inv x(1)] ev_invD(6) [OF inv y(1)] ev_invD(9) [OF inv] x(3) y(3) by metis
      then show ?thesis using y s1(4) by (auto simp: watched_for_def)
    qed
    then obtain s' where "foreach (ares_unwatch_loop a) fds s1 = Inr s'" "waiting_ok s'" "core s' = core s1"
      "os_open_fds (s_os s') = os_open_fds (s_os s1)"
      "\<forall>fd. loop_watched (s_ctx s') fd = (if fd \<in> set fds \<inter> set (ar_rfds a) then None else loop_watched (s_ctx s1) fd)"
      using Cons.IH [OF s1(2)] Cons.prems(2) by auto
    moreover have "ares_unwatch_loop a fd s = Inr s1"
      using True x(2) s1(1) by (simp add: ares_unwatch_loop_def FD_ISSET_def)
    ultimately show ?thesis using True s1(3,5,6) by (intro exI [of _ s']) auto
  qed
qed

lemma watched_for_more:
  "watched_for m s fd \<Longrightarrow> set (q_watches (s_query s)) \<subseteq> set (q_watches (s_query s')) \<Longrightarrow> map_of m' fd = map_of m fd \<Longrightarrow>
    watched_for m' s' fd"
  unfolding watched_for_def by (metis subsetD)

lemma watch_fd_ok:
  assumes s: "waiting_ok s" "get_dns s = Inr d" and fd: "fd \<in> set (os_open_fds (s_os s))" "loop_watched (s_ctx s) fd = None"
    and ev: "events_ok ev"
  obtains s' w where "ares_watch_fd fd ev s = Inr s'" "waiting_ok s'" "response_of s' = response_of s" "state_of s' = state_of s"
    "get_dns s' = Inr (d\<lparr>dn_ares := (dn_ares d)\<lparr>ar_watches := (fd, w) # ar_watches (dn_ares d)\<rparr>\<rparr>)"
    "watched_for ((fd, w) # ar_watches (dn_ares d)) s' fd"
    "set (q_watches (s_query s)) \<subseteq> set (q_watches (s_query s'))" "os_open_fds (s_os s') = os_open_fds (s_os s)"
    "\<And>f. f \<noteq> fd \<Longrightarrow> loop_watched (s_ctx s') f = loop_watched (s_ctx s) f"
proof -
  obtain t x where t: "netresolve_watch_add fd ev (CB_backend ''aresdns'') DATA_NULL s = Inr (w_id x, t)" "waiting_ok t" "core t = core s"
    "q_watches (s_query t) = q_watches (s_query s) @ [x]" "w_fd x = fd" "w_timeout_callback x = TCB_NULL"
    "os_open_fds (s_os t) = os_open_fds (s_os s)" "\<And>f. f \<noteq> fd \<Longrightarrow> loop_watched (s_ctx t) f = loop_watched (s_ctx s) f"
    using waiting_add [OF s(1) fd ev] by metis
  let ?d = "d\<lparr>dn_ares := (dn_ares d)\<lparr>ar_watches := (fd, w_id x) # ar_watches (dn_ares d)\<rparr>\<rparr>"
  have d: "get_dns t = Inr d" using get_dns_core [OF t(3)] s(2) by simp
  have "ares_watch_fd fd ev s = Inr (set_dns ?d t)" using t(1) d by (simp add: ares_watch_fd_def upd_dns_def)
  moreover have "waiting_ok (set_dns ?d t)" using t(2) by (simp add: set_dns_def waiting_ok_backend)
  moreover have "loop_watched (s_ctx (set_dns ?d t)) = loop_watched (s_ctx t)" by (simp add: set_dns_def upd_backend_def)
  ultimately show thesis
    using that [of "set_dns ?d t" "w_id x"] get_set_dns [OF d] t(4-8) core_eqD(1,4) [OF t(3)]
    by (simp add: watched_for_def subset_insertI)
qed

lemma watch_loop_ok:
  assumes "waiting_ok s" and "get_dns s = Inr d" and "distinct fds"
    and "\<forall>fd \<in> set fds \<inter> set r. fd \<in> set (os_open_fds (s_os s)) \<and> loop_watched (s_ctx s) fd = None"
  shows "\<exists>s' m. foreach (ares_watch_loop r []) fds s = Inr s' \<and> waiting_ok s' \<and>
    response_of s' = response_of s \<and> state_of s' = state_of s \<and>
    get_dns s' = Inr (d\<lparr>dn_ares := (dn_ares d)\<lparr>ar_watches := m\<rparr>\<rparr>) \<and>
    (\<forall>fd \<in> set fds \<inter> set r. watched_for m s' fd) \<and> (\<forall>fd. fd \<notin> set fds \<longrightarrow> map_of m fd = map_of (ar_watches (dn_ares d)) fd) \<and>
    set (q_watches (s_query s)) \<subseteq> set (q_watches (s_query s')) \<and> os_open_fds (s_os s') = os_open_fds (s_os s) \<and>
    (\<forall>fd. fd \<notin> set fds \<inter> set r \<longrightarrow> loop_watched (s_ctx s') fd = loop_watched (s_ctx s) fd)"
  using assms
proof (induction fds arbitrary: s d)
  case Nil
  then show ?case by (intro exI [of _ s] exI [of _ "ar_watches (dn_ares d)"]) simp
next
  case (Cons fd fds)
  show ?case
  proof (cases "fd \<in> set r")
    case False
    then have "ares_watch_loop r [] fd s = Inr s" by (simp add: ares_watch_loop_def FD_ISSET_def)
    moreover have "set (fd # fds) \<inter> set r = set fds \<inter> set r" using False by auto
    ultimately show ?thesis
      using Cons.IH [OF Cons.prems(1,2)] Cons.prems(3,4) by (simp only: foreach.simps rbind_simps) (simp, metis)
  next
    case True
    let ?d = "\<lambda>m. d\<lparr>dn_ares := (dn_ares d)\<lparr>ar_watches := m\<rparr>\<rparr>"
    obtain s1 w where s1: "ares_watch_fd fd POLLIN s = Inr s1" "waiting_ok s1" "response_of s1 = response_of s" "state_of s1 = state_of s"
      "get_dns s1 = Inr (?d ((fd, w) # ar_watches (dn_ares d)))"
      "watched_for ((fd, w) # ar_watches (dn_ares d)) s1 fd"
      "set (q_watches (s_query s)) \<subseteq> set (q_watches (s_query s1))" "os_open_fds (s_os s1) = os_open_fds (s_os s)"
      "\<And>f. f \<noteq> fd \<Longrightarrow> loop_watched (s_ctx s1) f = loop_watched (s_ctx s) f"
      using watch_fd_ok [OF Cons.prems(1,2), of fd POLLIN] Cons.prems(4) True by (auto simp: events_ok_def)
    have new: "fd \<notin> set fds" "distinct fds" using Cons.prems(3) by simp_all
    then have "\<forall>f \<in> set fds \<inter> set r. f \<in> set (os_open_fds (s_os s1)) \<and> loop_watched (s_ctx s1) f = None"
      using Cons.prems(4) s1(8,9) by (metis IntE IntI list.set_intros(2))
    from Cons.IH [OF s1(2,5) new(2) this] obtain s' m where s': "foreach (ares_watch_loop r []) fds s1 = Inr s'" "waiting_ok s'"
      "response_of s' = response_of s1" "state_of s' = state_of s1" "get_dns s' = Inr (?d m)"
      "\<forall>f \<in> set fds \<inter> set r. watched_for m s' f" "\<forall>f. f \<notin> set fds \<longrightarrow> map_of m f = map_of ((fd, w) # ar_watches (dn_ares d)) f"
      "set (q_watches (s_query s1)) \<subseteq> set (q_watches (s_query s'))" "os_open_fds (s_os s') = os_open_fds (s_os s1)"
      "\<forall>f. f \<notin> set fds \<inter> set r \<longrightarrow> loop_watched (s_ctx s') f = loop_watched (s_ctx s1) f" by auto
    have "watched_for m s' fd" using watched_for_more [OF s1(6) s'(8)] s'(7) new(1) by simp
    moreover have "ares_watch_loop r [] fd s = Inr s1" using True s1(1) by (simp add: ares_watch_loop_def FD_ISSET_def)
    ultimately show ?thesis
      using True s1(3,4,7,8,9) s' by (intro exI [of _ s'] exI [of _ m]) (simp add: Int_insert_left subset_trans [OF s1(7)])
  qed
qed

section \<open>Callbacks\<close>

lemma aresdns_callback_ok:
  assumes s: "waiting_ok s" "get_dns s = Inr d" "dns_ok (d\<lparr>dn_pending := dn_pending d - 1\<rparr>)"
    and srv: "srv_valid srv (length (dn_srvs d))" and data: "status \<in> {ARES_SUCCESS, ARES_ENOTFOUND} \<Longrightarrow> abuf \<noteq> None \<and> abuf \<noteq> Some []"
  shows "returns dns_faults (aresdns_callback A E (netresolve_query_set_state (Suc n) C) srv status abuf s) (dns_reported True s False)"
proof -
  let ?k = "length (dn_srvs d)" and ?ss = "netresolve_query_set_state (Suc n) C"
  let ?s = "set_dns (d\<lparr>dn_pending := dn_pending d - 1\<rparr>) s"
  have s1: "dns_state ?k True s ?s"
    using s get_set_dns [OF s(2)] dns_frame_set_dns [OF s(2), of "d\<lparr>dn_pending := dn_pending d - 1\<rparr>" s]
    by (simp add: dns_state_def dns_frame_def) (simp add: set_dns_def waiting_ok_backend)
  have rep: "dns_reported True s False t" if "dns_state ?k True s t" for t
    using that by (auto simp: dns_state_def dns_reported_def)
  have "returns dns_faults (upd_dns (\<lambda>d. d\<lparr>dn_failed := True\<rparr>) ?s) (dns_reported True s False)"
    by (rule returns_mono [OF upd_failed_ok [OF s1] subset_refl rep])
  moreover have "returns dns_faults (rbind (apply_answer (ares_lookup_dns A) (ares_wire2pkt A) E ?ss srv abuf ?s) (dns_check ?ss)) (dns_reported True s False)"
    if "status \<in> {ARES_SUCCESS, ARES_ENOTFOUND}"
  proof (rule returns_bind)
    show "returns dns_faults (apply_answer (ares_lookup_dns A) (ares_wire2pkt A) E ?ss srv abuf ?s) (dns_state ?k True s)"
      using data [OF that] by (intro ares_lookups.apply_answer_ok s1 srv) simp_all
    show "returns dns_faults (dns_check ?ss t) (dns_reported True s False)" if "dns_state ?k True s t" for t
      by (rule returns_mono [OF dns_check_ok [OF that] subset_refl]) (auto simp: dns_reported_def)
  qed
  ultimately show ?thesis
    unfolding aresdns_callback_def upd_dns_def [of _ s] s(2) rbind_simps
    using rep [OF s1] by (simp del: netresolve_query_set_state.simps)
qed

lemma dns_frame_trans: "dns_frame r s \<Longrightarrow> dns_frame s t \<Longrightarrow> dns_frame r t"
  using keeps_watches_trans [of r s t] by (simp add: dns_frame_def)

text \<open>Whatever c-ares reports, the counter stays right.\<close>

lemma ares_process_ok:
  assumes data: "\<And>rfd wfd ls l st abuf. (l, st, abuf) \<in> set (ares_process_fd A rfd wfd ls) \<Longrightarrow> st \<in> {ARES_SUCCESS, ARES_ENOTFOUND} \<Longrightarrow>
      abuf \<noteq> None \<and> abuf \<noteq> Some []"
    and s: "waiting_ok s" "get_dns s = Inr d" "dns_ok d"
  shows "returns dns_faults (ares_process A E (netresolve_query_set_state (Suc n) C) rfd wfd s) (dns_reported True s False)"
proof -
  let ?ss = "netresolve_query_set_state (Suc n) C"
  obtain ls where ls: "dn_ctx d = Some ls" using s(3) by (auto simp: dns_ok_def)
  have step: "returns dns_faults (ares_complete A E ?ss x t) (dns_reported True s False)"
    if x: "x \<in> set (ares_process_fd A rfd wfd ls)" and t: "dns_reported True s False t" for x t
  proof -
    obtain l st abuf where x': "x = (l, st, abuf)" by (cases x)
    obtain d1 ls1 where d1: "get_dns t = Inr d1" "dns_ok d1" "dn_ctx d1 = Some ls1" "dn_pending d1 = int (length ls1)"
      "\<forall>v \<in> set (dn_srvs d1). srv_name v \<noteq> None" "\<forall>l \<in> set ls1. srv_valid (lk_srv l) (length (dn_srvs d1))"
      using t by (auto simp: dns_reported_def dns_ok_def)
    show ?thesis
    proof (cases "l \<in> set ls1")
      case True
      let ?d = "d1\<lparr>dn_ctx := Some (remove1 l ls1)\<rparr>"
      have ok: "dns_ok (?d\<lparr>dn_pending := dn_pending ?d - 1\<rparr>)" using dns_ok_remove [OF d1(2,3) True] by simp
      have w: "waiting_ok (set_dns ?d t)" using t by (simp add: dns_reported_def set_dns_def waiting_ok_backend)
      have f: "dns_frame s (set_dns ?d t)" using t dns_frame_set_dns [OF d1(1)] by (simp add: dns_reported_def)
      have "returns dns_faults (aresdns_callback A E ?ss (lk_srv l) st abuf (set_dns ?d t)) (dns_reported True (set_dns ?d t) False)"
        using d1(6) True data [of l st abuf] x x' by (intro aresdns_callback_ok [OF w get_set_dns [OF d1(1)] ok]) auto
      then have "returns dns_faults (aresdns_callback A E ?ss (lk_srv l) st abuf (set_dns ?d t)) (dns_reported True s False)"
        by (rule returns_mono) (use dns_frame_trans [OF f] in \<open>auto simp: dns_reported_def\<close>)
      then show ?thesis using True d1(1,3) by (simp add: ares_complete_def x' del: netresolve_query_set_state.simps)
    next
      case False
      then show ?thesis using t d1(1,3) by (simp add: ares_complete_def x')
    qed
  qed
  have "returns dns_faults (foreach (ares_complete A E ?ss) (ares_process_fd A rfd wfd ls) s) (dns_reported True s False)"
    by (rule returns_foreach [OF step]) (use s in \<open>auto simp: dns_reported_def dns_frame_def\<close>)
  then show ?thesis by (simp add: ares_process_def s(2) ls del: netresolve_query_set_state.simps)
qed

section \<open>Dispatching\<close>

text \<open>
  Between two calls into c-ares: every descriptor it waits for is watched for reading, and of the
  set \<open>S\<close> of its descriptors, which are open, no other one is registered.
\<close>

definition ares_watching :: "int set \<Rightarrow> sys \<Rightarrow> priv_ares \<Rightarrow> bool" where
  "ares_watching S s a \<longleftrightarrow> ar_wfds a = [] \<and> S \<subseteq> set (os_open_fds (s_os s)) \<and>
     (\<forall>fd \<in> set (ar_rfds a). 0 \<le> fd \<and> fd < ar_nfds a \<and> watched_for (ar_watches a) s fd) \<and>
     (\<forall>fd \<in> S - set (ar_rfds a). loop_watched (s_ctx s) fd = None)"

text \<open>c-ares waits for reading only, on descriptors of its own; this is so when it uses UDP.\<close>

definition reads_only :: "ares \<Rightarrow> int set \<Rightarrow> bool" where
  "reads_only A S \<longleftrightarrow> (\<forall>ls. case ares_fds A ls of (n, r, w) \<Rightarrow>
     w = [] \<and> set r \<subseteq> S \<and> (\<forall>fd \<in> set r. 0 \<le> fd \<and> fd < n))"

lemma set_fold_FD_SET [simp]: "set (fold FD_SET r xs) = set r \<union> set xs"
  by (induction r arbitrary: xs) (auto simp: FD_SET_def)

lemma ares_watching_frame:
  assumes "ares_watching S s a" and "keeps_watches s s'"
  shows "ares_watching S s' a"
  using assms watched_for_more [of "ar_watches a" s _ s' "ar_watches a"]
  unfolding ares_watching_def keeps_watches_def by auto

lemma unwatch_ok:
  assumes s: "waiting_ok s" and a: "ares_watching S s a" "ar_nfds a \<noteq> 0"
  obtains s' where "unwatch_file_descriptors a s = Inr (a\<lparr>ar_rfds := [], ar_wfds := [], ar_nfds := 0\<rparr>, s')"
    "waiting_ok s'" "core s' = core s" "S \<subseteq> set (os_open_fds (s_os s'))" "\<And>fd. fd \<in> S \<Longrightarrow> loop_watched (s_ctx s') fd = None"
proof -
  have all: "set [0..ar_nfds a - 1] \<inter> set (ar_rfds a) = set (ar_rfds a)" using a(1) by (auto simp: ares_watching_def)
  have "distinct [0..ar_nfds a - 1]" by simp
  from unwatch_loop_ok [OF s this, of a] obtain s' where "foreach (ares_unwatch_loop a) [0..ar_nfds a - 1] s = Inr s'"
    "waiting_ok s'" "core s' = core s" "os_open_fds (s_os s') = os_open_fds (s_os s)"
    "\<forall>fd. loop_watched (s_ctx s') fd = (if fd \<in> set (ar_rfds a) then None else loop_watched (s_ctx s) fd)"
    using a(1) unfolding all ares_watching_def by blast
  then show thesis using that a by (simp add: unwatch_file_descriptors_def ares_watching_def)
qed

lemma watch_ok:
  assumes s: "waiting_ok s" "get_dns s = Inr d" "dns_ok d" and A: "reads_only A S"
    and S: "S \<subseteq> set (os_open_fds (s_os s))" "\<And>fd. fd \<in> S \<Longrightarrow> loop_watched (s_ctx s) fd = None"
    and a: "ar_nfds (dn_ares d) = 0" "ar_rfds (dn_ares d) = []" "ar_wfds (dn_ares d) = []"
  obtains s' d' where "watch_file_descriptors A s = Inr s'" "waiting_ok s'" "get_dns s' = Inr d'" "dns_ok d'"
    "ares_watching S s' (dn_ares d')"
proof -
  obtain ls where ls: "dn_ctx d = Some ls" using s(3) by (auto simp: dns_ok_def)
  obtain n r where fds: "ares_fds A ls = (n, r, [])" and r: "set r \<subseteq> S" "\<forall>fd \<in> set r. 0 \<le> fd \<and> fd < n"
    using A [unfolded reads_only_def, rule_format, of ls] by (cases "ares_fds A ls") auto
  let ?d = "d\<lparr>dn_ares := (dn_ares d)\<lparr>ar_nfds := n, ar_rfds := fold FD_SET r [], ar_wfds := []\<rparr>\<rparr>"
  let ?s = "set_dns ?d s"
  have w: "waiting_ok ?s" using s(1) by (simp add: set_dns_def waiting_ok_backend)
  have lw: "loop_watched (s_ctx ?s) = loop_watched (s_ctx s)" by (simp add: set_dns_def upd_backend_def)
  have "distinct [0..n - 1]" "\<forall>fd \<in> set [0..n - 1] \<inter> set (fold FD_SET r []). fd \<in> set (os_open_fds (s_os ?s)) \<and> loop_watched (s_ctx ?s) fd = None"
    using S r lw by auto
  from watch_loop_ok [OF w get_set_dns [OF s(2)] this] obtain s' m where s':
    "foreach (ares_watch_loop (fold FD_SET r []) []) [0..n - 1] ?s = Inr s'" "waiting_ok s'"
    "get_dns s' = Inr (?d\<lparr>dn_ares := (dn_ares ?d)\<lparr>ar_watches := m\<rparr>\<rparr>)"
    "\<forall>fd \<in> set [0..n - 1] \<inter> set (fold FD_SET r []). watched_for m s' fd" "os_open_fds (s_os s') = os_open_fds (s_os s)"
    "\<forall>fd. fd \<notin> set [0..n - 1] \<inter> set (fold FD_SET r []) \<longrightarrow> loop_watched (s_ctx s') fd = loop_watched (s_ctx s) fd"
    unfolding lw by auto
  have "watch_file_descriptors A s = Inr s'" using s'(1) s(2) a ls fds by (simp add: watch_file_descriptors_def)
  moreover have "ares_watching S s' ((dn_ares ?d)\<lparr>ar_watches := m\<rparr>)"
    using S s'(4-6) r by (simp add: ares_watching_def)
  moreover have "dns_ok (?d\<lparr>dn_ares := (dn_ares ?d)\<lparr>ar_watches := m\<rparr>\<rparr>)" using s(3) by (simp add: dns_ok_def)
  ultimately show thesis using that s'(2,3) by simp
qed


lemma call_add_watch_twice:
  assumes "cx_callbacks (s_ctx t) = FD_EPOLL \<or> cx_callbacks (s_ctx t) = FD_EPOLL_INTERNAL"
    and "fd \<in> fst ` set (ep_interest (cx_epoll (s_ctx t)))"
  shows "call_add_watch t fd ev w = Inl Aborted"
  using assms by (elim disjE) (simp_all add: call_add_watch_def epoll_add_watch_def)

text \<open>
  C30: with c-ares over TCP the process aborts. A descriptor that is watched for writing is not
  released before c-ares runs; when c-ares still wants to write to it afterwards, it is registered a
  second time, which the epoll loop answers by aborting.
\<close>

theorem ares_write_watch_aborts:
  assumes "get_dns s = Inr d" and "dn_ctx d = Some ls"
    and "cx_callbacks (s_ctx s) = FD_EPOLL \<or> cx_callbacks (s_ctx s) = FD_EPOLL_INTERNAL"
    and "fd \<in> fst ` set (ep_interest (cx_epoll (s_ctx s)))"
    and "ar_nfds (dn_ares d) = n" and "ar_rfds (dn_ares d) = []" and "ar_wfds (dn_ares d) = [fd]"
    and "0 \<le> fd" and "fd < n" and "ares_fds A ls = (n, [], [fd])" and "\<And>rfd wfd. ares_process_fd A rfd wfd ls = []"
  shows "ares_dispatch A E ss fd POLLOUT s = Inl Aborted"
proof -
  let ?a = "(dn_ares d)\<lparr>ar_rfds := [], ar_wfds := [], ar_nfds := 0\<rparr>"
  let ?d = "d\<lparr>dn_ares := ?a\<rparr>" and ?e = "d\<lparr>dn_ares := (dn_ares d)\<lparr>ar_nfds := n, ar_rfds := [], ar_wfds := [fd]\<rparr>\<rparr>"
  have idle: "foreach (ares_unwatch_loop (dn_ares d)) fds s = Inr s" for fds
    using assms(6) by (induction fds) (simp_all add: ares_unwatch_loop_def FD_ISSET_def)
  have un: "unwatch_file_descriptors (dn_ares d) s = Inr (?a, s)"
    using assms(5,8,9) idle by (simp add: unwatch_file_descriptors_def)
  have g: "get_dns (set_dns d' s) = Inr d'" for d' by (rule get_set_dns [OF assms(1)])
  have pr: "ares_process A E ss rfd wfd (set_dns ?d s) = Inr (set_dns ?d s)" for rfd wfd
    using assms(2,11) by (simp add: ares_process_def g)
  have "ares_watch_fd fd POLLOUT (set_dns ?e s) = Inl Aborted"
    using assms(3,4,8)
    by (simp add: ares_watch_fd_def netresolve_watch_add_def call_add_watch_twice events_ok_def Let_def
        set_dns_def upd_backend_def)
  then have at: "ares_watch_loop [] [fd] fd (set_dns ?e s) = Inl Aborted" by (simp add: ares_watch_loop_def FD_ISSET_def)
  have before: "foreach (ares_watch_loop [] [fd]) fds t = Inr t" if "fd \<notin> set fds" for fds t
    using that by (induction fds) (simp_all add: ares_watch_loop_def FD_ISSET_def)
  have "[0..n - 1] = [0..fd - 1] @ fd # [fd + 1..n - 1]"
    using assms(8,9) upto_split3 [of 0 fd "n - 1"] by simp
  then have "foreach (ares_watch_loop [] [fd]) [0..n - 1] (set_dns ?e s) = Inl Aborted"
    using before [of "[0..fd - 1]"] at by (simp add: foreach_append)
  then have "watch_file_descriptors A (set_dns ?d s) = Inl Aborted"
    using assms(2,10) by (simp add: watch_file_descriptors_def g FD_SET_def)
  then show ?thesis by (simp add: ares_dispatch_def assms(1) un upd_dns_def pr)
qed

text \<open>A channel with one socket, the descriptor 2, that is read from, or written to.\<close>

definition sample_ares :: "bool \<Rightarrow> ares" where
  "sample_ares writing = \<lparr>ares_library_init = 0, ares_init_options = 0, ares_query = (\<lambda>_. True),
     ares_fds = (\<lambda>ls. if ls = [] then (0, [], []) else if writing then (3, [], [2]) else (3, [2], [])),
     ares_process_fd = (\<lambda>rfd wfd ls. if writing then [] else map (\<lambda>l. (l, ARES_SUCCESS, Some [1])) ls),
     ares_wire2pkt = ldns_wire2pkt sample_ub\<rparr>"

definition sample_ares_sys :: "bool \<Rightarrow> sys res" where
  "sample_ares_sys writing = watch_file_descriptors (sample_ares writing) (set_dns (sample_dns [LDNS_RR_TYPE_A]) waiting_sys)"

lemma sample_reads_only: "reads_only (sample_ares False) {2}"
  by (simp add: reads_only_def sample_ares_def)


theorem ares_write_watch_aborts_witness:
  "\<exists>s. sample_ares_sys True = Inr s \<and> ares_dispatch (sample_ares True) sample_env
      (netresolve_query_set_state 1 (ares_code (sample_ares True) sample_env reading_callback)) 2 POLLOUT s = Inl Aborted"
proof -
  let ?l = "[sample_lookup LDNS_RR_TYPE_A]"
  have "returns {} (sample_ares_sys True) (\<lambda>s. case get_dns s of Inl _ \<Rightarrow> False | Inr d \<Rightarrow> dn_ctx d = Some ?l \<and>
      cx_callbacks (s_ctx s) = FD_EPOLL_INTERNAL \<and> ep_interest (cx_epoll (s_ctx s)) = [(2, 0)] \<and>
      ar_nfds (dn_ares d) = 3 \<and> ar_rfds (dn_ares d) = [] \<and> ar_wfds (dn_ares d) = [2])" by code_simp
  from returns_noneE [OF this] obtain s where s: "sample_ares_sys True = Inr s"
    "case get_dns s of Inl _ \<Rightarrow> False | Inr d \<Rightarrow> dn_ctx d = Some ?l \<and>
      cx_callbacks (s_ctx s) = FD_EPOLL_INTERNAL \<and> ep_interest (cx_epoll (s_ctx s)) = [(2, 0)] \<and>
      ar_nfds (dn_ares d) = 3 \<and> ar_rfds (dn_ares d) = [] \<and> ar_wfds (dn_ares d) = [2]" by blast
  then obtain d where d: "get_dns s = Inr d" by (cases "get_dns s") simp_all
  show ?thesis
    using ares_write_watch_aborts [OF d, of ?l 2 3 "sample_ares True"] s by (simp add: d sample_ares_def)
qed

end
