(* ===== verification/Exec.thy ===== *)
theory Exec
  imports Context Waiting
begin

text \<open>
  The backend that asks an external command, \<open>backends/exec.c\<close>: it writes the textual request
  to the command and adds the addresses and paths of the lines it reads back, until an empty line.
  The child process, and what the pipes take and give, are parameters. The buffer for reading is
  kept as a whole, with the bytes behind the data that was read.
\<close>

unbundle bit_operations_syntax

section \<open>The process\<close>

record exec_env =
  ex_fork :: bool
  ex_write :: "int \<Rightarrow> string \<Rightarrow> int"
  ex_read :: "int \<Rightarrow> nat \<Rightarrow> string"
  ex_junk :: string
  ex_package :: string
  ex_version :: string

definition alloc_pipe :: "os \<Rightarrow> (int \<times> int \<times> os) option" where
  "alloc_pipe o1 =
     (case alloc_fd o1 of
        None \<Rightarrow> None
      | Some (a, o2) \<Rightarrow> (case alloc_fd o2 of None \<Rightarrow> None | Some (b, o3) \<Rightarrow> Some (a, b, o3)))"

text \<open>The ends of the pipes that the parent keeps: the input and the output of the command.\<close>

definition start_subprocess :: "exec_env \<Rightarrow> sys \<Rightarrow> (int \<times> int) option \<times> sys" where
  "start_subprocess X s =
     (case alloc_pipe (s_os s) of
        None \<Rightarrow> (None, s)
      | Some (r1, w1, o1) \<Rightarrow>
          (case alloc_pipe o1 of
             None \<Rightarrow> (None, close_fd r1 (close_fd w1 (s\<lparr>s_os := o1\<rparr>)))
           | Some (r2, w2, o2) \<Rightarrow>
               if ex_fork X then (Some (w1, r2), close_fd w2 (close_fd r1 (s\<lparr>s_os := o2\<rparr>)))
               else (None, close_fd r1 (close_fd w1 (close_fd r2 (close_fd w2 (s\<lparr>s_os := o2\<rparr>)))))))"

section \<open>Lines\<close>

text \<open>True is the end of the answer; a line of another kind is ignored.\<close>

definition received_line :: "env \<Rightarrow> set_state \<Rightarrow> string \<Rightarrow> sys \<Rightarrow> (bool \<times> sys) res" where
  "received_line E ss line s =
     (if line = [] then Inr (True, s)
      else if take 8 line = ''address '' then
        (case netresolve_backend_parse_address E (Some (drop 8 line)) of
           None \<Rightarrow> Inr (False, s)
         | Some (address, family, ifindex) \<Rightarrow>
             rbind (netresolve_backend_add_path E ss family address ifindex 0 0 0 0 0 0 s) (\<lambda>s. Inr (False, s)))
      else if take 5 line = ''path '' then
        (case netresolve_backend_parse_path E (drop 5 line) of
           None \<Rightarrow> Inr (False, s)
         | Some (address, family, ifindex, socktype, protocol, port) \<Rightarrow>
             rbind (netresolve_backend_add_path E ss family address ifindex socktype protocol port 0 0 0 s)
               (\<lambda>s. Inr (False, s)))
      else Inr (False, s))"

text \<open>
  After a line the rest is moved to the front of the buffer: as many bytes as the buffer has room,
  not as many as there is data.
\<close>

definition shift_line :: "string \<Rightarrow> nat \<Rightarrow> nat \<Rightarrow> string" where
  "shift_line buf start nl =
     (let buf1 = buf[nl := NUL]; n = length buf - start
      in take n (drop (Suc nl) buf1) @ drop (length (take n (drop (Suc nl) buf1))) buf1)"

function exec_lines :: "env \<Rightarrow> set_state \<Rightarrow> string \<Rightarrow> nat \<Rightarrow> sys \<Rightarrow> (bool \<times> string \<times> nat \<times> sys) res" where
  "exec_lines E ss buf start s =
     (let nl = find_index (\<lambda>c. c = NL) (take start buf)
      in if nl < length (take start buf) then
           rbind (received_line E ss (cstring (take nl buf)) s) (\<lambda>(final, s).
             if final then rbind (netresolve_backend_finished ss s) (\<lambda>s. Inr (True, buf[nl := NUL], start, s))
             else exec_lines E ss (shift_line buf start nl) (start - Suc nl) s)
         else Inr (False, buf, start, s))"
  by pat_completeness auto
termination
  by (relation "measure (\<lambda>(E, ss, buf, start, s). start)") auto

declare exec_lines.simps [simp del]

section \<open>Private data\<close>

definition get_exec :: "sys \<Rightarrow> priv_exec res" where
  "get_exec s =
     rbind (netresolve_backend_get_priv s) (\<lambda>p.
       (case p of Some (Priv_exec x) \<Rightarrow> Inr x | _ \<Rightarrow> Inl Null_dereference))"

definition set_exec :: "priv_exec \<Rightarrow> sys \<Rightarrow> sys" where
  "set_exec x s = upd_backend (q_backend (s_query s)) (\<lambda>b. b\<lparr>be_data := Some (Priv_exec x)\<rparr>) s"

text \<open>The descriptor of a watch; a pointer to a watch that is not linked any more is dangling.\<close>

definition watch_fd :: "nat option \<Rightarrow> sys \<Rightarrow> int res" where
  "watch_fd h s =
     (case h of
        None \<Rightarrow> Inl Null_dereference
      | Some w \<Rightarrow> (case find (\<lambda>x. w_id x = w) (q_watches (s_query s)) of
          None \<Rightarrow> Inl Out_of_bounds | Some x \<Rightarrow> Inr (w_fd x)))"

section \<open>Callbacks\<close>

text \<open>When all is written the watch is removed, which frees it, and then written to.\<close>

definition dispatch_input :: "exec_env \<Rightarrow> int \<Rightarrow> sys \<Rightarrow> sys res" where
  "dispatch_input X events s =
     rbind (assert_that (events AND POLLOUT \<noteq> 0) s) (\<lambda>s.
     rbind (get_exec s) (\<lambda>x.
     rbind (if ex_inbuf x \<noteq> [] then rbind (watch_fd (ex_input x) s) (\<lambda>fd. Inr (ex_write X fd (ex_inbuf x)))
            else Inr 0) (\<lambda>size.
       if size > 0 then Inr (set_exec (x\<lparr>ex_inbuf := drop (nat size) (ex_inbuf x)\<rparr>) s)
       else (case ex_input x of
               None \<Rightarrow> Inl Null_dereference
             | Some w \<Rightarrow> rbind (netresolve_watch_remove w True s) (\<lambda>s.
                 rbind (watch_fd (Some w) s) (\<lambda>fd.
                   Inr (upd_query (\<lambda>q. q\<lparr>q_watches := map (\<lambda>y. if w_id y = w then y\<lparr>w_fd := - 1\<rparr> else y) (q_watches q)\<rparr>) s)))))))"

abbreviation EXEC_SIZE :: nat where "EXEC_SIZE \<equiv> 1024"

definition dispatch_output :: "exec_env \<Rightarrow> env \<Rightarrow> set_state \<Rightarrow> int \<Rightarrow> sys \<Rightarrow> sys res" where
  "dispatch_output X E ss events s =
     rbind (assert_that (events AND (POLLIN OR POLLHUP) \<noteq> 0) s) (\<lambda>s.
     rbind (get_exec s) (\<lambda>x.
       if events AND POLLHUP \<noteq> 0 then netresolve_backend_failed ss s
       else (let (buf, start) = (case ex_outbuf x of
                    None \<Rightarrow> (take EXEC_SIZE (ex_junk X @ replicate EXEC_SIZE NUL), 0)
                  | Some b \<Rightarrow> (b, ex_start x))
             in rbind (watch_fd (ex_output x) s) (\<lambda>fd.
                (let data = take (length buf - start) (ex_read X fd (length buf - start));
                     buf1 = take start buf @ data @ drop (start + length data) buf
                 in if data = [] then Inl Aborted
                    else rbind (exec_lines E ss buf1 (start + length data) s) (\<lambda>(final, buf2, start2, s).
                      rbind (get_exec s) (\<lambda>x. Inr (set_exec (x\<lparr>ex_outbuf := Some buf2, ex_start := start2\<rparr>) s))))))))"

definition exec_cleanup :: "priv option \<Rightarrow> sys \<Rightarrow> sys res" where
  "exec_cleanup data s =
     (case data of
        Some (Priv_exec x) \<Rightarrow>
          rbind (case ex_input x of None \<Rightarrow> Inr s | Some w \<Rightarrow> netresolve_watch_remove w True s) (\<lambda>s.
            (case ex_output x of None \<Rightarrow> Inr s | Some w \<Rightarrow> netresolve_watch_remove w True s))
      | _ \<Rightarrow> Inl Null_dereference)"

definition zero_exec :: priv_exec where
  "zero_exec = \<lparr>ex_inbuf = [], ex_input = None, ex_outbuf = None, ex_start = 0, ex_output = None\<rparr>"

definition exec_query_forward :: "exec_env \<Rightarrow> set_state \<Rightarrow> sys \<Rightarrow> sys res" where
  "exec_query_forward X ss s =
     rbind (netresolve_backend_new_priv (Priv_exec zero_exec) s) (\<lambda>s.
       (case start_subprocess X s of
          (None, s) \<Rightarrow> netresolve_backend_failed ss s
        | (Some (infd, outfd), s) \<Rightarrow>
            rbind (netresolve_get_request_string (ex_package X) (ex_version X) s) (\<lambda>request.
            rbind (netresolve_watch_add infd POLLOUT (CB_backend ''exec input'') DATA_priv s) (\<lambda>(w1, s).
            rbind (netresolve_watch_add outfd POLLIN (CB_backend ''exec output'') DATA_priv s) (\<lambda>(w2, s).
              Inr (set_exec (zero_exec\<lparr>ex_inbuf := request, ex_input := Some w1, ex_output := Some w2\<rparr>) s))))))"

definition exec_watch_callback :: "exec_env \<Rightarrow> env \<Rightarrow> netresolve_watch \<Rightarrow> int \<Rightarrow> set_state \<Rightarrow> sys \<Rightarrow> sys res" where
  "exec_watch_callback X E watch events ss =
     (if w_callback watch = CB_backend ''exec input'' then dispatch_input X events
      else dispatch_output X E ss events)"

section \<open>Lines by lines\<close>

text \<open>The reference: the complete lines one after the other, and what follows the last newline.\<close>

fun by_lines :: "(string \<Rightarrow> 's \<Rightarrow> (bool \<times> 's) res) \<Rightarrow> string list \<Rightarrow> 's \<Rightarrow> (bool \<times> 's) res" where
  "by_lines f [] s = Inr (False, s)"
| "by_lines f (l # ls) s = rbind (f l s) (\<lambda>(final, s). if final then Inr (True, s) else by_lines f ls s)"

lemma split_on_find:
  "split_on c xs =
     (if find_index (\<lambda>x. x = c) xs < length xs
      then take (find_index (\<lambda>x. x = c) xs) xs # split_on c (drop (Suc (find_index (\<lambda>x. x = c) xs)) xs)
      else [xs])"
  by (induction xs) auto

lemma length_shift_line: "Suc nl \<le> start \<Longrightarrow> start \<le> length buf \<Longrightarrow> length (shift_line buf start nl) = length buf"
  by (auto simp: shift_line_def Let_def)

text \<open>While the buffer is at most half full, moving the rest keeps all of it.\<close>

lemma take_shift_line:
  assumes "Suc nl \<le> start" and "2 * start \<le> length buf"
  shows "take (start - Suc nl) (shift_line buf start nl) = drop (Suc nl) (take start buf)"
proof -
  let ?m = "start - Suc nl" and ?A = "take (length buf - start) (drop (Suc nl) (buf[nl := NUL]))"
  have m: "?m \<le> length buf - start" "?m \<le> length ?A" using assms by auto
  have "take ?m (shift_line buf start nl) = take ?m ?A"
    unfolding shift_line_def Let_def take_append [of ?m ?A] diff_is_0_eq [THEN iffD2, OF m(2)] by simp
  also have "\<dots> = take ?m (drop (Suc nl) (buf[nl := NUL]))" using m(1) by (simp add: take_take min_def)
  also have "\<dots> = take (start - Suc nl) (drop (Suc nl) buf)" by simp
  finally show ?thesis by (simp add: drop_take)
qed

text \<open>
  C32: while the buffer is at most half full, the reader of the exec backend handles the complete
  lines of what it has read, each exactly once and in order, up to and including the first empty
  one, and keeps what follows the last newline for the next call.
\<close>

theorem exec_reads_by_lines:
  assumes "2 * start \<le> length buf"
  shows "rbind (exec_lines E ss buf start s) (\<lambda>(final, buf', start', s'). Inr (final, if final then [] else take start' buf', s')) =
    rbind (by_lines (\<lambda>l. received_line E ss (cstring l)) (butlast (split_on NL (take start buf))) s) (\<lambda>(final, s').
      if final then rbind (netresolve_backend_finished ss s') (\<lambda>s'. Inr (True, [], s'))
      else Inr (False, last (split_on NL (take start buf)), s'))"
  using assms
proof (induction E ss buf start s rule: exec_lines.induct)
  case (1 E ss buf start s)
  let ?nl = "find_index (\<lambda>c. c = NL) (take start buf)"
  show ?case
  proof (cases "?nl < length (take start buf)")
    case False
    have "split_on NL (take start buf) = [take start buf]"
      using split_on_find [of NL "take start buf"] unfolding if_not_P [OF False] .
    moreover have "exec_lines E ss buf start s = Inr (False, buf, start, s)"
      using exec_lines.simps [of E ss buf start s] unfolding Let_def if_not_P [OF False] .
    ultimately show ?thesis by simp
  next
    case True
    then have nl: "Suc ?nl \<le> start" "start \<le> length buf" using 1(2) by auto
    let ?buf = "shift_line buf start ?nl" and ?t = "drop (Suc ?nl) (take start buf)"
    have split: "split_on NL (take start buf) = take ?nl buf # split_on NL ?t"
      using split_on_find [of NL "take start buf"] nl(1) unfolding if_P [OF True] by (simp add: take_take min_absorb1)
    have split': "butlast (split_on NL (take start buf)) = take ?nl buf # butlast (split_on NL ?t)"
      "last (split_on NL (take start buf)) = last (split_on NL ?t)"
      using split by simp_all
    have IH: "rbind (exec_lines E ss ?buf (start - Suc ?nl) s1) (\<lambda>(final, buf', start', s'). Inr (final, if final then [] else take start' buf', s')) =
      rbind (by_lines (\<lambda>l. received_line E ss (cstring l)) (butlast (split_on NL ?t)) s1) (\<lambda>(final, s').
        if final then rbind (netresolve_backend_finished ss s') (\<lambda>s'. Inr (True, [], s'))
        else Inr (False, last (split_on NL ?t), s'))" for s1
      using 1(1) [OF refl True, of False s1] 1(2) length_shift_line [OF nl]
      unfolding take_shift_line [OF nl(1) 1(2)] by simp
    show ?thesis
    proof (cases "received_line E ss (cstring (take ?nl buf)) s")
      case (Inl e)
      then show ?thesis using True by (simp add: exec_lines.simps [of E ss buf start s] split Let_def)
    next
      case (Inr p)
      obtain final s1 where p: "p = (final, s1)" by (cases p)
      show ?thesis
      proof (cases final)
        case True
        then show ?thesis
          using Inr p \<open>?nl < length (take start buf)\<close>
          by (cases "netresolve_backend_finished ss s1") (simp_all add: exec_lines.simps [of E ss buf start s] split Let_def)
      next
        case False
        then show ?thesis
          unfolding split' using Inr p IH [of s1] \<open>?nl < length (take start buf)\<close>
          by (simp add: exec_lines.simps [of E ss buf start s] Let_def)
      qed
    qed
  qed
qed

section \<open>Properties\<close>

theorem exec_reads_by_lines_witness:
  "rbind (exec_lines sample_env (\<lambda>st s. Inr s) (''x'' @ [NL] @ ''ab'' @ replicate 12 NUL) 4 initial_sys)
     (\<lambda>(final, buf', start', s'). Inr (final, if final then [] else take start' buf', s')) = Inr (False, ''ab'', initial_sys)"
  using exec_reads_by_lines [of 4 "''x'' @ [NL] @ ''ab'' @ replicate 12 NUL" sample_env "\<lambda>st s. Inr s" initial_sys]
  by (simp add: received_line_def cstring_def numeral_eq_Suc)

text \<open>
  C39: beyond that the reader loses data. When more is left behind a line than the buffer has room
  behind the data, only that much is moved: every later byte of the rest is replaced by a byte that
  was in its place before.
\<close>

theorem exec_shift_loses:
  assumes "Suc nl \<le> start" and "start \<le> length buf" and "length buf - start \<le> i" and "i < start - Suc nl" and "i \<noteq> nl"
  shows "shift_line buf start nl ! i = buf ! i"
proof -
  let ?n = "length buf - start"
  have "length (take ?n (drop (Suc nl) (buf[nl := NUL]))) = ?n" using assms(1,2) by simp
  then show ?thesis using assms by (simp add: shift_line_def Let_def nth_append)
qed

theorem exec_shift_loses_witness:
  "shift_line ([NL] @ ''abcdef'' @ replicate 2 NUL) 7 0 ! 3 = CHR ''c''"
  using exec_shift_loses [of 0 7 "[NL] @ ''abcdef'' @ replicate 2 NUL" 3] by (simp add: numeral_eq_Suc)

text \<open>
  C40: once the whole request has been written to the command, the callback of the input removes
  its watch, which releases it, and then writes into it.
\<close>

theorem exec_input_dangling:
  assumes "ev_inv s" and "get_exec s = Inr x" and "ex_inbuf x = []" and "ex_input x = Some (w_id w)"
    and "w \<in> set (q_watches (s_query s))" and "events AND POLLOUT \<noteq> 0"
  shows "dispatch_input X events s = Inl Out_of_bounds"
proof -
  obtain s' where s': "netresolve_watch_remove (w_id w) True s = Inr s'"
    "q_watches (s_query s') = filter (\<lambda>x. w_id x \<noteq> w_id w) (q_watches (s_query s))"
    by (rule watch_remove_ok [OF assms(1,5), of True]) blast
  have "find (\<lambda>x. w_id x = w_id w) (q_watches (s_query s')) = None" by (simp add: find_None_iff s'(2))
  then show ?thesis using assms(2-4,6) s'(1) by (simp add: dispatch_input_def watch_fd_def)
qed

lemma ev_inv_upd_backend: "ev_inv s \<Longrightarrow> ev_inv (upd_backend i f s)"
  unfolding ev_inv_def loop_inv_def upd_backend_def by (auto split: fd_callbacks.splits)

definition sample_exec :: exec_env where
  "sample_exec = \<lparr>ex_fork = True, ex_write = (\<lambda>_ str. int (length str)), ex_read = (\<lambda>_ _. [NL]), ex_junk = [],
     ex_package = ''netresolve'', ex_version = ''0''\<rparr>"

theorem exec_input_dangling_witness:
  "\<exists>s w. get_exec s = Inr (zero_exec\<lparr>ex_input := Some (w_id w)\<rparr>) \<and> w \<in> set (q_watches (s_query s)) \<and>
    dispatch_input sample_exec POLLOUT s = Inl Out_of_bounds"
proof -
  let ?s0 = "sample_sys [''exec''] ''host''"
  have ev: "ev_inv ?s0" using sample_sys_ready [of "[''exec'']" "''host''"] by (simp add: ready_def tidy_def)
  have fd: "2 \<in> set (os_open_fds (s_os ?s0))" "loop_watched (s_ctx ?s0) 2 = None" "events_ok POLLOUT"
    by (simp_all add: sample_sys_def initial_sys_def loop_watched_def epoll_watched_def zero_defs events_ok_def)
  obtain s1 where s1: "ev_inv s1" "core s1 = core ?s0"
      "q_watches (s_query s1) = q_watches (s_query ?s0) @
       [\<lparr>w_id = os_next_watch (s_os ?s0), w_fd = 2, w_callback = CB_NULL, w_timeout_callback = TCB_NULL, w_data = DATA_priv\<rparr>]"
    by (rule watch_add_ok [OF ev fd, of CB_NULL DATA_priv]) blast
  let ?w = "\<lparr>w_id = os_next_watch (s_os ?s0), w_fd = 2, w_callback = CB_NULL, w_timeout_callback = TCB_NULL, w_data = DATA_priv\<rparr>"
  let ?x = "zero_exec\<lparr>ex_input := Some (w_id ?w)\<rparr>"
  let ?s = "set_exec ?x s1"
  have w: "?w \<in> set (q_watches (s_query ?s))" using s1(3) by (simp add: set_exec_def upd_backend_def)
  have "cx_backends (s_ctx s1) = Some [sample_backend ''exec'']" "q_backend (s_query s1) = 0"
    using core_eqD(2,11) [OF s1(2)] by (simp_all add: sample_sys_def zero_query_def)
  then have x: "get_exec ?s = Inr ?x"
    by (simp add: get_exec_def netresolve_backend_get_priv_def current_backend_def backend_list_def set_exec_def upd_backend_def)
  have "dispatch_input sample_exec POLLOUT ?s = Inl Out_of_bounds"
    by (rule exec_input_dangling [OF _ x _ _ w]) (use ev_inv_upd_backend [OF s1(1)] in \<open>simp_all add: set_exec_def zero_exec_def\<close>)
  with w x show ?thesis by blast
qed

end
