(* ===== verification/Memory.thy ===== *)
theory Memory
  imports Clib
begin

text \<open>
  Raw memory for the functions that lay out their results in a buffer of the caller: bytes at
  addresses, little-endian integers and pointers, and stores that are checked against the buffer
  they must stay in.
\<close>

type_synonym memory = "nat \<Rightarrow> byte"

definition mem_load :: "nat \<Rightarrow> nat \<Rightarrow> memory \<Rightarrow> byte list" where
  "mem_load a n m = map m [a..<a + n]"

definition mem_store :: "nat \<Rightarrow> byte list \<Rightarrow> memory \<Rightarrow> memory" where
  "mem_store a bs m = (\<lambda>x. if a \<le> x \<and> x < a + length bs then bs ! (x - a) else m x)"

primrec le_bytes :: "nat \<Rightarrow> nat \<Rightarrow> byte list" where
  "le_bytes 0 v = []"
| "le_bytes (Suc k) v = of_nat v # le_bytes k (v div 256)"

primrec le_value :: "byte list \<Rightarrow> nat" where
  "le_value [] = 0"
| "le_value (b # bs) = unat b + 256 * le_value bs"

abbreviation PTR_SIZE :: nat where "PTR_SIZE \<equiv> 8"

definition ptr_bytes :: "nat \<Rightarrow> byte list" where
  "ptr_bytes p = le_bytes PTR_SIZE p"

definition load_ptr :: "nat \<Rightarrow> memory \<Rightarrow> nat" where
  "load_ptr a m = le_value (mem_load a PTR_SIZE m)"

text \<open>A text with its terminating NUL.\<close>

definition cstr_bytes :: "string \<Rightarrow> byte list" where
  "cstr_bytes str = map of_char str @ [0]"

text \<open>A store that must stay between two addresses.\<close>

definition store_within :: "nat \<Rightarrow> nat \<Rightarrow> nat \<Rightarrow> byte list \<Rightarrow> memory \<Rightarrow> memory res" where
  "store_within lo hi a bs m =
     (if lo \<le> a \<and> a + length bs \<le> hi then Inr (mem_store a bs m) else Inl Out_of_bounds)"

section \<open>Lemmas\<close>

lemma length_mem_load [simp]: "length (mem_load a n m) = n"
  by (simp add: mem_load_def)

lemma mem_load_0 [simp]: "mem_load a 0 m = []"
  by (simp add: mem_load_def)

lemma length_le_bytes [simp]: "length (le_bytes k v) = k"
  by (induction k arbitrary: v) simp_all

lemma length_ptr_bytes [simp]: "length (ptr_bytes p) = 8"
  by (simp add: ptr_bytes_def)

lemma length_cstr_bytes [simp]: "length (cstr_bytes s) = Suc (length s)"
  by (simp add: cstr_bytes_def)

lemma le_value_le_bytes: "le_value (le_bytes k v) = v mod 256 ^ k"
proof (induction k arbitrary: v)
  case (Suc k)
  have "unat (of_nat v :: byte) = v mod 256" by (simp add: unat_of_nat)
  then show ?case using Suc [of "v div 256"] by (simp add: mod_mult2_eq)
qed simp

lemma le_value_ptr_bytes: "p < 2 ^ 64 \<Longrightarrow> le_value (ptr_bytes p) = p"
  by (simp add: ptr_bytes_def le_value_le_bytes del: le_bytes.simps)

lemma le_value_replicate_0 [simp]: "le_value (replicate n 0) = 0"
  by (induction n) simp_all

lemma mem_load_add: "mem_load a (n + k) m = mem_load a n m @ mem_load (a + n) k m"
proof -
  have "[a..<a + n + k] = [a..<a + n] @ [a + n..<a + n + k]" by (rule upt_add_eq_append) simp
  then show ?thesis by (simp add: mem_load_def add.assoc)
qed

lemma mem_load_store_same: "n = length bs \<Longrightarrow> mem_load a n (mem_store a bs m) = bs"
  by (intro nth_equalityI) (simp_all add: mem_load_def mem_store_def)

lemma mem_load_store_other:
  "a + n \<le> b \<or> b + length bs \<le> a \<Longrightarrow> mem_load a n (mem_store b bs m) = mem_load a n m"
  by (auto simp: mem_load_def mem_store_def)

lemma mem_load_cong: "(\<And>x. a \<le> x \<Longrightarrow> x < a + n \<Longrightarrow> m x = m' x) \<Longrightarrow> mem_load a n m = mem_load a n m'"
  by (auto simp: mem_load_def)

lemma mem_load_prefix:
  assumes "mem_load a n m = xs @ ys" shows "mem_load a (length xs) m = xs"
proof -
  have "n = length xs + length ys" using arg_cong [OF assms, of length] by simp
  then show ?thesis using assms by (simp add: mem_load_add)
qed

lemma mem_store_other: "x < a \<or> a + length bs \<le> x \<Longrightarrow> mem_store a bs m x = m x"
  by (auto simp: mem_store_def)

lemma load_ptr_store: "p < 2 ^ 64 \<Longrightarrow> load_ptr a (mem_store a (ptr_bytes p) m) = p"
  by (simp add: load_ptr_def mem_load_store_same le_value_ptr_bytes)

end
