(* ===== verification/Nsswitch.thy ===== *)
theory Nsswitch
  imports Compat Memory
begin

text \<open>
  The module for the name service switch, \<open>compat/nsswitch.c\<close>. Its functions run a blocking
  query and lay the result out in the buffer of the caller, with pointers from one part of the
  buffer to another. Layouts are those of a 64-bit little-endian machine. That the buffer is not
  left is not built in: every store through a pointer is checked against it.
\<close>

abbreviation EAI_SYSTEM :: int where "EAI_SYSTEM \<equiv> - 11"
abbreviation ERANGE :: int where "ERANGE \<equiv> 34"

section \<open>Picking up results\<close>

text \<open>Completion functions destroy the query, which unlinks it.\<close>

definition take_query :: "nat \<Rightarrow> (sys \<Rightarrow> ('a \<times> sys) res) \<Rightarrow> world \<Rightarrow> ('a \<times> world) res" where
  "take_query i f wd =
     (if i < length (wd_queries wd) then
        rbind (f (focus i wd)) (\<lambda>(r, s).
          (let wd = unfocus i wd s
           in Inr (r, wd\<lparr>wd_queries := take i (wd_queries wd) @ drop (Suc i) (wd_queries wd)\<rparr>)))
      else Inl Out_of_bounds)"

definition nss_netresolve_getaddrinfo ::
    "nat \<Rightarrow> nat \<Rightarrow> code \<Rightarrow> env \<Rightarrow> string \<Rightarrow> epoll_wait \<Rightarrow> string option \<Rightarrow> string option \<Rightarrow> addrinfo \<Rightarrow> os \<Rightarrow>
     ((int \<times> addrinfo_result list \<times> int) \<times> os) res" where
  "nss_netresolve_getaddrinfo k n C E extra wait nodename servname hints o1 =
     rbind (netresolve_query_getaddrinfo k n C E extra wait nodename servname (Some hints) None UD_NULL
         \<lparr>wd_os = o1, wd_ctx = netresolve_context_new E, wd_queries = []\<rparr>) (\<lambda>(q, wd).
     rbind (case q of
              None \<Rightarrow> Inr ((EAI_SYSTEM, [], 0), wd)
            | Some i \<Rightarrow> take_query i (\<lambda>s. rbind (netresolve_query_getaddrinfo_done n C s)
                (\<lambda>(status, result, ttl, s). Inr ((status, result, ttl), s))) wd) (\<lambda>(r, wd).
     rbind (netresolve_context_free n C E extra wd) (\<lambda>o2. Inr (r, o2))))"

section \<open>The buffer of the caller\<close>

record buffer_t =
  bf_data :: nat
  bf_length :: nat
  bf_errno :: int
  bf_memory :: memory
  bf_start :: nat
  bf_end :: nat

text \<open>NULL data clears the region; of data without a size, the text up to its NUL is copied.\<close>

definition buffer_append :: "byte list option \<Rightarrow> nat \<Rightarrow> buffer_t \<Rightarrow> nat \<times> buffer_t" where
  "buffer_append data sz b =
     (let sz = (case data of None \<Rightarrow> sz
                  | Some d \<Rightarrow> if sz = 0 then length (takeWhile (\<lambda>x. x \<noteq> 0) d) + 1 else sz)
      in if bf_length b < sz then (0, b\<lparr>bf_errno := ERANGE\<rparr>)
         else (bf_data b, b\<lparr>bf_data := bf_data b + sz, bf_length := bf_length b - sz,
           bf_memory := mem_store (bf_data b)
             (case data of None \<Rightarrow> replicate sz 0 | Some d \<Rightarrow> mem_read sz d) (bf_memory b)\<rparr>))"

definition buffer_store :: "nat \<Rightarrow> byte list \<Rightarrow> buffer_t \<Rightarrow> buffer_t res" where
  "buffer_store a bs b =
     rbind (store_within (bf_start b) (bf_end b) a bs (bf_memory b)) (\<lambda>m. Inr (b\<lparr>bf_memory := m\<rparr>))"

definition buffer_new :: "nat \<Rightarrow> nat \<Rightarrow> memory \<Rightarrow> buffer_t" where
  "buffer_new bufptr buflen m =
     \<lparr>bf_data = bufptr, bf_length = buflen, bf_errno = 0, bf_memory = m, bf_start = bufptr, bf_end = bufptr + buflen\<rparr>"

definition extract_address :: "addrinfo_result \<Rightarrow> nat \<Rightarrow> buffer_t \<Rightarrow> buffer_t res" where
  "extract_address item address b =
     (if address = 0 then Inr b
      else if ai_family item = AF_INET then
        (case ai_addr item of Some (Sockaddr_in _ a) \<Rightarrow> buffer_store address (mem_read 4 a) b | _ \<Rightarrow> Inl Out_of_bounds)
      else if ai_family item = AF_INET6 then
        (case ai_addr item of Some (Sockaddr_in6 _ _ a) \<Rightarrow> buffer_store address (mem_read 16 a) b | _ \<Rightarrow> Inl Out_of_bounds)
      else Inr b)"

section \<open>Linked tuples\<close>

text \<open>
  \<open>struct gaih_addrtuple\<close>: the next one at 0, the name at 8, the family at 16, the address
  at 20 and the scope at 36.
\<close>

abbreviation TUPLE_SIZE :: nat where "TUPLE_SIZE \<equiv> 40"

definition int_bytes :: "int \<Rightarrow> byte list" where
  "int_bytes i = le_bytes 4 (nat (i mod 2 ^ 32))"

text \<open>Where the next pointer goes: the variable of the caller, or a place in the buffer.\<close>

definition set_result :: "nat option \<Rightarrow> nat \<Rightarrow> nat \<Rightarrow> buffer_t \<Rightarrow> (nat \<times> buffer_t) res" where
  "set_result place p head b =
     (case place of None \<Rightarrow> Inr (p, b) | Some a \<Rightarrow> rbind (buffer_store a (ptr_bytes p) b) (\<lambda>b. Inr (head, b)))"

definition append_name :: "nat \<Rightarrow> string option \<Rightarrow> buffer_t \<Rightarrow> (bool \<times> buffer_t) res" where
  "append_name p name b =
     (case name of
        None \<Rightarrow> Inr (True, b)
      | Some str \<Rightarrow>
          (case buffer_append (Some (cstr_bytes str)) 0 b of (q, b) \<Rightarrow>
            rbind (buffer_store (p + 8) (ptr_bytes q) b) (\<lambda>b. Inr (q \<noteq> 0, b))))"

fun append_tuples :: "string option \<Rightarrow> addrinfo_result list \<Rightarrow> nat option \<Rightarrow> nat \<Rightarrow> buffer_t \<Rightarrow> (nss_status \<times> nat \<times> buffer_t) res" where
  "append_tuples name [] place head b = Inr (NSS_STATUS_SUCCESS, head, b)"
| "append_tuples name (item # items) place head b =
     (case buffer_append None TUPLE_SIZE b of (p, b) \<Rightarrow>
       rbind (set_result place p head b) (\<lambda>(head, b).
         if p = 0 then Inr (NSS_STATUS_TRYAGAIN, head, b)
         else rbind (buffer_store (p + 16) (int_bytes (ai_family item)) b) (\<lambda>b.
              rbind (extract_address item (p + 20) b) (\<lambda>b.
              rbind (append_name p name b) (\<lambda>(ok, b).
                if ok then append_tuples None items (Some p) head b
                else Inr (NSS_STATUS_TRYAGAIN, head, b))))))"

definition nss_hints :: "int \<Rightarrow> addrinfo" where
  "nss_hints family = zero_hints\<lparr>ai_family := family, ai_socktype := SOCK_RAW, ai_flags := AI_CANONNAME\<rparr>"

definition tuples_result :: "int \<times> addrinfo_result list \<Rightarrow> nat \<Rightarrow> buffer_t \<Rightarrow> (nss_status \<times> nat \<times> buffer_t) res" where
  "tuples_result = (\<lambda>(status, list) result b.
     if status \<noteq> 0 then Inr (NSS_STATUS_UNAVAIL, result, b)
     else append_tuples (case list of [] \<Rightarrow> None | x # _ \<Rightarrow> ai_canonname x) list None result b)"

definition nss_netresolve_gethostbyname4_r ::
    "nat \<Rightarrow> nat \<Rightarrow> code \<Rightarrow> env \<Rightarrow> string \<Rightarrow> epoll_wait \<Rightarrow> string option \<Rightarrow> nat \<Rightarrow> nat \<Rightarrow> nat \<Rightarrow> memory \<Rightarrow> os \<Rightarrow>
     ((nss_status \<times> nat \<times> buffer_t) \<times> os) res" where
  "nss_netresolve_gethostbyname4_r k n C E extra wait nodename result bufptr buflen m o1 =
     rbind (nss_netresolve_getaddrinfo k n C E extra wait nodename None (nss_hints AF_UNSPEC) o1) (\<lambda>((status, list, ttl), o2).
     rbind (tuples_result (status, list) result (buffer_new bufptr buflen m)) (\<lambda>r. Inr (r, o2)))"

section \<open>Host entries\<close>

text \<open>The structure of the caller, with addresses as numbers.\<close>

record he_struct =
  he_name :: nat
  he_aliases :: nat
  he_addrtype :: int
  he_length :: nat
  he_addr_list :: nat

text \<open>One address of the requested family: its place in the list, the region for it, its bytes.\<close>

definition append_address :: "int \<Rightarrow> he_struct \<Rightarrow> addrinfo_result \<Rightarrow> bool \<times> nat \<times> buffer_t \<Rightarrow> (bool \<times> nat \<times> buffer_t) res" where
  "append_address family he item = (\<lambda>(ok, count, b).
     if \<not> ok \<or> ai_family item \<noteq> family then Inr (ok, count, b)
     else (case buffer_append None (he_length he) b of (p, b) \<Rightarrow>
       rbind (buffer_store (he_addr_list he + PTR_SIZE * count) (ptr_bytes p) b) (\<lambda>b.
         if p = 0 then Inr (False, count, b)
         else rbind (extract_address item p b) (\<lambda>b. Inr (True, Suc count, b)))))"

text \<open>The canonical name of the first item; the list must have one.\<close>

definition append_canonical :: "addrinfo_result list \<Rightarrow> he_struct \<Rightarrow> buffer_t \<Rightarrow> (nss_status \<times> he_struct \<times> buffer_t) res" where
  "append_canonical list he b =
     (case list of
        [] \<Rightarrow> Inl Null_dereference
      | x # _ \<Rightarrow>
          (case ai_canonname x of
             None \<Rightarrow> Inr (NSS_STATUS_SUCCESS, he, b)
           | Some str \<Rightarrow>
               (case buffer_append (Some (cstr_bytes str)) 0 b of (p, b) \<Rightarrow>
                 Inr (if p = 0 then NSS_STATUS_TRYAGAIN else NSS_STATUS_SUCCESS, he\<lparr>he_name := p\<rparr>, b))))"

definition hostent_result :: "int \<Rightarrow> int \<times> addrinfo_result list \<Rightarrow> he_struct \<Rightarrow> buffer_t \<Rightarrow> (nss_status \<times> he_struct \<times> buffer_t) res" where
  "hostent_result family = (\<lambda>(status, list) he b.
     if status \<noteq> 0 then Inr (NSS_STATUS_UNAVAIL, he, b)
     else (case buffer_append None (PTR_SIZE * (length list + 1)) b of (p, b) \<Rightarrow>
       (let he = he\<lparr>he_addrtype := family, he_length := if family = AF_INET then 4 else 16, he_addr_list := p\<rparr>
        in if p = 0 then Inr (NSS_STATUS_TRYAGAIN, he, b)
           else rbind (foreach (append_address family he) list (True, 0, b)) (\<lambda>(ok, count, b).
             if ok then append_canonical list he b else Inr (NSS_STATUS_TRYAGAIN, he, b)))))"

definition nss_netresolve_gethostbyname3_r ::
    "nat \<Rightarrow> nat \<Rightarrow> code \<Rightarrow> env \<Rightarrow> string \<Rightarrow> epoll_wait \<Rightarrow> string option \<Rightarrow> int \<Rightarrow> he_struct \<Rightarrow> nat \<Rightarrow> nat \<Rightarrow> memory \<Rightarrow> os \<Rightarrow>
     ((nss_status \<times> he_struct \<times> buffer_t) \<times> os) res" where
  "nss_netresolve_gethostbyname3_r k n C E extra wait nodename family he bufptr buflen m o1 =
     rbind (nss_netresolve_getaddrinfo k n C E extra wait nodename None (nss_hints family) o1) (\<lambda>((status, list, ttl), o2).
     rbind (hostent_result family (status, list) he (buffer_new bufptr buflen m)) (\<lambda>r. Inr (r, o2)))"

definition nss_netresolve_gethostbyname2_r ::
    "nat \<Rightarrow> nat \<Rightarrow> code \<Rightarrow> env \<Rightarrow> string \<Rightarrow> epoll_wait \<Rightarrow> string option \<Rightarrow> int \<Rightarrow> he_struct \<Rightarrow> nat \<Rightarrow> nat \<Rightarrow> memory \<Rightarrow> os \<Rightarrow>
     ((nss_status \<times> he_struct \<times> buffer_t) \<times> os) res" where
  "nss_netresolve_gethostbyname2_r = nss_netresolve_gethostbyname3_r"

definition nss_netresolve_gethostbyname_r ::
    "nat \<Rightarrow> nat \<Rightarrow> code \<Rightarrow> env \<Rightarrow> string \<Rightarrow> epoll_wait \<Rightarrow> string option \<Rightarrow> he_struct \<Rightarrow> nat \<Rightarrow> nat \<Rightarrow> memory \<Rightarrow> os \<Rightarrow>
     ((nss_status \<times> he_struct \<times> buffer_t) \<times> os) res" where
  "nss_netresolve_gethostbyname_r k n C E extra wait nodename =
     nss_netresolve_gethostbyname2_r k n C E extra wait nodename AF_INET"

text \<open>
  The entry of an address: the result of the completion function is copied with its pointers, which
  are the addresses of its parts in the heap, and each pointer is then replaced.
\<close>

definition hostent_length :: "hostent \<Rightarrow> nat" where
  "hostent_length h = (if h_addrtype h = 0 then 0 else if h_addrtype h = AF_INET then 4 else 16)"

fun replace_addresses :: "byte list list \<Rightarrow> nat \<Rightarrow> nat \<Rightarrow> buffer_t \<Rightarrow> (bool \<times> buffer_t) res" where
  "replace_addresses [] item len b = Inr (True, b)"
| "replace_addresses (addr # addrs) item len b =
     (case buffer_append (Some addr) len b of (p, b) \<Rightarrow>
       rbind (buffer_store item (ptr_bytes p) b) (\<lambda>b.
         if p = 0 then Inr (False, b) else replace_addresses addrs (item + PTR_SIZE) len b))"

definition hostaddr_result :: "hostent \<Rightarrow> nat list \<Rightarrow> buffer_t \<Rightarrow> (nss_status \<times> he_struct \<times> buffer_t) res" where
  "hostaddr_result temp ptrs b =
     (case buffer_append (map_option cstr_bytes (h_name temp)) 0 b of (p1, b) \<Rightarrow>
       (let he = \<lparr>he_name = p1, he_aliases = 0, he_addrtype = h_addrtype temp, he_length = hostent_length temp, he_addr_list = 0\<rparr>
        in if p1 = 0 then Inr (NSS_STATUS_TRYAGAIN, he, b)
           else (case buffer_append None PTR_SIZE b of (p2, b) \<Rightarrow>
             if p2 = 0 then Inr (NSS_STATUS_TRYAGAIN, he, b)
             else (case buffer_append (Some (concat (map ptr_bytes ptrs) @ ptr_bytes 0)) ((length ptrs + 1) * PTR_SIZE) b of (p3, b) \<Rightarrow>
               (let he = he\<lparr>he_aliases := p2, he_addr_list := p3\<rparr>
                in if p3 = 0 then Inr (NSS_STATUS_TRYAGAIN, he, b)
                   else rbind (replace_addresses (h_addr_list temp) p3 (he_length he) b) (\<lambda>(ok, b).
                     Inr (if ok then NSS_STATUS_SUCCESS else NSS_STATUS_TRYAGAIN, he, b)))))))"

definition nss_netresolve_gethostbyaddr2_r ::
    "nat \<Rightarrow> nat \<Rightarrow> code \<Rightarrow> env \<Rightarrow> string \<Rightarrow> epoll_wait \<Rightarrow> byte list \<Rightarrow> int \<Rightarrow> int \<Rightarrow> (hostent \<Rightarrow> nat list) \<Rightarrow> he_struct \<Rightarrow>
     nat \<Rightarrow> nat \<Rightarrow> memory \<Rightarrow> world \<Rightarrow> ((nss_status \<times> he_struct \<times> buffer_t) \<times> world) res" where
  "nss_netresolve_gethostbyaddr2_r k n C E extra wait addr len type heap he bufptr buflen m wd =
     rbind (netresolve_query_gethostbyaddr k n C E extra wait addr len type None UD_NULL wd) (\<lambda>(q, wd).
       (case q of
          None \<Rightarrow> Inr ((NSS_STATUS_UNAVAIL, he, buffer_new bufptr buflen m), wd)
        | Some i \<Rightarrow>
            rbind (take_query i (\<lambda>s. rbind (netresolve_query_gethostbyaddr_done n C s) (\<lambda>(temp, ttl, s). Inr (temp, s))) wd) (\<lambda>(temp, wd).
            rbind (hostaddr_result temp (heap temp) (buffer_new bufptr buflen m)) (\<lambda>r. Inr (r, wd)))))"

definition nss_netresolve_gethostbyaddr_r ::
    "nat \<Rightarrow> nat \<Rightarrow> code \<Rightarrow> env \<Rightarrow> string \<Rightarrow> epoll_wait \<Rightarrow> byte list \<Rightarrow> int \<Rightarrow> int \<Rightarrow> (hostent \<Rightarrow> nat list) \<Rightarrow> he_struct \<Rightarrow>
     nat \<Rightarrow> nat \<Rightarrow> memory \<Rightarrow> world \<Rightarrow> ((nss_status \<times> he_struct \<times> buffer_t) \<times> world) res" where
  "nss_netresolve_gethostbyaddr_r = nss_netresolve_gethostbyaddr2_r"

section \<open>What the caller finds in the buffer\<close>

text \<open>A list of addresses, as a reader follows its pointers up to NULL.\<close>

fun addr_list_at :: "memory \<Rightarrow> nat \<Rightarrow> nat \<Rightarrow> byte list list \<Rightarrow> bool" where
  "addr_list_at m a len [] \<longleftrightarrow> load_ptr a m = 0"
| "addr_list_at m a len (x # xs) \<longleftrightarrow>
     load_ptr a m \<noteq> 0 \<and> mem_load (load_ptr a m) len m = x \<and> addr_list_at m (a + PTR_SIZE) len xs"

text \<open>A chain of tuples, each with its family and address.\<close>

fun tuples_at :: "memory \<Rightarrow> nat \<Rightarrow> (int \<times> byte list) list \<Rightarrow> bool" where
  "tuples_at m p [] \<longleftrightarrow> p = 0"
| "tuples_at m p ((family, addr) # ts) \<longleftrightarrow>
     p \<noteq> 0 \<and> mem_load (p + 16) 4 m = int_bytes family \<and> mem_load (p + 20) (length addr) m = addr \<and>
     tuples_at m (load_ptr p m) ts"

text \<open>The state of a buffer between two appends.\<close>

definition buffer_ok :: "buffer_t \<Rightarrow> bool" where
  "buffer_ok b \<longleftrightarrow> 0 < bf_start b \<and> bf_start b \<le> bf_data b \<and> bf_data b + bf_length b = bf_end b \<and> bf_end b < 2 ^ 64"

text \<open>The address in an item of the result; every item has the socket address of its family.\<close>

definition item_address :: "addrinfo_result \<Rightarrow> byte list" where
  "item_address item = (case ai_addr item of
     Some (Sockaddr_in _ a) \<Rightarrow> mem_read 4 a | Some (Sockaddr_in6 _ _ a) \<Rightarrow> mem_read 16 a | None \<Rightarrow> [])"

definition item_ok :: "addrinfo_result \<Rightarrow> bool" where
  "item_ok item \<longleftrightarrow> (\<exists>sa. ai_addr item = Some sa \<and> ai_family item = sa_family sa)"

lemma mem_read_length [simp]: "length (mem_read n xs) = n"
  by (simp add: mem_read_def)

lemma item_okE:
  assumes "item_ok item"
  obtains p x where "ai_addr item = Some (Sockaddr_in p x)" "ai_family item = AF_INET"
    | p i x where "ai_addr item = Some (Sockaddr_in6 p i x)" "ai_family item = AF_INET6"
proof -
  obtain sa where "ai_addr item = Some sa" "ai_family item = sa_family sa" using assms by (auto simp: item_ok_def)
  then show ?thesis using that by (cases sa) (auto simp: sa_family_def)
qed

lemma length_item_address:
  "item_ok item \<Longrightarrow> length (item_address item) = (if ai_family item = AF_INET then 4 else 16)"
  by (erule item_okE) (simp_all add: item_address_def)

lemma extract_address_eq:
  assumes "item_ok item" and "a \<noteq> 0"
  shows "extract_address item a b = buffer_store a (item_address item) b"
  using assms by (elim item_okE) (simp_all add: item_address_def extract_address_def)

lemma buffer_store_ok:
  "bf_start b \<le> a \<Longrightarrow> a + length bs \<le> bf_end b \<Longrightarrow>
   buffer_store a bs b = Inr (b\<lparr>bf_memory := mem_store a bs (bf_memory b)\<rparr>)"
  by (simp add: buffer_store_def store_within_def)

text \<open>Appending given bytes is what all uses of \<open>buffer_append\<close> come down to.\<close>

definition append_bytes :: "byte list \<Rightarrow> buffer_t \<Rightarrow> nat \<times> buffer_t" where
  "append_bytes bs b =
     (if bf_length b < length bs then (0, b\<lparr>bf_errno := ERANGE\<rparr>)
      else (bf_data b, b\<lparr>bf_data := bf_data b + length bs, bf_length := bf_length b - length bs,
        bf_memory := mem_store (bf_data b) bs (bf_memory b)\<rparr>))"

lemma of_char_eq_0: "(of_char c :: byte) = 0 \<longleftrightarrow> c = NUL"
proof
  assume "(of_char c :: byte) = 0"
  then have "of_nat (of_char c) = (0 :: byte)" by (simp add: of_nat_of_char)
  then have "256 dvd (of_char c :: nat)" by (simp add: word_of_nat_eq_0_iff)
  moreover have "(of_char c :: nat) < 256" by (rule nat_of_char_less_256)
  ultimately have "of_char c = (0 :: nat)" using nat_dvd_not_less by blast
  then have "char_of (of_char c :: nat) = char_of (0 :: nat)" by (rule arg_cong)
  then show "c = NUL" by (simp only: char_of_char) (simp add: char_of_def)
qed simp

lemma strlen_cstr_bytes: "NUL \<notin> set str \<Longrightarrow> length (takeWhile (\<lambda>x. x \<noteq> 0) (cstr_bytes str)) = length str"
  by (induction str) (auto simp: cstr_bytes_def of_char_eq_0)

lemma buffer_append_eq:
  "buffer_append None n b = append_bytes (replicate n 0) b"
  "n > 0 \<Longrightarrow> buffer_append (Some d) n b = append_bytes (mem_read n d) b"
  "NUL \<notin> set str \<Longrightarrow> buffer_append (Some (cstr_bytes str)) 0 b = append_bytes (cstr_bytes str) b"
  by (simp_all add: buffer_append_def append_bytes_def strlen_cstr_bytes mem_read_exact)

text \<open>
  Appending \<open>need\<close> bytes and patching \<open>R\<close>: it succeeds exactly when there is room, and nothing else
  of the memory changes.
\<close>

definition appended :: "nat set \<Rightarrow> nat \<Rightarrow> bool \<Rightarrow> buffer_t \<Rightarrow> buffer_t \<Rightarrow> bool" where
  "appended R need ok b b' \<longleftrightarrow> buffer_ok b' \<and> bf_start b' = bf_start b \<and> bf_end b' = bf_end b \<and>
     (ok \<longleftrightarrow> need \<le> bf_length b) \<and>
     (\<forall>x. x \<notin> R \<and> \<not> (bf_data b \<le> x \<and> x < bf_end b) \<longrightarrow> bf_memory b' x = bf_memory b x) \<and>
     (if ok then bf_data b' = bf_data b + need \<and> bf_errno b' = bf_errno b else bf_errno b' = ERANGE)"

lemma appendedD:
  assumes "appended R need ok b b'"
  shows "buffer_ok b'" "bf_start b' = bf_start b" "bf_end b' = bf_end b" "ok \<longleftrightarrow> need \<le> bf_length b"
    "x \<notin> R \<Longrightarrow> \<not> (bf_data b \<le> x \<and> x < bf_end b) \<Longrightarrow> bf_memory b' x = bf_memory b x"
    "ok \<Longrightarrow> bf_data b' = bf_data b + need" "ok \<Longrightarrow> bf_errno b' = bf_errno b" "\<not> ok \<Longrightarrow> bf_errno b' = ERANGE"
  using assms by (auto simp: appended_def split: if_splits)

lemma appended_refl: "buffer_ok b \<Longrightarrow> appended R 0 True b b"
  by (simp add: appended_def)

lemma appended_trans:
  assumes "buffer_ok b" and "appended R n True b b1" and "appended R' n' ok b1 b2"
    and "\<And>x. x \<in> R' \<Longrightarrow> x \<in> R \<or> bf_data b \<le> x \<and> x < bf_end b"
  shows "appended R (n + n') ok b b2"
proof -
  note d1 = appendedD [OF assms(2)] and d2 = appendedD [OF assms(3)]
  have len: "bf_length b1 = bf_length b - n" "n \<le> bf_length b"
    using assms(1) d1(1-4,6) by (auto simp: buffer_ok_def)
  have "bf_memory b2 x = bf_memory b x" if "x \<notin> R" "\<not> (bf_data b \<le> x \<and> x < bf_end b)" for x
    using d1(5) [of x] d2(5) [of x] assms(4) [of x] d1(3,6) that by fastforce
  moreover have "ok \<longleftrightarrow> n + n' \<le> bf_length b" using d2(4) len by auto
  ultimately show ?thesis using d1 d2 by (auto simp: appended_def)
qed

lemma append_bytes_full:
  "buffer_ok b \<Longrightarrow> bf_length b < length bs \<Longrightarrow>
   append_bytes bs b = (0, b\<lparr>bf_errno := ERANGE\<rparr>) \<and> appended R (length bs) False b (b\<lparr>bf_errno := ERANGE\<rparr>)"
  by (simp add: append_bytes_def appended_def buffer_ok_def)

lemma append_bytes_room:
  assumes "buffer_ok b" and "length bs \<le> bf_length b"
  obtains b1 where "append_bytes bs b = (bf_data b, b1)" "appended R (length bs) True b b1" "bf_data b \<noteq> 0"
    "bf_memory b1 = mem_store (bf_data b) bs (bf_memory b)"
  using that [of "b\<lparr>bf_data := bf_data b + length bs, bf_length := bf_length b - length bs,
      bf_memory := mem_store (bf_data b) bs (bf_memory b)\<rparr>"] assms
  by (auto simp: append_bytes_def appended_def buffer_ok_def mem_store_def)

lemma appended_store:
  assumes "buffer_ok b0" and "appended R n ok b0 b" and "bf_start b0 \<le> a" and "a + length bs \<le> bf_end b0"
    and "\<And>x. a \<le> x \<Longrightarrow> x < a + length bs \<Longrightarrow> x \<in> R \<or> bf_data b0 \<le> x \<and> x < bf_end b0"
  obtains b1 where "buffer_store a bs b = Inr b1" "appended R n ok b0 b1" "bf_memory b1 = mem_store a bs (bf_memory b)"
    "bf_data b1 = bf_data b"
proof -
  let ?b = "b\<lparr>bf_memory := mem_store a bs (bf_memory b)\<rparr>"
  note d = appendedD [OF assms(2)]
  have "bf_memory ?b x = bf_memory b0 x" if "x \<notin> R" "\<not> (bf_data b0 \<le> x \<and> x < bf_end b0)" for x
    using d(5) [OF that] assms(5) [of x] that by (auto simp: mem_store_def)
  then have "appended R n ok b0 ?b" using d by (auto simp: appended_def buffer_ok_def)
  then show ?thesis using that [of ?b] d(2,3) assms(3,4) by (simp add: buffer_store_def store_within_def)
qed

lemma appended_more: "appended R n ok b b' \<Longrightarrow> R \<subseteq> R' \<Longrightarrow> appended R' n ok b b'"
  by (auto simp: appended_def)

lemma appended_fails: "appended R n False b b' \<Longrightarrow> n \<le> n' \<Longrightarrow> appended R n' False b b'"
  by (auto simp: appended_def)

lemma append_address_skip: "foreach (append_address family he) items (False, cnt, b) = Inr (False, cnt, b)"
  by (induction items) (simp_all add: append_address_def)

lemma append_addresses:
  assumes "buffer_ok b" and "\<forall>item \<in> set items. item_ok item" and "he_length he = (if family = AF_INET then 4 else 16)"
    and "bf_start b \<le> he_addr_list he" and "he_addr_list he + 8 * (cnt + length items + 1) \<le> bf_data b"
    and "mem_load (he_addr_list he + 8 * cnt) (8 * (length items + 1)) (bf_memory b) = replicate (8 * (length items + 1)) 0"
  defines "sel \<equiv> filter (\<lambda>item. ai_family item = family) items"
  shows "\<exists>ok cnt' b'. foreach (append_address family he) items (True, cnt, b) = Inr (ok, cnt', b') \<and>
    appended {he_addr_list he + 8 * cnt..<he_addr_list he + 8 * (cnt + length items)} (he_length he * length sel) ok b b' \<and>
    (ok \<longrightarrow> (\<forall>m'. (\<forall>x < bf_data b'. m' x = bf_memory b' x) \<longrightarrow>
      addr_list_at m' (he_addr_list he + 8 * cnt) (he_length he) (map item_address sel)))"
  using assms(1,2,4-6) unfolding sel_def
proof (induction items arbitrary: cnt b)
  case Nil
  have zero: "mem_load (he_addr_list he + 8 * cnt) 8 (bf_memory b) = replicate 8 0"
    and fit: "he_addr_list he + 8 * cnt + 8 \<le> bf_data b" using Nil(4,5) by simp_all
  have "load_ptr (he_addr_list he + 8 * cnt) m' = 0" if "\<forall>x < bf_data b. m' x = bf_memory b x" for m'
  proof -
    have "mem_load (he_addr_list he + 8 * cnt) 8 m' = mem_load (he_addr_list he + 8 * cnt) 8 (bf_memory b)"
      by (rule mem_load_cong) (use that fit in simp)
    then show ?thesis by (simp add: load_ptr_def zero)
  qed
  with appended_refl [OF Nil(1)] show ?case
    by (intro exI [of _ True] exI [of _ cnt] exI [of _ b]) simp
next
  case (Cons item items)
  let ?A = "he_addr_list he" and ?L = "he_length he" and ?sel = "filter (\<lambda>item. ai_family item = family) items"
  let ?a = "?A + 8 * cnt" and ?R = "\<lambda>n k. {?A + 8 * n..<?A + 8 * (n + k)}"
  have zeros: "mem_load ?a (8 + 8 * (length items + 1)) (bf_memory b) = replicate (8 + 8 * (length items + 1)) 0"
    "8 + 8 * (length items + 1) = 8 * (length items + 1) + 8"
    using Cons.prems(5) by (simp_all add: algebra_simps)
  have z1: "mem_load (?a + 8) (8 * (length items + 1)) (bf_memory b) = replicate (8 * (length items + 1)) 0"
    using zeros(1) unfolding mem_load_add replicate_add by (simp add: append_eq_append_conv)
  have z2: "mem_load ?a (8 * (length items + 1)) (bf_memory b) = replicate (8 * (length items + 1)) 0"
    using zeros(1) unfolding zeros(2) mem_load_add replicate_add by (simp add: append_eq_append_conv)
  have item: "item_ok item" "\<forall>item \<in> set items. item_ok item" using Cons.prems(2) by auto
  consider (other) "ai_family item \<noteq> family" | (full) "ai_family item = family" "bf_length b < ?L"
    | (room) "ai_family item = family" "?L \<le> bf_length b" by linarith
  then show ?case
  proof cases
    case other
    then have "append_address family he item (True, cnt, b) = Inr (True, cnt, b)" by (simp add: append_address_def)
    moreover obtain ok cnt' b' where "foreach (append_address family he) items (True, cnt, b) = Inr (ok, cnt', b')"
        "appended (?R cnt (length items)) (?L * length ?sel) ok b b'"
        "ok \<longrightarrow> (\<forall>m'. (\<forall>x < bf_data b'. m' x = bf_memory b' x) \<longrightarrow> addr_list_at m' ?a ?L (map item_address ?sel))"
      using Cons.IH [OF Cons.prems(1) item(2) Cons.prems(3) _ z2] Cons.prems(4) by auto
    moreover have "appended (?R cnt (Suc (length items))) (0 + ?L * length ?sel) ok b b'"
      by (rule appended_trans [OF Cons.prems(1) appended_refl [OF Cons.prems(1)] calculation(3)]) auto
    ultimately show ?thesis using other by auto
  next
    case full
    let ?R' = "?R cnt (Suc (length items))"
    have fit: "bf_start b \<le> ?a" "?a + length (ptr_bytes 0) \<le> bf_end b"
      using Cons.prems(1,3,4) by (simp_all add: buffer_ok_def)
    have "appended ?R' ?L False b (b\<lparr>bf_errno := ERANGE\<rparr>)" "buffer_append None ?L b = (0, b\<lparr>bf_errno := ERANGE\<rparr>)"
      using append_bytes_full [OF Cons.prems(1), of "replicate ?L 0"] full(2) by (simp_all add: buffer_append_eq)
    moreover obtain b2 where b2: "buffer_store ?a (ptr_bytes 0) (b\<lparr>bf_errno := ERANGE\<rparr>) = Inr b2" "appended ?R' ?L False b b2"
      by (rule appended_store [OF Cons.prems(1) calculation(1) fit]) auto
    moreover have "appended ?R' (?L * length (filter (\<lambda>item. ai_family item = family) (item # items))) False b b2"
      by (rule appended_fails [OF b2(2)]) (use full in simp)
    moreover have "append_address family he item (True, cnt, b) = Inr (False, cnt, b2)"
      using calculation(2,3) full(1) by (simp add: append_address_def)
    ultimately show ?thesis
      by (intro exI [of _ False] exI [of _ cnt] exI [of _ b2]) (simp add: append_address_skip)
  next
    case room
    let ?R' = "?R cnt (Suc (length items))" and ?p = "bf_data b"
    obtain b1 where b1: "buffer_append None ?L b = (?p, b1)" "appended ?R' ?L True b b1" "?p \<noteq> 0"
        "bf_memory b1 = mem_store ?p (replicate ?L 0) (bf_memory b)"
      by (rule append_bytes_room [OF Cons.prems(1), where bs = "replicate ?L 0" and R = ?R'])
        (use room(2) that in \<open>simp_all add: buffer_append_eq\<close>)
    have fit: "bf_start b \<le> ?a" "?a + length (ptr_bytes ?p) \<le> bf_end b" "?a + 8 * (length items + 2) \<le> ?p"
      "bf_start b \<le> ?p" "?p + length (item_address item) \<le> bf_end b" "length (item_address item) = ?L" "?p < 2 ^ 64"
      using Cons.prems(1,3,4) room assms(3) length_item_address [OF item(1)] by (auto simp: buffer_ok_def)
    obtain b2 where b2: "buffer_store ?a (ptr_bytes ?p) b1 = Inr b2" "appended ?R' ?L True b b2"
        "bf_memory b2 = mem_store ?a (ptr_bytes ?p) (bf_memory b1)"
      by (rule appended_store [OF Cons.prems(1) b1(2) fit(1,2)]) auto
    obtain b3 where b3: "buffer_store ?p (item_address item) b2 = Inr b3" "appended ?R' ?L True b b3"
        "bf_memory b3 = mem_store ?p (item_address item) (bf_memory b2)"
      by (rule appended_store [OF Cons.prems(1) b2(2) fit(4,5)]) (use fit in auto)
    note d = appendedD [OF b3(2)]
    have step: "append_address family he item (True, cnt, b) = Inr (True, Suc cnt, b3)"
      using b1(1,3) b2(1) b3(1) room(1) by (simp add: append_address_def extract_address_eq [OF item(1)])
    have m3: "bf_memory b3 = mem_store ?p (item_address item) (mem_store ?a (ptr_bytes ?p) (mem_store ?p (replicate ?L 0) (bf_memory b)))"
      using b1(4) b2(3) b3(3) by simp
    have z3: "mem_load (?A + 8 * Suc cnt) (8 * (length items + 1)) (bf_memory b3) = replicate (8 * (length items + 1)) 0"
      unfolding m3 using z1 fit by (subst mem_load_store_other, simp)+ (simp add: add.commute add.left_commute)
    obtain ok cnt' b' where IH: "foreach (append_address family he) items (True, Suc cnt, b3) = Inr (ok, cnt', b')"
        "appended (?R (Suc cnt) (length items)) (?L * length ?sel) ok b3 b'"
        "ok \<longrightarrow> (\<forall>m'. (\<forall>x < bf_data b'. m' x = bf_memory b' x) \<longrightarrow>
          addr_list_at m' (?A + 8 * Suc cnt) ?L (map item_address ?sel))"
      using Cons.IH [OF d(1) item(2) _ _ z3] Cons.prems(3,4) d(2,6) by auto
    have "appended ?R' (?L + ?L * length ?sel) ok b b'"
      by (rule appended_trans [OF Cons.prems(1) b3(2) IH(2)]) auto
    moreover have "load_ptr ?a m' = ?p \<and> mem_load ?p ?L m' = item_address item"
      if m': "\<forall>x < bf_data b'. m' x = bf_memory b' x" and ok for m'
    proof -
      have "bf_data b' \<ge> ?p + ?L" using appendedD(6) [OF IH(2) \<open>ok\<close>] d(6) by simp
      then have "mem_load ?a 8 m' = mem_load ?a 8 (bf_memory b')" "mem_load ?p ?L m' = mem_load ?p ?L (bf_memory b')"
        using m' fit by (auto intro!: mem_load_cong)
      moreover have "mem_load ?a 8 (bf_memory b') = mem_load ?a 8 (bf_memory b3)"
        by (rule mem_load_cong, rule appendedD(5) [OF IH(2)]) (use fit d(6) in auto)
      moreover have "mem_load ?p ?L (bf_memory b') = mem_load ?p ?L (bf_memory b3)"
        by (rule mem_load_cong, rule appendedD(5) [OF IH(2)]) (use fit d(6) in auto)
      ultimately show ?thesis
        using load_ptr_store [OF fit(7), of ?a] fit(3,6)
        by (simp add: load_ptr_def m3 mem_load_store_other mem_load_store_same)
    qed
    ultimately show ?thesis using step IH(1,3) room(1) b1(3)
      by (intro exI [of _ ok] exI [of _ cnt'] exI [of _ b']) (simp add: add.commute add.left_commute)
  qed
qed

lemma buffer_new_ok: "0 < bufptr \<Longrightarrow> bufptr + buflen < 2 ^ 64 \<Longrightarrow> buffer_ok (buffer_new bufptr buflen m)"
  by (simp add: buffer_ok_def buffer_new_def)

text \<open>The bytes that a host entry takes: the pointers with their NULL, the addresses and the name.\<close>

definition hostent_need :: "int \<Rightarrow> addrinfo_result list \<Rightarrow> nat" where
  "hostent_need family list = 8 * (length list + 1) +
     (if family = AF_INET then 4 else 16) * length (filter (\<lambda>item. ai_family item = family) list) +
     (case ai_canonname (hd list) of None \<Rightarrow> 0 | Some str \<Rightarrow> Suc (length str))"

lemma append_canonical_ok:
  assumes "buffer_ok b" and "list \<noteq> []" and "\<And>str. ai_canonname (hd list) = Some str \<Longrightarrow> NUL \<notin> set str"
  shows "\<exists>ok p b'. append_canonical list he b =
      Inr (if ok then NSS_STATUS_SUCCESS else NSS_STATUS_TRYAGAIN, if ai_canonname (hd list) = None then he else he\<lparr>he_name := p\<rparr>, b') \<and>
    appended {} (case ai_canonname (hd list) of None \<Rightarrow> 0 | Some str \<Rightarrow> Suc (length str)) ok b b' \<and>
    (ok \<longrightarrow> (\<forall>str. ai_canonname (hd list) = Some str \<longrightarrow> mem_load p (Suc (length str)) (bf_memory b') = cstr_bytes str))"
proof (cases "ai_canonname (hd list)")
  case None
  then show ?thesis using assms(1,2) appended_refl
    by (intro exI [of _ True] exI [of _ 0] exI [of _ b]) (auto simp: append_canonical_def neq_Nil_conv)
next
  case (Some str)
  have c: "append_canonical list he b = (case append_bytes (cstr_bytes str) b of (p, b) \<Rightarrow>
      Inr (if p = 0 then NSS_STATUS_TRYAGAIN else NSS_STATUS_SUCCESS, he\<lparr>he_name := p\<rparr>, b))"
    using Some assms(2,3) by (auto simp: append_canonical_def neq_Nil_conv buffer_append_eq)
  show ?thesis
  proof (cases "length (cstr_bytes str) \<le> bf_length b")
    case True
    obtain b1 where "append_bytes (cstr_bytes str) b = (bf_data b, b1)" "appended {} (Suc (length str)) True b b1" "bf_data b \<noteq> 0"
        "bf_memory b1 = mem_store (bf_data b) (cstr_bytes str) (bf_memory b)"
      by (rule append_bytes_room [OF assms(1) True, where R = "{}"]) simp
    then show ?thesis using Some c
      by (intro exI [of _ True] exI [of _ "bf_data b"] exI [of _ b1]) (simp add: mem_load_store_same)
  next
    case False
    then show ?thesis using append_bytes_full [OF assms(1), of "cstr_bytes str" "{}"] Some c
      by (intro exI [of _ False] exI [of _ 0] exI [of _ "b\<lparr>bf_errno := ERANGE\<rparr>"]) simp
  qed
qed

text \<open>
  C33: a host entry is laid out in the buffer of the caller. Whatever the size of the buffer, nothing
  outside of it is written and no store fails its check. With enough room the entry is found there:
  the list of pointers ends with NULL and leads to the addresses of the requested family in the order
  of the results, and the name to the canonical name. Otherwise the caller is told to try again with
  a larger buffer; the size that is needed is exact.
\<close>

theorem nss_hostent_layout:
  assumes "0 < bufptr" and "bufptr + buflen < 2 ^ 64" and "list \<noteq> []" and "\<forall>item \<in> set list. item_ok item"
    and "\<And>str. ai_canonname (hd list) = Some str \<Longrightarrow> NUL \<notin> set str"
  shows "\<exists>st he' b'. hostent_result family (0, list) he (buffer_new bufptr buflen m) = Inr (st, he', b') \<and>
    (\<forall>x. x < bufptr \<or> bufptr + buflen \<le> x \<longrightarrow> bf_memory b' x = m x) \<and>
    (if hostent_need family list \<le> buflen
     then st = NSS_STATUS_SUCCESS \<and> he_addrtype he' = family \<and>
       addr_list_at (bf_memory b') (he_addr_list he') (he_length he') (map item_address (filter (\<lambda>item. ai_family item = family) list)) \<and>
       (\<forall>str. ai_canonname (hd list) = Some str \<longrightarrow> mem_load (he_name he') (Suc (length str)) (bf_memory b') = cstr_bytes str)
     else st = NSS_STATUS_TRYAGAIN \<and> bf_errno b' = ERANGE)"
proof -
  let ?b = "buffer_new bufptr buflen m" and ?n = "8 * (length list + 1)" and ?L = "if family = AF_INET then 4 else (16 :: nat)"
  let ?he = "he\<lparr>he_addrtype := family, he_length := ?L, he_addr_list := bufptr\<rparr>"
  let ?sel = "filter (\<lambda>item. ai_family item = family) list"
  let ?k = "case ai_canonname (hd list) of None \<Rightarrow> 0 | Some str \<Rightarrow> Suc (length str)"
  have ok: "buffer_ok ?b" and new: "bf_data ?b = bufptr" "bf_length ?b = buflen" "bf_start ?b = bufptr"
      "bf_end ?b = bufptr + buflen" "bf_memory ?b = m"
    using buffer_new_ok [OF assms(1,2)] by (simp_all add: buffer_new_def)
  have need: "hostent_need family list = ?n + ?L * length ?sel + ?k" by (simp add: hostent_need_def)
  have goal: ?thesis if "hostent_result family (0, list) he ?b = Inr (if ok then NSS_STATUS_SUCCESS else NSS_STATUS_TRYAGAIN, he', b')"
      "appended {} (hostent_need family list) ok ?b b'"
      "ok \<longrightarrow> he_addrtype he' = family \<and> addr_list_at (bf_memory b') (he_addr_list he') (he_length he') (map item_address ?sel) \<and>
        (\<forall>str. ai_canonname (hd list) = Some str \<longrightarrow> mem_load (he_name he') (Suc (length str)) (bf_memory b') = cstr_bytes str)" for ok he' b'
    using that(1,3) appendedD(4,5,8) [OF that(2)] new
    by (intro exI [of _ "if ok then NSS_STATUS_SUCCESS else NSS_STATUS_TRYAGAIN"] exI [of _ he'] exI [of _ b']) auto
  show ?thesis
  proof (cases "?n \<le> buflen")
    case False
    have "append_bytes (replicate ?n 0) ?b = (0, ?b\<lparr>bf_errno := ERANGE\<rparr>)" "appended {} ?n False ?b (?b\<lparr>bf_errno := ERANGE\<rparr>)"
      using append_bytes_full [OF ok, of "replicate ?n 0" "{}"] False new(2) by simp_all
    then show ?thesis
      by (intro goal [of False "he\<lparr>he_addrtype := family, he_length := ?L, he_addr_list := 0\<rparr>" "?b\<lparr>bf_errno := ERANGE\<rparr>"])
        (auto simp: hostent_result_def buffer_append_eq need intro: appended_fails)
  next
    case True
    obtain b1 where b1: "append_bytes (replicate ?n 0) ?b = (bufptr, b1)" "appended {} ?n True ?b b1"
        "bf_memory b1 = mem_store bufptr (replicate ?n 0) m"
      by (rule append_bytes_room [OF ok, where bs = "replicate ?n 0" and R = "{}"]) (use True new in simp_all)
    note d1 = appendedD [OF b1(2)]
    have z: "mem_load (he_addr_list ?he + 8 * 0) (8 * (length list + 1)) (bf_memory b1) = replicate (8 * (length list + 1)) 0"
      by (simp add: b1(3) mem_load_store_same del: replicate_Suc)
    obtain ok2 cnt b2 where b2: "foreach (append_address family ?he) list (True, 0, b1) = Inr (ok2, cnt, b2)"
        "appended {bufptr..<bufptr + 8 * length list} (?L * length ?sel) ok2 b1 b2"
        "ok2 \<longrightarrow> (\<forall>m'. (\<forall>x < bf_data b2. m' x = bf_memory b2 x) \<longrightarrow> addr_list_at m' bufptr ?L (map item_address ?sel))"
      using append_addresses [OF d1(1) assms(4), of ?he family 0] z d1(2,6) new by auto
    have a2: "appended {} (?n + ?L * length ?sel) ok2 ?b b2"
      by (rule appended_trans [OF ok b1(2) b2(2)]) (use True new in auto)
    have run: "hostent_result family (0, list) he ?b = (if ok2 then append_canonical list ?he b2 else Inr (NSS_STATUS_TRYAGAIN, ?he, b2))"
      using b1(1) b2(1) assms(1) by (simp add: hostent_result_def buffer_append_eq Let_def)
    show ?thesis
    proof (cases ok2)
      case False
      then show ?thesis
        by (intro goal [of False ?he b2]) (use run a2 in \<open>auto simp: need intro: appended_fails\<close>)
    next
      case True
      obtain ok3 p b3 where b3: "append_canonical list ?he b2 =
          Inr (if ok3 then NSS_STATUS_SUCCESS else NSS_STATUS_TRYAGAIN, if ai_canonname (hd list) = None then ?he else ?he\<lparr>he_name := p\<rparr>, b3)"
          "appended {} ?k ok3 b2 b3"
          "ok3 \<longrightarrow> (\<forall>str. ai_canonname (hd list) = Some str \<longrightarrow> mem_load p (Suc (length str)) (bf_memory b3) = cstr_bytes str)"
        using append_canonical_ok [OF appendedD(1) [OF a2] assms(3,5), of ?he] by blast
      have "appended {} (?n + ?L * length ?sel + ?k) ok3 ?b b3"
        by (rule appended_trans [OF ok _ b3(2)]) (use a2 True in auto)
      moreover have "\<forall>x < bf_data b2. bf_memory b3 x = bf_memory b2 x" using appendedD(5) [OF b3(2)] by simp
      then have "addr_list_at (bf_memory b3) bufptr ?L (map item_address ?sel)" using b2(3) True by blast
      ultimately show ?thesis
        by (intro goal [of ok3 "if ai_canonname (hd list) = None then ?he else ?he\<lparr>he_name := p\<rparr>" b3])
          (use run True b3(1,3) in \<open>auto simp: need\<close>)
    qed
  qed
qed

text \<open>The name of a tuple, when it has one.\<close>

definition name_at :: "memory \<Rightarrow> nat \<Rightarrow> string option \<Rightarrow> bool" where
  "name_at m p name \<longleftrightarrow> (case name of None \<Rightarrow> True | Some str \<Rightarrow>
     load_ptr (p + 8) m \<noteq> 0 \<and> mem_load (load_ptr (p + 8) m) (Suc (length str)) m = cstr_bytes str)"

definition name_need :: "string option \<Rightarrow> nat" where
  "name_need name = (case name of None \<Rightarrow> 0 | Some str \<Rightarrow> Suc (length str))"

lemma append_name_ok:
  assumes "buffer_ok b" and "bf_start b \<le> p" and "p + 16 \<le> bf_data b" and "\<And>str. name = Some str \<Longrightarrow> NUL \<notin> set str"
  shows "\<exists>ok b'. append_name p name b = Inr (ok, b') \<and> appended {p + 8..<p + 16} (name_need name) ok b b' \<and>
    (ok \<longrightarrow> (\<forall>m'. (\<forall>x. p + 8 \<le> x \<and> x < bf_data b' \<longrightarrow> m' x = bf_memory b' x) \<longrightarrow> name_at m' p name))"
proof (cases name)
  case None
  then show ?thesis using appended_refl [OF assms(1)]
    by (intro exI [of _ True] exI [of _ b]) (simp add: append_name_def name_need_def name_at_def)
next
  case (Some str)
  let ?R = "{p + 8..<p + 16}" and ?q = "bf_data b"
  have fit: "bf_start b \<le> p + 8" "p + 8 + length (ptr_bytes q) \<le> bf_end b" "?q < 2 ^ 64" for q
    using assms(1-3) by (auto simp: buffer_ok_def)
  have c: "append_name p name b = (case append_bytes (cstr_bytes str) b of (q, b) \<Rightarrow>
      rbind (buffer_store (p + 8) (ptr_bytes q) b) (\<lambda>b. Inr (q \<noteq> 0, b)))"
    using Some assms(4) by (simp add: append_name_def buffer_append_eq)
  show ?thesis
  proof (cases "length (cstr_bytes str) \<le> bf_length b")
    case True
    obtain b1 where b1: "append_bytes (cstr_bytes str) b = (?q, b1)" "appended ?R (Suc (length str)) True b b1" "?q \<noteq> 0"
        "bf_memory b1 = mem_store ?q (cstr_bytes str) (bf_memory b)"
      by (rule append_bytes_room [OF assms(1) True, where R = ?R]) simp
    obtain b2 where b2: "buffer_store (p + 8) (ptr_bytes ?q) b1 = Inr b2" "appended ?R (Suc (length str)) True b b2"
        "bf_memory b2 = mem_store (p + 8) (ptr_bytes ?q) (bf_memory b1)"
      by (rule appended_store [OF assms(1) b1(2) fit(1,2)]) auto
    have "name_at m' p name" if "\<forall>x. p + 8 \<le> x \<and> x < bf_data b2 \<longrightarrow> m' x = bf_memory b2 x" for m'
    proof -
      have "mem_load (p + 8) 8 m' = mem_load (p + 8) 8 (bf_memory b2)"
        "mem_load ?q (Suc (length str)) m' = mem_load ?q (Suc (length str)) (bf_memory b2)"
        using that appendedD(6) [OF b2(2)] assms(3) by (auto intro!: mem_load_cong)
      then show ?thesis
        using load_ptr_store [OF fit(3), of "p + 8"] b1(3,4) b2(3) assms(3) Some
        by (simp add: name_at_def load_ptr_def mem_load_store_same mem_load_store_other)
    qed
    then show ?thesis using c b1(1,3) b2(1,2) Some
      by (intro exI [of _ True] exI [of _ b2]) (simp add: name_need_def)
  next
    case False
    let ?b = "b\<lparr>bf_errno := ERANGE\<rparr>"
    have f: "append_bytes (cstr_bytes str) b = (0, ?b)" "appended ?R (Suc (length str)) False b ?b"
      using append_bytes_full [OF assms(1), of "cstr_bytes str" ?R] False by simp_all
    obtain b2 where "buffer_store (p + 8) (ptr_bytes 0) ?b = Inr b2" "appended ?R (Suc (length str)) False b b2"
      by (rule appended_store [OF assms(1) f(2) fit(1,2)]) auto
    then show ?thesis using c f(1) Some
      by (intro exI [of _ False] exI [of _ b2]) (simp add: name_need_def)
  qed
qed

definition place_region :: "nat option \<Rightarrow> nat set" where
  "place_region place = (case place of None \<Rightarrow> {} | Some a \<Rightarrow> {a..<a + 8})"

text \<open>Where a chain starts: at the pointer of the caller, or at one that is kept in the memory.\<close>

definition chain_start :: "nat option \<Rightarrow> nat \<Rightarrow> memory \<Rightarrow> nat" where
  "chain_start place head m = (case place of None \<Rightarrow> head | Some a \<Rightarrow> load_ptr a m)"

definition item_tuple :: "addrinfo_result \<Rightarrow> int \<times> byte list" where
  "item_tuple item = (ai_family item, item_address item)"

lemma set_result_ok:
  assumes "buffer_ok b0" and "appended (place_region place) n ok b0 b" and "\<And>a. place = Some a \<Longrightarrow> bf_start b0 \<le> a \<and> a + 8 \<le> bf_data b0"
  obtains b1 where "set_result place p head b = Inr (if place = None then p else head, b1)"
    "appended (place_region place) n ok b0 b1" "bf_data b1 = bf_data b"
    "bf_memory b1 = (case place of None \<Rightarrow> bf_memory b | Some a \<Rightarrow> mem_store a (ptr_bytes p) (bf_memory b))"
proof (cases place)
  case None
  then show ?thesis using that [of b] assms(2) by (simp add: set_result_def)
next
  case (Some a)
  then have fit: "bf_start b0 \<le> a" "a + length (ptr_bytes p) \<le> bf_end b0"
    using assms(1,3) by (auto simp: buffer_ok_def)
  obtain b1 where "buffer_store a (ptr_bytes p) b = Inr b1" "appended (place_region place) n ok b0 b1"
      "bf_memory b1 = mem_store a (ptr_bytes p) (bf_memory b)" "bf_data b1 = bf_data b"
    by (rule appended_store [OF assms(1,2) fit]) (auto simp: Some place_region_def)
  then show ?thesis using that [of b1] Some by (simp add: set_result_def)
qed

lemma int_bytes_length [simp]: "length (int_bytes i) = 4"
  by (simp add: int_bytes_def)

text \<open>One tuple, up to its name.\<close>

lemma append_tuple:
  assumes "buffer_ok b" and "item_ok item" and "40 \<le> bf_length b"
    and "\<And>a. place = Some a \<Longrightarrow> bf_start b \<le> a \<and> a + 8 \<le> bf_data b"
  obtains b1 b2 b3 b4 where "append_bytes (replicate 40 0) b = (bf_data b, b1)"
    "set_result place (bf_data b) head b1 = Inr (if place = None then bf_data b else head, b2)"
    "buffer_store (bf_data b + 16) (int_bytes (ai_family item)) b2 = Inr b3"
    "extract_address item (bf_data b + 20) b3 = Inr b4" "appended (place_region place) 40 True b b4" "bf_data b \<noteq> 0"
    "mem_load (bf_data b) 8 (bf_memory b4) = replicate 8 0"
    "mem_load (bf_data b + 16) 4 (bf_memory b4) = int_bytes (ai_family item)"
    "mem_load (bf_data b + 20) (length (item_address item)) (bf_memory b4) = item_address item"
    "\<forall>a. place = Some a \<longrightarrow> mem_load a 8 (bf_memory b4) = ptr_bytes (bf_data b)"
proof -
  let ?p = "bf_data b" and ?R = "place_region place"
  obtain b1 where b1: "append_bytes (replicate 40 0) b = (?p, b1)" "appended ?R 40 True b b1" "?p \<noteq> 0"
      "bf_memory b1 = mem_store ?p (replicate 40 0) (bf_memory b)"
    by (rule append_bytes_room [OF assms(1), where bs = "replicate 40 0" and R = ?R]) (use assms(3) in simp_all)
  obtain b2 where b2: "set_result place ?p head b1 = Inr (if place = None then ?p else head, b2)" "appended ?R 40 True b b2"
      "bf_memory b2 = (case place of None \<Rightarrow> bf_memory b1 | Some a \<Rightarrow> mem_store a (ptr_bytes ?p) (bf_memory b1))"
    by (rule set_result_ok [OF assms(1) b1(2) assms(4), where p = ?p and head = head])
  have fit: "bf_start b \<le> ?p + 16" "?p + 16 + length (int_bytes (ai_family item)) \<le> bf_end b"
      "bf_start b \<le> ?p + 20" "?p + 20 + length (item_address item) \<le> bf_end b" "length (item_address item) \<le> 16"
    using assms(1,3) length_item_address [OF assms(2)] by (auto simp: buffer_ok_def)
  obtain b3 where b3: "buffer_store (?p + 16) (int_bytes (ai_family item)) b2 = Inr b3" "appended ?R 40 True b b3"
      "bf_memory b3 = mem_store (?p + 16) (int_bytes (ai_family item)) (bf_memory b2)"
    by (rule appended_store [OF assms(1) b2(2) fit(1,2)]) (use fit in auto)
  obtain b4 where b4: "buffer_store (?p + 20) (item_address item) b3 = Inr b4" "appended ?R 40 True b b4"
      "bf_memory b4 = mem_store (?p + 20) (item_address item) (bf_memory b3)"
    by (rule appended_store [OF assms(1) b3(2) fit(3,4)]) (use fit in auto)
  have zeros: "mem_load ?p 8 (mem_store ?p (replicate 40 0) (bf_memory b)) = replicate 8 0"
  proof -
    have "mem_load ?p 40 (mem_store ?p (replicate 40 0) (bf_memory b)) = replicate 8 0 @ replicate 32 0"
      by (simp add: mem_load_store_same replicate_add [symmetric])
    then show ?thesis using mem_load_prefix by fastforce
  qed
  have load: "mem_load ?p 8 (bf_memory b4) = replicate 8 0"
    using zeros assms(4) by (cases place) (auto simp: b1(4) b2(3) b3(3) b4(3) mem_load_store_other)
  have place: "\<forall>a. place = Some a \<longrightarrow> mem_load a 8 (bf_memory b4) = ptr_bytes ?p"
    using assms(4) by (auto simp: b2(3) b3(3) b4(3) mem_load_store_other mem_load_store_same)
  have item: "mem_load (?p + 16) 4 (bf_memory b4) = int_bytes (ai_family item)"
    "mem_load (?p + 20) (length (item_address item)) (bf_memory b4) = item_address item"
    by (simp_all add: b3(3) b4(3) mem_load_store_other mem_load_store_same)
  have ex: "extract_address item (?p + 20) b3 = Inr b4" using b4(1) by (simp add: extract_address_eq [OF assms(2)])
  show ?thesis by (rule that [OF b1(1) b2(1) b3(1) ex b4(2) b1(3) load item place])
qed

definition tuples_need :: "string option \<Rightarrow> addrinfo_result list \<Rightarrow> nat" where
  "tuples_need name items = (if items = [] then 0 else TUPLE_SIZE * length items + name_need name)"

lemma tuples_need_None [simp]: "tuples_need None items = TUPLE_SIZE * length items"
  by (simp add: tuples_need_def name_need_def)

text \<open>What the chain of a suffix of the items must look like, in every memory that agrees with the buffer.\<close>

definition chained :: "string option \<Rightarrow> addrinfo_result list \<Rightarrow> nat option \<Rightarrow> nat \<Rightarrow> buffer_t \<Rightarrow> bool" where
  "chained name items place head b \<longleftrightarrow> (\<forall>m. (\<forall>x < bf_data b. m x = bf_memory b x) \<longrightarrow>
     tuples_at m (chain_start place head m) (map item_tuple items) \<and>
     (items \<noteq> [] \<longrightarrow> name_at m (chain_start place head m) name))"

lemma append_tuples_ok:
  assumes "buffer_ok b" and "\<forall>item \<in> set items. item_ok item" and "\<And>str. name = Some str \<Longrightarrow> NUL \<notin> set str"
    and "\<And>a. place = Some a \<Longrightarrow> bf_start b \<le> a \<and> a + 8 \<le> bf_data b \<and> mem_load a 8 (bf_memory b) = replicate 8 0"
    and "place = None \<Longrightarrow> items \<noteq> []"
  shows "\<exists>ok head' b'. append_tuples name items place head b =
      Inr (if ok then NSS_STATUS_SUCCESS else NSS_STATUS_TRYAGAIN, head', b') \<and> (place \<noteq> None \<longrightarrow> head' = head) \<and>
    appended (place_region place) (tuples_need name items) ok b b' \<and> (ok \<longrightarrow> chained name items place head' b')"
  using assms
proof (induction items arbitrary: name place head b)
  case Nil
  then obtain a where a: "place = Some a" "a + 8 \<le> bf_data b" "mem_load a 8 (bf_memory b) = replicate 8 0" by auto
  have "load_ptr a m = 0" if "\<forall>x < bf_data b. m x = bf_memory b x" for m
  proof -
    have "mem_load a 8 m = mem_load a 8 (bf_memory b)" by (rule mem_load_cong) (use that a(2) in simp)
    then show ?thesis by (simp add: load_ptr_def a(3))
  qed
  then show ?case using appended_refl [OF Nil(1)] a(1)
    by (intro exI [of _ True] exI [of _ head] exI [of _ b]) (simp add: tuples_need_def chained_def chain_start_def)
next
  case (Cons item items)
  let ?p = "bf_data b" and ?R = "place_region place" and ?need = "tuples_need name (item # items)"
  have item: "item_ok item" "\<forall>item \<in> set items. item_ok item" using Cons.prems(2) by simp_all
  have place: "\<And>a. place = Some a \<Longrightarrow> bf_start b \<le> a \<and> a + 8 \<le> bf_data b" using Cons.prems(4) by blast
  have need: "?need = 40 + name_need name + 40 * length items" by (simp add: tuples_need_def)
  show ?case
  proof (cases "40 \<le> bf_length b")
    case False
    let ?b = "b\<lparr>bf_errno := ERANGE\<rparr>"
    have f: "append_bytes (replicate 40 0) b = (0, ?b)" "appended ?R 40 False b ?b"
      using append_bytes_full [OF Cons.prems(1), of "replicate 40 0" ?R] False by simp_all
    obtain b2 where "set_result place 0 head ?b = Inr (if place = None then 0 else head, b2)" "appended ?R 40 False b b2"
      by (rule set_result_ok [OF Cons.prems(1) f(2) place, where p = 0 and head = head])
    then show ?thesis using f(1) appended_fails [of ?R 40 b b2 ?need]
      by (intro exI [of _ False] exI [of _ "if place = None then 0 else head"] exI [of _ b2]) (simp add: buffer_append_eq need)
  next
    case True
    let ?head = "if place = None then ?p else head"
    obtain b1 b2 b3 b4 where t: "append_bytes (replicate 40 0) b = (?p, b1)" "set_result place ?p head b1 = Inr (?head, b2)"
        "buffer_store (?p + 16) (int_bytes (ai_family item)) b2 = Inr b3" "extract_address item (?p + 20) b3 = Inr b4"
        "appended ?R 40 True b b4" "?p \<noteq> 0" "mem_load ?p 8 (bf_memory b4) = replicate 8 0"
        "mem_load (?p + 16) 4 (bf_memory b4) = int_bytes (ai_family item)"
        "mem_load (?p + 20) (length (item_address item)) (bf_memory b4) = item_address item"
        "\<forall>a. place = Some a \<longrightarrow> mem_load a 8 (bf_memory b4) = ptr_bytes ?p"
      by (rule append_tuple [OF Cons.prems(1) item(1) True place, where head = head])
    note d4 = appendedD [OF t(5)]
    have p: "bf_start b4 \<le> ?p" "?p + 16 \<le> bf_data b4" "bf_data b4 = ?p + 40" "?p < 2 ^ 64" "?p + 40 \<le> bf_end b"
      using Cons.prems(1) True d4(2,6) by (auto simp: buffer_ok_def)
    obtain okn b5 where n: "append_name ?p name b4 = Inr (okn, b5)" "appended {?p + 8..<?p + 16} (name_need name) okn b4 b5"
        "okn \<longrightarrow> (\<forall>m'. (\<forall>x. ?p + 8 \<le> x \<and> x < bf_data b5 \<longrightarrow> m' x = bf_memory b5 x) \<longrightarrow> name_at m' ?p name)"
      using append_name_ok [OF d4(1) p(1,2), of name] Cons.prems(3) by blast
    have a5: "appended ?R (40 + name_need name) okn b b5"
      by (rule appended_trans [OF Cons.prems(1) t(5) n(2)]) (use p in auto)
    have run: "append_tuples name (item # items) place head b =
        (if okn then append_tuples None items (Some ?p) ?head b5 else Inr (NSS_STATUS_TRYAGAIN, ?head, b5))"
      using t(1-4,6) n(1) by (simp add: buffer_append_eq)
    show ?thesis
    proof (cases okn)
      case False
      then show ?thesis using run appended_fails [of ?R _ b b5 ?need] a5
        by (intro exI [of _ False] exI [of _ ?head] exI [of _ b5]) (simp add: need)
    next
      case okn: True
      have same5: "mem_load a n (bf_memory b5) = mem_load a n (bf_memory b4)" if "a + n \<le> ?p + 40" "a + n \<le> ?p + 8 \<or> ?p + 16 \<le> a" for a n
        by (rule mem_load_cong, rule appendedD(5) [OF n(2)]) (use that p in auto)
      have d5: "bf_start b5 = bf_start b" "bf_data b5 = ?p + 40 + name_need name"
        using appendedD(2,6) [OF a5] okn by simp_all
      have "mem_load ?p 8 (bf_memory b5) = replicate 8 0" using same5 [of ?p 8] t(7) by simp
      then obtain ok head' b' where IH: "append_tuples None items (Some ?p) ?head b5 =
            Inr (if ok then NSS_STATUS_SUCCESS else NSS_STATUS_TRYAGAIN, head', b')" "head' = ?head"
          "appended (place_region (Some ?p)) (40 * length items) ok b5 b'" "ok \<longrightarrow> chained None items (Some ?p) head' b'"
        using Cons.IH [OF appendedD(1) [OF a5] item(2), of None "Some ?p" ?head] p(1) d4(2) d5 by auto
      have a': "appended ?R ?need ok b b'" unfolding need
        by (rule appended_trans [OF Cons.prems(1) _ IH(3)]) (use a5 okn p in \<open>auto simp: place_region_def\<close>)
      have "chained name (item # items) place ?head b'" if ok
        unfolding chained_def
      proof (intro allI impI)
        fix m assume m: "\<forall>x < bf_data b'. m x = bf_memory b' x"
        have ends: "bf_data b5 \<le> bf_data b'" "?p + 40 \<le> bf_data b5" using appendedD(6) [OF IH(3) \<open>ok\<close>] d5(2) by simp_all
        have same: "m x = bf_memory b5 x" if "x < bf_data b5" "x < ?p \<or> ?p + 8 \<le> x" for x
          using m that ends appendedD(5) [OF IH(3), of x] by (auto simp: place_region_def)
        have load: "mem_load a n m = mem_load a n (bf_memory b4)" if "a + n \<le> ?p \<or> ?p + 16 \<le> a \<and> a + n \<le> ?p + 40" for a n
        proof -
          have "mem_load a n m = mem_load a n (bf_memory b5)" by (rule mem_load_cong, rule same) (use that ends in auto)
          then show ?thesis using same5 [of a n] that by auto
        qed
        have "load_ptr a m = ?p" if "place = Some a" for a
          using load [of a 8] t(10) place [OF that] that le_value_ptr_bytes [OF p(4)] by (simp add: load_ptr_def)
        then have start: "chain_start place ?head m = ?p" by (auto simp: chain_start_def split: option.splits)
        have "name_at m ?p name" using n(3) okn same by auto
        moreover have "length (item_address item) \<le> 16" using length_item_address [OF item(1)] by auto
        then have "mem_load (?p + 16) 4 m = int_bytes (ai_family item)" "mem_load (?p + 20) (length (item_address item)) m = item_address item"
          using load [of "?p + 16" 4] load [of "?p + 20" "length (item_address item)"] t(8,9) by simp_all
        moreover have "tuples_at m (load_ptr ?p m) (map item_tuple items)"
          using IH(4) \<open>ok\<close> m by (simp add: chained_def chain_start_def)
        ultimately show "tuples_at m (chain_start place ?head m) (map item_tuple (item # items)) \<and>
            (item # items \<noteq> [] \<longrightarrow> name_at m (chain_start place ?head m) name)"
          unfolding start using t(6) by (simp add: item_tuple_def)
      qed
      then show ?thesis using run okn IH(1,2) a' by (intro exI [of _ ok] exI [of _ ?head] exI [of _ b']) simp
    qed
  qed
qed

text \<open>
  C34: the addresses of a host are laid out as a chain of tuples. Nothing outside of the buffer of
  the caller is written and no store fails its check. With enough room the chain that starts at the
  result has one tuple per address, in the order of the results, with its family and address, ends
  with NULL, and its first tuple has the canonical name. Otherwise the caller is told to try again
  with a larger buffer; the size that is needed is exact.
\<close>

theorem nss_tuples_layout:
  assumes "0 < bufptr" and "bufptr + buflen < 2 ^ 64" and "list \<noteq> []" and "\<forall>item \<in> set list. item_ok item"
    and "\<And>str. ai_canonname (hd list) = Some str \<Longrightarrow> NUL \<notin> set str"
  shows "\<exists>st result' b'. tuples_result (0, list) result (buffer_new bufptr buflen m) = Inr (st, result', b') \<and>
    (\<forall>x. x < bufptr \<or> bufptr + buflen \<le> x \<longrightarrow> bf_memory b' x = m x) \<and>
    (if tuples_need (ai_canonname (hd list)) list \<le> buflen
     then st = NSS_STATUS_SUCCESS \<and> tuples_at (bf_memory b') result' (map item_tuple list) \<and>
       name_at (bf_memory b') result' (ai_canonname (hd list))
     else st = NSS_STATUS_TRYAGAIN \<and> bf_errno b' = ERANGE)"
proof -
  let ?b = "buffer_new bufptr buflen m" and ?name = "ai_canonname (hd list)"
  obtain ok head b' where r: "append_tuples ?name list None result ?b =
        Inr (if ok then NSS_STATUS_SUCCESS else NSS_STATUS_TRYAGAIN, head, b')"
      "appended {} (tuples_need ?name list) ok ?b b'" "ok \<longrightarrow> chained ?name list None head b'"
    using append_tuples_ok [OF buffer_new_ok [OF assms(1,2), of m] assms(4), where name = ?name and place = None and head = result] assms(3,5)
    unfolding place_region_def option.case by blast
  have "tuples_result (0, list) result ?b = append_tuples ?name list None result ?b"
    using assms(3) by (cases list) (simp_all add: tuples_result_def)
  with r appendedD(4,5,8) [OF r(2)] assms(3) show ?thesis
    by (intro exI [of _ "if ok then NSS_STATUS_SUCCESS else NSS_STATUS_TRYAGAIN"] exI [of _ head] exI [of _ b'])
      (auto simp: buffer_new_def chained_def chain_start_def)
qed

section \<open>Witnesses\<close>

definition sample_items :: "addrinfo_result list" where
  "sample_items = [path_addrinfo (Some ''host'') ((sample_path AF_INET)\<lparr>node_address := [10, 0, 0, 1]\<rparr>),
     path_addrinfo None ((sample_path AF_INET6)\<lparr>node_address := replicate 15 0 @ [1]\<rparr>)]"

lemma sample_items_ok: "sample_items \<noteq> []" "\<forall>item \<in> set sample_items. item_ok item"
  "ai_canonname (hd sample_items) = Some ''host''"
  by (simp_all add: sample_items_def item_ok_def path_addrinfo_def path_sockaddr_def sa_family_def sample_path_def new_path_def)

theorem nss_hostent_layout_witness:
  "\<exists>he' b'. hostent_result AF_INET (0, sample_items) \<lparr>he_name = 0, he_aliases = 0, he_addrtype = 0, he_length = 0, he_addr_list = 0\<rparr>
      (buffer_new 4096 64 (\<lambda>_. 1)) = Inr (NSS_STATUS_SUCCESS, he', b') \<and>
    addr_list_at (bf_memory b') (he_addr_list he') (he_length he') [[10, 0, 0, 1]]"
proof -
  have "hostent_need AF_INET sample_items = 33"
    "map item_address (filter (\<lambda>item. ai_family item = AF_INET) sample_items) = [[10, 0, 0, 1]]"
    by code_simp+
  then show ?thesis
    using nss_hostent_layout [of 4096 64 sample_items AF_INET "\<lparr>he_name = 0, he_aliases = 0, he_addrtype = 0, he_length = 0, he_addr_list = 0\<rparr>" "\<lambda>_. 1"]
      sample_items_ok by auto
qed

theorem nss_tuples_layout_witness:
  "\<exists>result b'. tuples_result (0, sample_items) 0 (buffer_new 4096 85 (\<lambda>_. 1)) = Inr (NSS_STATUS_SUCCESS, result, b') \<and>
    tuples_at (bf_memory b') result [(AF_INET, [10, 0, 0, 1]), (AF_INET6, replicate 15 0 @ [1])]"
proof -
  have "tuples_need (Some ''host'') sample_items = 85"
    "map item_tuple sample_items = [(AF_INET, [10, 0, 0, 1]), (AF_INET6, replicate 15 0 @ [1])]"
    by code_simp+
  then show ?thesis using nss_tuples_layout [of 4096 85 sample_items 0 "\<lambda>_. 1"] sample_items_ok by auto
qed

end
