(* ===== verification/Compat_Libc.thy ===== *)
theory Compat_Libc
  imports Nsswitch
begin

text \<open>
  The replacements for functions of the C library, \<open>compat/libc.c\<close>: blocking queries of the
  static default context, which is the world here, whose results are copied to the caller.
\<close>

abbreviation EAI_OVERFLOW :: int where "EAI_OVERFLOW \<equiv> - 12"

section \<open>getaddrinfo and getnameinfo\<close>

definition compat_getaddrinfo ::
    "nat \<Rightarrow> nat \<Rightarrow> code \<Rightarrow> env \<Rightarrow> string \<Rightarrow> epoll_wait \<Rightarrow> string option \<Rightarrow> string option \<Rightarrow> addrinfo option \<Rightarrow> world \<Rightarrow>
     ((int \<times> addrinfo_result list) \<times> world) res" where
  "compat_getaddrinfo k n C E extra wait nodename servname hints wd =
     rbind (netresolve_query_getaddrinfo k n C E extra wait nodename servname hints None UD_NULL wd) (\<lambda>(q, wd).
       (case q of
          None \<Rightarrow> Inr ((EAI_SYSTEM, []), wd)
        | Some i \<Rightarrow> take_query i (\<lambda>s. rbind (netresolve_query_getaddrinfo_done n C s)
            (\<lambda>(status, result, ttl, s). Inr ((status, result), s))) wd))"

text \<open>
  The buffers of the caller are lists of bytes, or missing. A name that does not fit leaves both
  untouched; otherwise the rest of a buffer is cleared.
\<close>

definition name_length :: "string option \<Rightarrow> nat" where
  "name_length name = (case name of None \<Rightarrow> 0 | Some str \<Rightarrow> length str + 1)"

definition copy_name :: "string option \<Rightarrow> byte list \<Rightarrow> byte list" where
  "copy_name name buf = mem_read (length buf) (case name of None \<Rightarrow> [] | Some str \<Rightarrow> cstr_bytes str)"

definition copy_names ::
    "string option \<Rightarrow> string option \<Rightarrow> byte list option \<Rightarrow> byte list option \<Rightarrow> int \<times> byte list option \<times> byte list option" where
  "copy_names myhost myserv host serv =
     (if (case host of None \<Rightarrow> False | Some h \<Rightarrow> name_length myhost > length h) \<or>
         (case serv of None \<Rightarrow> False | Some v \<Rightarrow> name_length myserv > length v)
      then (EAI_OVERFLOW, host, serv)
      else (0, map_option (copy_name myhost) host, map_option (copy_name myserv) serv))"

definition compat_getnameinfo ::
    "nat \<Rightarrow> nat \<Rightarrow> code \<Rightarrow> env \<Rightarrow> string \<Rightarrow> epoll_wait \<Rightarrow> sockaddr \<Rightarrow> int \<Rightarrow> byte list option \<Rightarrow> byte list option \<Rightarrow> int \<Rightarrow> world \<Rightarrow>
     ((int \<times> byte list option \<times> byte list option) \<times> world) res" where
  "compat_getnameinfo k n C E extra wait sa salen host serv flags wd =
     rbind (netresolve_query_getnameinfo k n C E extra wait sa salen flags None UD_NULL wd) (\<lambda>(q, wd).
       (case q of
          None \<Rightarrow> Inr ((EAI_SYSTEM, host, serv), wd)
        | Some i \<Rightarrow>
            rbind (take_query i (\<lambda>s. rbind (netresolve_query_getnameinfo_done n C s)
              (\<lambda>(myhost, myserv, s). Inr ((myhost, myserv), s))) wd) (\<lambda>((myhost, myserv), wd).
                Inr (copy_names myhost myserv host serv, wd))))"

section \<open>gethostbyname and gethostbyaddr\<close>

text \<open>Without a result the query is not destroyed.\<close>

definition pick_hostent :: "nat \<Rightarrow> code \<Rightarrow> nat \<Rightarrow> world \<Rightarrow> (hostent option \<times> world) res" where
  "pick_hostent n C i wd =
     (if i < length (wd_queries wd) then
        rbind (netresolve_query_gethostbyname_done n C (focus i wd)) (\<lambda>r.
          (case r of
             Inl _ \<Rightarrow> Inr (None, wd)
           | Inr (he, ttl, s) \<Rightarrow> take_query i (\<lambda>_. Inr (Some he, s)) wd))
      else Inl Out_of_bounds)"

text \<open>The static result is replaced, unless no query could be made: then the last one is returned.\<close>

definition compat_gethostbyname2 ::
    "nat \<Rightarrow> nat \<Rightarrow> code \<Rightarrow> env \<Rightarrow> string \<Rightarrow> epoll_wait \<Rightarrow> string option \<Rightarrow> int \<Rightarrow> hostent option \<Rightarrow> world \<Rightarrow> (hostent option \<times> world) res" where
  "compat_gethostbyname2 k n C E extra wait node family he wd =
     rbind (netresolve_query_gethostbyname k n C E extra wait node family None UD_NULL wd) (\<lambda>(q, wd).
       (case q of None \<Rightarrow> Inr (he, wd) | Some i \<Rightarrow> pick_hostent n C i wd))"

definition compat_gethostbyname ::
    "nat \<Rightarrow> nat \<Rightarrow> code \<Rightarrow> env \<Rightarrow> string \<Rightarrow> epoll_wait \<Rightarrow> string option \<Rightarrow> hostent option \<Rightarrow> world \<Rightarrow> (hostent option \<times> world) res" where
  "compat_gethostbyname k n C E extra wait node = compat_gethostbyname2 k n C E extra wait node AF_INET"

definition compat_gethostbyaddr ::
    "nat \<Rightarrow> nat \<Rightarrow> code \<Rightarrow> env \<Rightarrow> string \<Rightarrow> epoll_wait \<Rightarrow> byte list \<Rightarrow> int \<Rightarrow> int \<Rightarrow> hostent option \<Rightarrow> world \<Rightarrow> (hostent option \<times> world) res" where
  "compat_gethostbyaddr k n C E extra wait addr len type he wd =
     rbind (netresolve_query_gethostbyaddr k n C E extra wait addr len type None UD_NULL wd) (\<lambda>(q, wd).
       (case q of None \<Rightarrow> Inr (he, wd)
        | Some i \<Rightarrow> take_query i (\<lambda>s. rbind (netresolve_query_gethostbyaddr_done n C s) (\<lambda>(he, ttl, s). Inr (Some he, s))) wd))"

section \<open>gethostbyname with a buffer\<close>

text \<open>
  The pointers of the copied list first are those of the heap; each is then set to the place of its
  address. Every store must stay in the buffer of the caller.
\<close>

fun copy_addresses :: "nat \<Rightarrow> nat \<Rightarrow> nat \<Rightarrow> nat \<Rightarrow> nat \<Rightarrow> byte list list \<Rightarrow> memory \<Rightarrow> memory res" where
  "copy_addresses lo hi slot data len [] m = Inr m"
| "copy_addresses lo hi slot data len (addr # addrs) m =
     rbind (store_within lo hi slot (ptr_bytes data) m) (\<lambda>m.
     rbind (store_within lo hi data (mem_read len addr) m)
       (copy_addresses lo hi (slot + PTR_SIZE) (data + len) len addrs))"

definition hostent_copy :: "hostent \<Rightarrow> nat list \<Rightarrow> nat \<Rightarrow> nat \<Rightarrow> memory \<Rightarrow> (int \<times> he_struct option \<times> memory) res" where
  "hostent_copy tmp ptrs buffer buflen m =
     (let hi = buffer + buflen;
          len_name = name_length (h_name tmp);
          len_aliases = PTR_SIZE;
          len_addr_list = PTR_SIZE * (length (h_addr_list tmp) + 1);
          len_addr_data = hostent_length tmp * length (h_addr_list tmp);
          len_total = len_aliases + len_name + len_addr_list + len_addr_data;
          aliases = buffer + len_name;
          addr_list = buffer + len_name + len_aliases
      in if len_total > buflen then Inr (ERANGE, None, m)
         else rbind (store_within buffer hi buffer (replicate buflen 0) m) (\<lambda>m.
              rbind (store_within buffer hi buffer (case h_name tmp of None \<Rightarrow> [] | Some str \<Rightarrow> cstr_bytes str) m) (\<lambda>m.
              rbind (store_within buffer hi aliases (replicate len_aliases 0) m) (\<lambda>m.
              rbind (store_within buffer hi addr_list (concat (map ptr_bytes ptrs) @ ptr_bytes 0) m) (\<lambda>m.
              rbind (copy_addresses buffer hi addr_list (addr_list + len_addr_list) (hostent_length tmp) (h_addr_list tmp) m) (\<lambda>m.
                Inr (0, Some \<lparr>he_name = buffer, he_aliases = aliases, he_addrtype = h_addrtype tmp,
                  he_length = hostent_length tmp, he_addr_list = addr_list\<rparr>, m)))))))"

definition compat_gethostbyname2_r ::
    "nat \<Rightarrow> nat \<Rightarrow> code \<Rightarrow> env \<Rightarrow> string \<Rightarrow> epoll_wait \<Rightarrow> string option \<Rightarrow> int \<Rightarrow> int \<Rightarrow> (hostent \<Rightarrow> nat list) \<Rightarrow> nat \<Rightarrow> nat \<Rightarrow> memory \<Rightarrow> world \<Rightarrow>
     ((int \<times> he_struct option \<times> memory) \<times> world) res" where
  "compat_gethostbyname2_r k n C E extra wait name family errno heap buffer buflen m wd =
     rbind (netresolve_query_gethostbyname k n C E extra wait name family None UD_NULL wd) (\<lambda>(q, wd).
       (case q of
          None \<Rightarrow> Inr ((errno, None, m), wd)
        | Some i \<Rightarrow>
            rbind (pick_hostent n C i wd) (\<lambda>(tmp, wd).
              (case tmp of
                 None \<Rightarrow> Inl Null_dereference
               | Some he \<Rightarrow> rbind (hostent_copy he (heap he) buffer buflen m) (\<lambda>r. Inr (r, wd))))))"

definition compat_gethostbyname_r ::
    "nat \<Rightarrow> nat \<Rightarrow> code \<Rightarrow> env \<Rightarrow> string \<Rightarrow> epoll_wait \<Rightarrow> string option \<Rightarrow> int \<Rightarrow> (hostent \<Rightarrow> nat list) \<Rightarrow> nat \<Rightarrow> nat \<Rightarrow> memory \<Rightarrow> world \<Rightarrow>
     ((int \<times> he_struct option \<times> memory) \<times> world) res" where
  "compat_gethostbyname_r k n C E extra wait name = compat_gethostbyname2_r k n C E extra wait name AF_INET"

section \<open>DNS queries\<close>

text \<open>
  The answer is copied when it fits; its length is returned either way. A NULL query is passed on to
  \<open>netresolve_query_free\<close>, which follows it. The argument for searching is not used.
\<close>

definition compat_res_query_search ::
    "nat \<Rightarrow> nat \<Rightarrow> code \<Rightarrow> env \<Rightarrow> string \<Rightarrow> epoll_wait \<Rightarrow> string option \<Rightarrow> int \<Rightarrow> int \<Rightarrow> bool \<Rightarrow> byte list \<Rightarrow> world \<Rightarrow> ((int \<times> byte list) \<times> world) res" where
  "compat_res_query_search k n C E extra wait dname cls type search answer wd =
     rbind (netresolve_query_dns k n C E extra wait dname cls type None UD_NULL wd) (\<lambda>(q, wd).
       (case q of
          None \<Rightarrow> Inl Null_dereference
        | Some i \<Rightarrow>
            if i < length (wd_queries wd) then
              (case netresolve_query_get_dns_answer (wd_queries wd ! i) of (myanswer, mylength) \<Rightarrow>
                (let buf = (if mylength > length answer then answer
                            else (case myanswer of None \<Rightarrow> answer | Some a \<Rightarrow> mem_write mylength a answer))
                 in rbind (free_query n C i wd) (\<lambda>wd. Inr ((to_int (int mylength), buf), wd))))
            else Inl Out_of_bounds))"

definition compat_res_query ::
    "nat \<Rightarrow> nat \<Rightarrow> code \<Rightarrow> env \<Rightarrow> string \<Rightarrow> epoll_wait \<Rightarrow> string option \<Rightarrow> int \<Rightarrow> int \<Rightarrow> byte list \<Rightarrow> world \<Rightarrow> ((int \<times> byte list) \<times> world) res" where
  "compat_res_query k n C E extra wait dname cls type = compat_res_query_search k n C E extra wait dname cls type False"

definition compat_res_search ::
    "nat \<Rightarrow> nat \<Rightarrow> code \<Rightarrow> env \<Rightarrow> string \<Rightarrow> epoll_wait \<Rightarrow> string option \<Rightarrow> int \<Rightarrow> int \<Rightarrow> byte list \<Rightarrow> world \<Rightarrow> ((int \<times> byte list) \<times> world) res" where
  "compat_res_search k n C E extra wait dname cls type = compat_res_query_search k n C E extra wait dname cls type True"

section \<open>What the caller finds in the buffer\<close>

lemma copy_addresses_ok:
  assumes "0 < lo" and "lo \<le> slot" and "slot + 8 * (length addrs + 1) \<le> data" and "data + len * length addrs \<le> hi" and "hi < 2 ^ 64"
    and "load_ptr (slot + 8 * length addrs) m = 0"
  shows "\<exists>m'. copy_addresses lo hi slot data len addrs m = Inr m' \<and>
    (\<forall>x. x < slot \<or> slot + 8 * length addrs \<le> x \<and> x < data \<or> data + len * length addrs \<le> x \<longrightarrow> m' x = m x) \<and>
    addr_list_at m' slot len (map (mem_read len) addrs)"
  using assms(2-4,6)
proof (induction addrs arbitrary: slot data m)
  case (Cons addr addrs)
  let ?m = "mem_store data (mem_read len addr) (mem_store slot (ptr_bytes data) m)"
  have "mem_load (slot + 8 * Suc (length addrs)) 8 ?m = mem_load (slot + 8 * Suc (length addrs)) 8 m"
    using Cons.prems(2) by (simp add: mem_load_store_other)
  then have z: "load_ptr (slot + 8 + 8 * length addrs) ?m = 0" using Cons.prems(4) by (simp add: load_ptr_def add.assoc)
  obtain m' where m': "copy_addresses lo hi (slot + 8) (data + len) len addrs ?m = Inr m'"
      "\<And>x. x < slot + 8 \<or> slot + 8 + 8 * length addrs \<le> x \<and> x < data + len \<or> data + len + len * length addrs \<le> x \<Longrightarrow> m' x = ?m x"
      "addr_list_at m' (slot + 8) len (map (mem_read len) addrs)"
    using Cons.IH [of "slot + 8" "data + len" ?m] z Cons.prems(1-3) by auto
  have "copy_addresses lo hi slot data len (addr # addrs) m = Inr m'"
    using m'(1) Cons.prems(1-3) by (simp add: store_within_def)
  moreover have "m' x = m x" if "x < slot \<or> slot + 8 * length (addr # addrs) \<le> x \<and> x < data \<or> data + len * length (addr # addrs) \<le> x" for x
    using that m'(2) [of x] Cons.prems(2) by (auto simp: mem_store_other)
  moreover have "mem_load slot 8 m' = mem_load slot 8 ?m" "mem_load data len m' = mem_load data len ?m"
    using m'(2) Cons.prems(2) by (auto intro!: mem_load_cong)
  then have "load_ptr slot m' = data" "mem_load data len m' = mem_read len addr"
    using load_ptr_store [of data slot m] Cons.prems(2,3) assms(5)
    by (simp_all add: load_ptr_def mem_load_store_same mem_load_store_other)
  ultimately show ?case using m'(3) Cons.prems(1,2) assms(1) by auto
qed simp

definition hostent_copy_need :: "hostent \<Rightarrow> nat" where
  "hostent_copy_need tmp = name_length (h_name tmp) + 16 + (8 + hostent_length tmp) * length (h_addr_list tmp)"

lemma length_concat_ptrs [simp]: "length (concat (map ptr_bytes ptrs)) = 8 * length ptrs"
  by (induction ptrs) simp_all

text \<open>
  C36: the reentrant \<open>gethostbyname\<close> copies its result into the buffer of the caller, and nothing
  outside of it: with enough room the name and the list of pointers are found there, which ends with
  NULL and leads to all the addresses in order; otherwise, and only then, \<open>ERANGE\<close> is returned
  and the buffer is untouched. This needs one pointer of the heap for each address.
\<close>

theorem gethostbyname_r_layout:
  assumes "0 < buffer" and "buffer + buflen < 2 ^ 64" and "length ptrs = length (h_addr_list tmp)"
  shows "\<exists>r m'. hostent_copy tmp ptrs buffer buflen m = Inr (if hostent_copy_need tmp \<le> buflen then 0 else ERANGE, r, m') \<and>
    (\<forall>x. x < buffer \<or> buffer + buflen \<le> x \<longrightarrow> m' x = m x) \<and>
    (if hostent_copy_need tmp \<le> buflen
     then \<exists>he. r = Some he \<and> he_addrtype he = h_addrtype tmp \<and> he_length he = hostent_length tmp \<and> load_ptr (he_aliases he) m' = 0 \<and>
       addr_list_at m' (he_addr_list he) (he_length he) (map (mem_read (he_length he)) (h_addr_list tmp)) \<and>
       (\<forall>str. h_name tmp = Some str \<longrightarrow> mem_load (he_name he) (Suc (length str)) m' = cstr_bytes str)
     else r = None \<and> m' = m)"
proof -
  let ?n = "name_length (h_name tmp)" and ?k = "length (h_addr_list tmp)" and ?L = "hostent_length tmp"
  let ?name = "case h_name tmp of None \<Rightarrow> [] | Some str \<Rightarrow> cstr_bytes str"
  let ?al = "buffer + ?n + 8" and ?hi = "buffer + buflen"
  let ?data = "?al + 8 * (?k + 1)"
  have total: "8 + ?n + 8 * (?k + 1) + ?L * ?k = hostent_copy_need tmp" by (simp add: hostent_copy_need_def algebra_simps)
  have name: "length ?name = ?n" by (simp add: name_length_def split: option.splits)
  show ?thesis
  proof (cases "hostent_copy_need tmp \<le> buflen")
    case False
    then show ?thesis by (intro exI [of _ None] exI [of _ m]) (simp add: hostent_copy_def Let_def total [symmetric])
  next
    case True
    then have fit: "?data + ?L * ?k \<le> ?hi" using total by simp
    define m1 where "m1 = mem_store (buffer + ?n) (replicate 8 0) (mem_store buffer ?name (mem_store buffer (replicate buflen 0) m))"
    define m2 where "m2 = mem_store ?al (concat (map ptr_bytes ptrs) @ ptr_bytes 0) m1"
    have "mem_load ?al (8 * ?k + 8) m2 = concat (map ptr_bytes ptrs) @ ptr_bytes 0"
      unfolding m2_def by (rule mem_load_store_same) (simp add: assms(3))
    then have "mem_load (?al + 8 * ?k) 8 m2 = ptr_bytes 0" unfolding mem_load_add by (simp add: append_eq_append_conv assms(3))
    then have z: "load_ptr (?al + 8 * ?k) m2 = 0" by (simp add: load_ptr_def le_value_ptr_bytes)
    obtain m' where m': "copy_addresses buffer ?hi ?al ?data ?L (h_addr_list tmp) m2 = Inr m'"
        "\<And>x. x < ?al \<or> ?al + 8 * ?k \<le> x \<and> x < ?data \<or> ?data + ?L * ?k \<le> x \<Longrightarrow> m' x = m2 x"
        "addr_list_at m' ?al ?L (map (mem_read ?L) (h_addr_list tmp))"
      using copy_addresses_ok [OF assms(1) _ _ fit assms(2) z] by auto
    let ?he = "\<lparr>he_name = buffer, he_aliases = buffer + ?n, he_addrtype = h_addrtype tmp, he_length = ?L, he_addr_list = ?al\<rparr>"
    have run: "hostent_copy tmp ptrs buffer buflen m = Inr (0, Some ?he, m')"
      using m'(1) fit True total assms(3)
      by (simp add: hostent_copy_def Let_def store_within_def name m1_def m2_def add.assoc)
    have frame: "m' x = m x" if "x < buffer \<or> ?hi \<le> x" for x
    proof -
      have "m' x = m2 x" by (rule m'(2)) (use that fit in auto)
      also have "\<dots> = m x" unfolding m2_def m1_def using that fit by (auto simp: mem_store_def name assms(3))
      finally show ?thesis .
    qed
    have low: "mem_load a n m' = mem_load a n m1" if "a + n \<le> ?al" for a n
    proof -
      have "mem_load a n m' = mem_load a n m2" by (rule mem_load_cong, rule m'(2)) (use that in simp)
      then show ?thesis using that by (simp add: m2_def mem_load_store_other)
    qed
    have al: "load_ptr (buffer + ?n) m' = 0" using low [of "buffer + ?n" 8] by (simp add: load_ptr_def m1_def mem_load_store_same)
    have "mem_load buffer ?n m' = ?name" using low [of buffer ?n] by (simp add: m1_def mem_load_store_same mem_load_store_other name)
    then have nm: "\<forall>str. h_name tmp = Some str \<longrightarrow> mem_load buffer (Suc (length str)) m' = cstr_bytes str" by (auto simp: name_length_def)
    show ?thesis using True run frame al nm m'(3)
      by (intro exI [of _ "Some ?he"] exI [of _ m']) simp
  qed
qed

theorem gethostbyname_r_layout_witness:
  "\<exists>he m'. hostent_copy \<lparr>h_name = Some ''host'', h_addrtype = AF_INET, h_addr_list = [[10, 0, 0, 1], [10, 0, 0, 2]]\<rparr> [64, 128] 4096 45 (\<lambda>_. 1) =
      Inr (0, Some he, m') \<and> addr_list_at m' (he_addr_list he) (he_length he) [[10, 0, 0, 1], [10, 0, 0, 2]]"
proof -
  let ?h = "\<lparr>h_name = Some ''host'', h_addrtype = AF_INET, h_addr_list = [[10, 0, 0, 1], [10, 0, 0, 2]]\<rparr>"
  have need: "hostent_copy_need ?h = 45" by (simp add: hostent_copy_need_def name_length_def hostent_length_def)
  obtain he m' where "hostent_copy ?h [64, 128] 4096 45 (\<lambda>_. 1) = Inr (0, Some he, m')"
      "addr_list_at m' (he_addr_list he) (he_length he) (map (mem_read (he_length he)) (h_addr_list ?h))" "he_length he = 4"
    using gethostbyname_r_layout [of 4096 45 "[64, 128]" ?h "\<lambda>_. 1"] need by (auto simp: hostent_length_def)
  then show ?thesis by (auto simp: mem_read_def numeral_eq_Suc)
qed

end
