(* ===== verification/Asyncns.thy ===== *)
theory Asyncns
  imports Compat_Libc Blocking
begin

text \<open>
  The front end with the interface of libasyncns, \<open>compat/asyncns.c\<close>: a context with an epoll
  loop and a list of pending requests, each of which owns a query of the context. A request is named
  by a number that is also the user data of its query; its \<open>done\<close> flag is set by the callback of
  the query, so that it is the same as the callback having been called. The list itself is the one
  of \<open>Links\<close>.
\<close>

section \<open>Requests\<close>

record asyncns_query =
  aq_id :: nat
  aq_query :: nat
  aq_userdata :: nat

record asyncns =
  an_world :: world
  an_queries :: "asyncns_query list"
  an_next :: nat

definition asyncns_new :: "env \<Rightarrow> os \<Rightarrow> asyncns res" where
  "asyncns_new E o1 =
     rbind (netresolve_epoll_new E o1) (\<lambda>(o2, c).
       Inr \<lparr>an_world = \<lparr>wd_os = o2, wd_ctx = c, wd_queries = []\<rparr>, an_queries = [], an_next = 0\<rparr>)"

definition asyncns_fd :: "asyncns \<Rightarrow> (int \<times> asyncns) res" where
  "asyncns_fd a =
     rbind (netresolve_epoll_fd (wd_os (an_world a)) (wd_ctx (an_world a))) (\<lambda>(fd, o1, c).
       Inr (fd, a\<lparr>an_world := (an_world a)\<lparr>wd_os := o1, wd_ctx := c\<rparr>\<rparr>))"

definition asyncns_wait :: "nat \<Rightarrow> nat \<Rightarrow> code \<Rightarrow> epoll_wait \<Rightarrow> bool \<Rightarrow> asyncns \<Rightarrow> asyncns res" where
  "asyncns_wait k n C wait block a =
     rbind ((if block then netresolve_epoll_wait else netresolve_epoll_dispatch) k n C wait (an_world a)) (\<lambda>wd.
       Inr (a\<lparr>an_world := wd\<rparr>))"

text \<open>Adding takes the query that was just made, or nothing when none could be made.\<close>

definition add_query :: "nat option \<times> world \<Rightarrow> asyncns \<Rightarrow> nat option \<times> asyncns" where
  "add_query = (\<lambda>(q, wd) a.
     (case q of
        None \<Rightarrow> (None, a\<lparr>an_world := wd\<rparr>)
      | Some i \<Rightarrow> (Some (an_next a), a\<lparr>an_world := wd, an_next := Suc (an_next a),
          an_queries := an_queries a @ [\<lparr>aq_id = an_next a, aq_query = i, aq_userdata = 0\<rparr>]\<rparr>)))"

definition find_query :: "nat \<Rightarrow> asyncns \<Rightarrow> asyncns_query res" where
  "find_query rid a = (case find (\<lambda>q. aq_id q = rid) (an_queries a) of None \<Rightarrow> Inl Out_of_bounds | Some q \<Rightarrow> Inr q)"

text \<open>
  Removing a request; its query is about to be destroyed, after which the later queries of the
  context have moved up by one place.
\<close>

definition remove_query :: "nat \<Rightarrow> asyncns \<Rightarrow> (nat \<times> asyncns) res" where
  "remove_query rid a =
     rbind (find_query rid a) (\<lambda>q.
       Inr (aq_query q, a\<lparr>an_queries :=
         map (\<lambda>x. if aq_query x > aq_query q then x\<lparr>aq_query := aq_query x - 1\<rparr> else x)
           (filter (\<lambda>x. aq_id x \<noteq> rid) (an_queries a))\<rparr>))"

definition pick_up :: "nat \<Rightarrow> (sys \<Rightarrow> ('a \<times> sys) res) \<Rightarrow> asyncns \<Rightarrow> ('a \<times> asyncns) res" where
  "pick_up rid f a =
     rbind (remove_query rid a) (\<lambda>(i, a).
     rbind (take_query i f (an_world a)) (\<lambda>(r, wd). Inr (r, a\<lparr>an_world := wd\<rparr>)))"

section \<open>Making and completing requests\<close>

definition asyncns_getaddrinfo ::
    "nat \<Rightarrow> nat \<Rightarrow> code \<Rightarrow> env \<Rightarrow> string \<Rightarrow> epoll_wait \<Rightarrow> string option \<Rightarrow> string option \<Rightarrow> addrinfo option \<Rightarrow> asyncns \<Rightarrow> (nat option \<times> asyncns) res" where
  "asyncns_getaddrinfo k n C E extra wait node service hints a =
     rbind (netresolve_query_getaddrinfo k n C E extra wait node service hints
         (Some (QC_application (an_next a))) (UD_application (an_next a)) (an_world a)) (\<lambda>r. Inr (add_query r a))"

definition asyncns_getaddrinfo_done :: "nat \<Rightarrow> code \<Rightarrow> nat \<Rightarrow> asyncns \<Rightarrow> ((int \<times> addrinfo_result list) \<times> asyncns) res" where
  "asyncns_getaddrinfo_done n C rid =
     pick_up rid (\<lambda>s. rbind (netresolve_query_getaddrinfo_done n C s) (\<lambda>(status, result, ttl, s). Inr ((status, result), s)))"

definition asyncns_getnameinfo ::
    "nat \<Rightarrow> nat \<Rightarrow> code \<Rightarrow> env \<Rightarrow> string \<Rightarrow> epoll_wait \<Rightarrow> sockaddr \<Rightarrow> int \<Rightarrow> int \<Rightarrow> asyncns \<Rightarrow> (nat option \<times> asyncns) res" where
  "asyncns_getnameinfo k n C E extra wait sa salen flags a =
     rbind (netresolve_query_getnameinfo k n C E extra wait sa salen flags
         (Some (QC_application (an_next a))) (UD_application (an_next a)) (an_world a)) (\<lambda>r. Inr (add_query r a))"

text \<open>
  The names are copied when both buffers are at most as long as their name, and refused otherwise.
  A copy that is longer than its buffer writes behind it; a missing name is passed to \<open>strlen\<close>.
\<close>

definition store_names :: "string option \<Rightarrow> string option \<Rightarrow> byte list \<Rightarrow> byte list \<Rightarrow> (int \<times> byte list \<times> byte list) res" where
  "store_names myhost myserv host serv =
     (case (myhost, myserv) of
        (Some h, Some v) \<Rightarrow>
          if length host \<le> length h + 1 \<and> length serv \<le> length v + 1 then
            if length h + 1 \<le> length host \<and> length v + 1 \<le> length serv
            then Inr (0, mem_write (length h + 1) (cstr_bytes h) host, mem_write (length v + 1) (cstr_bytes v) serv)
            else Inl Out_of_bounds
          else Inr (ERANGE, host, serv)
      | _ \<Rightarrow> Inl Null_dereference)"

definition asyncns_getnameinfo_done ::
    "nat \<Rightarrow> code \<Rightarrow> nat \<Rightarrow> byte list \<Rightarrow> byte list \<Rightarrow> asyncns \<Rightarrow> ((int \<times> byte list \<times> byte list) \<times> asyncns) res" where
  "asyncns_getnameinfo_done n C rid host serv a =
     rbind (pick_up rid (\<lambda>s. rbind (netresolve_query_getnameinfo_done n C s) (\<lambda>(h, v, s). Inr ((h, v), s))) a) (\<lambda>((h, v), a).
     rbind (store_names h v host serv) (\<lambda>r. Inr (r, a)))"

definition asyncns_res_query ::
    "nat \<Rightarrow> nat \<Rightarrow> code \<Rightarrow> env \<Rightarrow> string \<Rightarrow> epoll_wait \<Rightarrow> string option \<Rightarrow> int \<Rightarrow> int \<Rightarrow> asyncns \<Rightarrow> (nat option \<times> asyncns) res" where
  "asyncns_res_query k n C E extra wait dname cls type a =
     rbind (netresolve_query_dns k n C E extra wait dname cls type
         (Some (QC_application (an_next a))) (UD_application (an_next a)) (an_world a)) (\<lambda>r. Inr (add_query r a))"

definition asyncns_res_search ::
    "nat \<Rightarrow> nat \<Rightarrow> code \<Rightarrow> env \<Rightarrow> string \<Rightarrow> epoll_wait \<Rightarrow> string option \<Rightarrow> int \<Rightarrow> int \<Rightarrow> asyncns \<Rightarrow> (nat option \<times> asyncns) res" where
  "asyncns_res_search = asyncns_res_query"

definition asyncns_res_done :: "nat \<Rightarrow> code \<Rightarrow> nat \<Rightarrow> asyncns \<Rightarrow> (byte list \<times> asyncns) res" where
  "asyncns_res_done n C rid =
     pick_up rid (\<lambda>s. rbind (netresolve_query_free n C s) (\<lambda>s'.
       Inr (case fst (netresolve_query_get_dns_answer (s_query s)) of None \<Rightarrow> [] | Some answer \<Rightarrow> answer, s')))"

section \<open>Bookkeeping\<close>

definition asyncns_isdone :: "asyncns \<Rightarrow> asyncns_query \<Rightarrow> bool" where
  "asyncns_isdone a q \<longleftrightarrow> QC_application (aq_id q) \<in> fst ` set (os_calls (wd_os (an_world a)))"

definition asyncns_getnext :: "asyncns \<Rightarrow> nat option" where
  "asyncns_getnext a = map_option aq_id (find (asyncns_isdone a) (an_queries a))"

definition asyncns_getnqueries :: "asyncns \<Rightarrow> nat" where
  "asyncns_getnqueries a = length (an_queries a)"

definition asyncns_cancel :: "nat \<Rightarrow> code \<Rightarrow> nat \<Rightarrow> asyncns \<Rightarrow> asyncns res" where
  "asyncns_cancel n C rid a =
     rbind (pick_up rid (\<lambda>s. rbind (netresolve_query_free n C s) (\<lambda>s. Inr ((), s))) a) (\<lambda>(_, a). Inr a)"

definition asyncns_free :: "nat \<Rightarrow> code \<Rightarrow> env \<Rightarrow> string \<Rightarrow> asyncns \<Rightarrow> os res" where
  "asyncns_free n C E extra a =
     rbind (foreach (asyncns_cancel n C) (map aq_id (an_queries a)) a) (\<lambda>a.
       netresolve_context_free n C E extra (an_world a))"

definition asyncns_setuserdata :: "nat \<Rightarrow> nat \<Rightarrow> asyncns \<Rightarrow> asyncns" where
  "asyncns_setuserdata rid data a =
     a\<lparr>an_queries := map (\<lambda>q. if aq_id q = rid then q\<lparr>aq_userdata := data\<rparr> else q) (an_queries a)\<rparr>"

definition asyncns_getuserdata :: "nat \<Rightarrow> asyncns \<Rightarrow> nat res" where
  "asyncns_getuserdata rid a = rbind (find_query rid a) (\<lambda>q. Inr (aq_userdata q))"

section \<open>Every request owns a query\<close>

text \<open>
  The requests of the front end and the queries of its context correspond to each other in order,
  and the numbers of the requests are distinct.
\<close>

definition asyncns_ok :: "asyncns \<Rightarrow> bool" where
  "asyncns_ok a \<longleftrightarrow> map aq_query (an_queries a) = [0..<length (wd_queries (an_world a))] \<and>
     distinct (map aq_id (an_queries a)) \<and> (\<forall>q \<in> set (an_queries a). aq_id q < an_next a)"

lemma remove_nth_upt:
  assumes "map f xs = [0..<n]" and "i < n" and "distinct (map g xs)" and "\<And>x. x \<in> set xs \<Longrightarrow> P x \<longleftrightarrow> g x \<noteq> g (xs ! i)"
  shows "map (\<lambda>x. if f x > i then f x - 1 else f x) (filter P xs) = [0..<n - 1]"
proof -
  have len: "length xs = n" using arg_cong [OF assms(1), of length] by simp
  have f: "f (xs ! j) = j" if "j < n" for j using that assms(1) len by (metis add_0 nth_map nth_upt)
  have split: "xs = take i xs @ xs ! i # drop (Suc i) xs" using assms(2) len by (simp add: id_take_nth_drop)
  have before: "P x" if "x \<in> set (take i xs)" for x
  proof -
    obtain j where "j < i" "x = xs ! j" using \<open>x \<in> set (take i xs)\<close> assms(2) len by (auto simp: in_set_conv_nth)
    then show ?thesis using assms(2-4) len nth_eq_iff_index_eq [OF assms(3), of j i] by auto
  qed
  have after: "P x" if "x \<in> set (drop (Suc i) xs)" for x
  proof -
    obtain j where "j < n - Suc i" "x = xs ! (Suc i + j)" using \<open>x \<in> set (drop (Suc i) xs)\<close> len by (auto simp: in_set_conv_nth)
    then show ?thesis using assms(2-4) len nth_eq_iff_index_eq [OF assms(3), of "Suc i + j" i] by auto
  qed
  have "\<not> P (xs ! i)" using assms(2,4) len by simp
  then have "filter P (take i xs @ xs ! i # drop (Suc i) xs) = take i xs @ drop (Suc i) xs"
    using before after by (simp add: filter_True)
  then have "filter P xs = take i xs @ drop (Suc i) xs" using split by simp
  moreover have "map (\<lambda>x. if f x > i then f x - 1 else f x) (take i xs @ drop (Suc i) xs) = [0..<n - 1]"
    by (rule nth_equalityI) (use assms(2) len f in \<open>auto simp: nth_append min_def\<close>)
  ultimately show ?thesis by simp
qed

text \<open>The number of queries of a context changes only where queries are made and destroyed.\<close>

abbreviation counts :: "nat \<Rightarrow> world \<Rightarrow> bool" where
  "counts l wd \<equiv> length (wd_queries wd) = l"

lemma on_query_count: "counts l wd \<Longrightarrow> returns UNIV (on_query i f wd) (counts l)"
  by (cases "f (focus i wd)") (simp_all add: on_query_def unfocus_def)

lemma dispatch_events_count: "counts l wd \<Longrightarrow> returns UNIV (dispatch_events n C wait wd) (\<lambda>(_, wd'). counts l wd')"
proof -
  assume l: "counts l wd"
  have step: "returns UNIV (dispatch_pending n C i wd1) (counts l)" if "counts l wd1" for i wd1
    using that on_query_count [OF that]
    by (auto simp: dispatch_pending_def netresolve_dispatch_def split: prod.splits option.splits)
  have run: "returns UNIV (rbind (foreach (dispatch_pending n C) xs wd1) (\<lambda>wd. Inr (k, wd))) (\<lambda>(_, wd'). counts l wd')" if "counts l wd1" for xs wd1 k
    by (rule returns_bind [OF returns_foreach [where P = "counts l"]]) (use step that in auto)
  show ?thesis
  proof (cases "wait (os_clock (wd_os wd)) (cx_epoll (wd_ctx wd))")
    case (Some evs)
    show ?thesis unfolding dispatch_events_def Some option.case Let_def by (rule run) (use l in \<open>simp add: upd_epoll_def\<close>)
  qed (simp add: dispatch_events_def)
qed

lemma epoll_wait_count: "counts l wd \<Longrightarrow> returns UNIV (netresolve_epoll_wait k n C wait wd) (counts l)"
proof (induction k arbitrary: wd)
  case (Suc k)
  have "returns UNIV (rbind (dispatch_events n C wait wd) (\<lambda>(_, wd). netresolve_epoll_wait k n C wait wd)) (counts l)"
    by (rule returns_bind [OF dispatch_events_count [OF Suc.prems]]) (use Suc.IH in \<open>auto split: prod.splits\<close>)
  then show ?case using Suc.prems by simp
qed simp

lemma epoll_dispatch_count: "counts l wd \<Longrightarrow> returns UNIV (netresolve_epoll_dispatch k n C wait wd) (counts l)"
proof (induction k arbitrary: wd)
  case (Suc k)
  show ?case unfolding netresolve_epoll_dispatch.simps
    by (rule returns_bind [OF dispatch_events_count [OF Suc.prems]]) (use Suc.IH in \<open>auto split: prod.splits\<close>)
qed simp

lemma take_query_count: "counts l wd \<Longrightarrow> returns UNIV (take_query i f wd) (\<lambda>(_, wd'). counts (l - 1) wd' \<and> i < l)"
  by (cases "f (focus i wd)") (auto simp: take_query_def unfocus_def Let_def)

text \<open>A query that is made is the last of its context.\<close>

fun made :: "nat \<Rightarrow> nat option \<times> world \<Rightarrow> bool" where
  "made l (None, wd) \<longleftrightarrow> counts l wd"
| "made l (Some i, wd) \<longleftrightarrow> i = l \<and> counts (Suc l) wd"

lemma free_query_count: "counts (Suc l) wd \<Longrightarrow> i = l \<Longrightarrow> returns UNIV (free_query n C i wd) (counts l)"
  unfolding free_query_def by (rule returns_bind [OF on_query_count]) auto

lemma prepare_query_count:
  assumes "counts l wd" shows "returns UNIV (prepare_query n C E extra callback data type opts wd) (made l)"
proof -
  have new: "returns UNIV (netresolve_query_new E extra type wd) (\<lambda>(i, wd'). i = l \<and> counts (Suc l) wd')"
    using assms by (auto simp: netresolve_query_new_def Let_def)
  show ?thesis
    unfolding prepare_query_def
  proof (rule returns_bind [OF new])
    fix p :: "nat \<times> world" assume "case p of (i, wd') \<Rightarrow> i = l \<and> counts (Suc l) wd'"
    then obtain wd1 where p: "p = (l, wd1)" "counts (Suc l) wd1" by (cases p) auto
    have "returns UNIV (rbind (free_query n C l wd2) (\<lambda>wd. Inr (None, wd))) (made l)" if "counts (Suc l) wd2" for wd2
      by (rule returns_bind [OF free_query_count [OF that refl]]) simp
    moreover have "returns UNIV (rbind (netresolve_epoll_install b o1 c) (\<lambda>(x, o2, c2). Inr (Some l, wd2\<lparr>wd_os := o2, wd_ctx := c2\<rparr>))) (made l)"
      if "counts (Suc l) wd2" for b o1 c wd2
      by (rule returns_bind [where P = "\<lambda>_. True"]) (use that in \<open>auto simp: returns_def split: sum.splits\<close>)
    ultimately show "returns UNIV (case p of (i, wd) \<Rightarrow>
        (case netresolve_request_set_options_from_va (q_request (wd_queries wd ! i)) opts of (ok, r) \<Rightarrow>
         (let r = (if ok \<and> cx_force_family (wd_ctx wd) \<noteq> 0 then r\<lparr>rq_family := cx_force_family (wd_ctx wd)\<rparr> else r);
              q = (wd_queries wd ! i)\<lparr>q_callback := callback, q_user_data := data, q_request := r\<rparr>;
              wd = wd\<lparr>wd_queries := (wd_queries wd)[i := q]\<rparr>
          in if ok then
               if cx_callbacks (wd_ctx wd) = FD_NONE then
                 rbind (netresolve_epoll_install True (wd_os wd) (wd_ctx wd)) (\<lambda>(_, o1, c).
                   Inr (Some i, wd\<lparr>wd_os := o1, wd_ctx := c\<rparr>))
               else Inr (Some i, wd)
             else rbind (free_query n C i wd) (\<lambda>wd. Inr (None, wd))))) (made l)"
      using p by (auto simp: Let_def split: prod.splits)
  qed
qed

lemma query_start_new_count:
  assumes "counts l wd" shows "returns UNIV (query_start_new k n C E extra wait callback data type opts wd) (made l)"
  unfolding query_start_new_def
proof (rule returns_bind [OF prepare_query_count [OF assms]])
  fix p assume p: "made l p"
  have "returns UNIV (netresolve_query_start k n C wait l wd1) (counts (Suc l))" if "counts (Suc l) wd1" for wd1
    unfolding netresolve_query_start_def
    by (rule returns_bind [OF on_query_count [OF that]]) (simp add: epoll_wait_count)
  then have "returns UNIV (rbind (netresolve_query_start k n C wait l wd1) (\<lambda>wd. Inr (Some l, wd))) (made l)" if "counts (Suc l) wd1" for wd1
    by (rule returns_bind) (use that in auto)
  then show "returns UNIV (case p of (h, wd) \<Rightarrow> (case h of None \<Rightarrow> Inr (None, wd)
      | Some i \<Rightarrow> rbind (netresolve_query_start k n C wait i wd) (\<lambda>wd. Inr (Some i, wd)))) (made l)"
    using p by (auto split: prod.splits option.splits)
qed

lemma add_query_ok:
  assumes "asyncns_ok a" and "made (length (wd_queries (an_world a))) r" and "add_query r a = (h, a')"
  shows "asyncns_ok a'"
proof -
  obtain q wd where r: "r = (q, wd)" by (cases r)
  have fresh: "an_next a \<notin> aq_id ` set (an_queries a)" using assms(1) by (auto simp: asyncns_ok_def)
  show ?thesis
    using assms fresh by (cases q) (auto simp: r asyncns_ok_def add_query_def less_SucI)
qed

lemma pick_up_ok:
  assumes "asyncns_ok a" and "pick_up rid f a = Inr (r, a')"
  shows "asyncns_ok a'"
proof -
  let ?n = "length (wd_queries (an_world a))"
  obtain q wd where q: "find (\<lambda>q. aq_id q = rid) (an_queries a) = Some q"
      and wd: "take_query (aq_query q) f (an_world a) = Inr (r, wd)"
      and a': "a' = a\<lparr>an_world := wd, an_queries := map (\<lambda>x. if aq_query x > aq_query q then x\<lparr>aq_query := aq_query x - 1\<rparr> else x)
           (filter (\<lambda>x. aq_id x \<noteq> rid) (an_queries a))\<rparr>"
    using assms(2) by (auto simp: pick_up_def remove_query_def find_query_def split: option.splits prod.splits)
  obtain i where i: "i < length (an_queries a)" "q = an_queries a ! i" "aq_id q = rid"
    using q by (auto simp: find_Some_iff)
  have ok: "map aq_query (an_queries a) = [0..<?n]" "distinct (map aq_id (an_queries a))" "\<forall>q \<in> set (an_queries a). aq_id q < an_next a"
    using assms(1) by (auto simp: asyncns_ok_def)
  have len: "length (an_queries a) = ?n" using arg_cong [OF ok(1), of length] by simp
  have qi: "aq_query q = i" using i(1,2) ok(1) len by (metis add_0 nth_map nth_upt)
  have "counts (?n - 1) wd" using take_query_count [OF refl, of "aq_query q" f "an_world a"] wd by simp
  moreover have "map (\<lambda>x. if aq_query x > i then aq_query x - 1 else aq_query x) (filter (\<lambda>x. aq_id x \<noteq> rid) (an_queries a)) = [0..<?n - 1]"
    by (rule remove_nth_upt [OF ok(1) _ ok(2)]) (use i len in auto)
  moreover have "aq_query (if aq_query x > i then x\<lparr>aq_query := aq_query x - 1\<rparr> else x) = (if aq_query x > i then aq_query x - 1 else aq_query x)"
      "aq_id (if aq_query x > i then x\<lparr>aq_query := aq_query x - 1\<rparr> else x) = aq_id x" for x
    by simp_all
  then have "map aq_query (an_queries a') = map (\<lambda>x. if aq_query x > i then aq_query x - 1 else aq_query x) (filter (\<lambda>x. aq_id x \<noteq> rid) (an_queries a))"
      "map aq_id (an_queries a') = map aq_id (filter (\<lambda>x. aq_id x \<noteq> rid) (an_queries a))"
    unfolding a' qi by (simp_all add: o_def)
  moreover have "distinct (map aq_id (filter (\<lambda>x. aq_id x \<noteq> rid) (an_queries a)))" using ok(2) by (rule distinct_map_filter)
  moreover have "aq_id x < an_next a" if "x \<in> set (an_queries a')" for x
    using that ok(3) unfolding a' by auto
  moreover have "an_world a' = wd" "an_next a' = an_next a" by (simp_all add: a')
  ultimately show ?thesis by (simp add: asyncns_ok_def)
qed

lemma getaddrinfo_count:
  assumes "counts l wd" shows "returns UNIV (netresolve_query_getaddrinfo k n C E extra wait node serv hints cb data wd) (made l)"
  unfolding netresolve_query_getaddrinfo_def Let_def
proof (rule returns_bind [OF query_start_new_count [OF assms]])
  fix p assume p: "made l p"
  obtain q wd1 where q: "p = (q, wd1)" by (cases p)
  have "returns UNIV (rbind (on_query i f wd1) (\<lambda>wd. Inr (Some i, wd))) (made l)" if "made l (Some i, wd1)" for i f
    by (rule returns_bind [OF on_query_count]) (use that in auto)
  then show "returns UNIV (case p of (q, wd) \<Rightarrow>
      if ai_flags (case hints of None \<Rightarrow> zero_hints | Some h \<Rightarrow> h) AND AI_CANONNAME = 0
      then (case q of None \<Rightarrow> Inl Null_dereference
           | Some i \<Rightarrow> rbind (on_query i (\<lambda>s. Inr (upd_response (\<lambda>r. r\<lparr>rs_nodename := Some []\<rparr>) s)) wd) (\<lambda>wd. Inr (q, wd)))
      else Inr (q, wd)) (made l)"
    using p q by (cases q) simp_all
qed

lemma getnameinfo_count:
  "counts l wd \<Longrightarrow> returns UNIV (netresolve_query_getnameinfo k n C E extra wait sa salen flags cb data wd) (made l)"
  by (auto simp: netresolve_query_getnameinfo_def netresolve_query_reverse_def Let_def query_start_new_count split: sockaddr.splits)

section \<open>Histories\<close>

text \<open>What an application can do with the front end, one call at a time.\<close>

inductive asyncns_step :: "nat \<Rightarrow> nat \<Rightarrow> code \<Rightarrow> env \<Rightarrow> string \<Rightarrow> epoll_wait \<Rightarrow> asyncns \<Rightarrow> asyncns \<Rightarrow> bool"
  for k n C E extra wait where
  step_getaddrinfo: "asyncns_getaddrinfo k n C E extra wait node service hints a = Inr (h, a') \<Longrightarrow> asyncns_step k n C E extra wait a a'"
| step_getnameinfo: "asyncns_getnameinfo k n C E extra wait sa salen flags a = Inr (h, a') \<Longrightarrow> asyncns_step k n C E extra wait a a'"
| step_res_query: "asyncns_res_query k n C E extra wait dname cls type a = Inr (h, a') \<Longrightarrow> asyncns_step k n C E extra wait a a'"
| step_getaddrinfo_done: "asyncns_getaddrinfo_done n C rid a = Inr (r, a') \<Longrightarrow> asyncns_step k n C E extra wait a a'"
| step_getnameinfo_done: "asyncns_getnameinfo_done n C rid host serv a = Inr (r, a') \<Longrightarrow> asyncns_step k n C E extra wait a a'"
| step_res_done: "asyncns_res_done n C rid a = Inr (answer, a') \<Longrightarrow> asyncns_step k n C E extra wait a a'"
| step_cancel: "asyncns_cancel n C rid a = Inr a' \<Longrightarrow> asyncns_step k n C E extra wait a a'"
| step_wait: "asyncns_wait k n C wait block a = Inr a' \<Longrightarrow> asyncns_step k n C E extra wait a a'"
| step_setuserdata: "asyncns_step k n C E extra wait a (asyncns_setuserdata rid data a)"

inductive asyncns_reachable :: "nat \<Rightarrow> nat \<Rightarrow> code \<Rightarrow> env \<Rightarrow> string \<Rightarrow> epoll_wait \<Rightarrow> asyncns \<Rightarrow> bool"
  for k n C E extra wait where
  reach_new: "asyncns_new E o1 = Inr a \<Longrightarrow> asyncns_reachable k n C E extra wait a"
| reach_step: "asyncns_reachable k n C E extra wait a \<Longrightarrow> asyncns_step k n C E extra wait a a' \<Longrightarrow> asyncns_reachable k n C E extra wait a'"

lemma made_ok: "returns UNIV r (made (length (wd_queries (an_world a)))) \<Longrightarrow> asyncns_ok a \<Longrightarrow>
    rbind r (\<lambda>r. Inr (add_query r a)) = Inr (h, a') \<Longrightarrow> asyncns_ok a'"
  using add_query_ok by (cases r) auto

lemma asyncns_step_ok: "asyncns_step k n C E extra wait a a' \<Longrightarrow> asyncns_ok a \<Longrightarrow> asyncns_ok a'"
proof (induction rule: asyncns_step.induct)
  case step_getaddrinfo
  then show ?case using made_ok [OF getaddrinfo_count [OF refl]] by (simp add: asyncns_getaddrinfo_def)
next
  case step_getnameinfo
  then show ?case using made_ok [OF getnameinfo_count [OF refl]] by (simp add: asyncns_getnameinfo_def)
next
  case step_res_query
  then show ?case using made_ok [OF query_start_new_count [OF refl]] by (simp add: asyncns_res_query_def netresolve_query_dns_def)
next
  case step_getaddrinfo_done
  then show ?case using pick_up_ok by (simp add: asyncns_getaddrinfo_done_def)
next
  case (step_getnameinfo_done rid host serv a r a')
  then show ?case using pick_up_ok by (auto simp: asyncns_getnameinfo_done_def)
next
  case step_res_done
  then show ?case using pick_up_ok by (simp add: asyncns_res_done_def)
next
  case (step_cancel rid a a')
  then show ?case using pick_up_ok by (auto simp: asyncns_cancel_def)
next
  case (step_wait block a a')
  then obtain wd where wd: "(if block then netresolve_epoll_wait else netresolve_epoll_dispatch) k n C wait (an_world a) = Inr wd"
    "a' = a\<lparr>an_world := wd\<rparr>" by (auto simp: asyncns_wait_def)
  have "counts (length (wd_queries (an_world a))) wd"
    using wd(1) returnsD [OF epoll_wait_count [OF refl]] returnsD [OF epoll_dispatch_count [OF refl]] by (cases block) auto
  then show ?case using step_wait(2) by (simp add: asyncns_ok_def wd(2))
next
  case (step_setuserdata a rid data)
  let ?f = "\<lambda>q. if aq_id q = rid then q\<lparr>aq_userdata := data\<rparr> else q"
  have f: "aq_query \<circ> ?f = aq_query" "aq_id \<circ> ?f = aq_id" by auto
  have "\<forall>q \<in> set (map ?f (an_queries a)). aq_id q < an_next a" using step_setuserdata by (auto simp: asyncns_ok_def)
  then show ?case using step_setuserdata by (simp add: asyncns_ok_def asyncns_setuserdata_def f)
qed

text \<open>
  C35: in every history of the front end each pending request owns exactly one query of the context,
  all queries have a request, in the same order, and no two requests are confused: whatever is
  requested, completed, cancelled or waited for in between.
\<close>

theorem asyncns_requests_own_queries:
  assumes "asyncns_reachable k n C E extra wait a"
  shows "map aq_query (an_queries a) = [0..<length (wd_queries (an_world a))] \<and>
    distinct (map aq_id (an_queries a)) \<and> asyncns_getnqueries a = length (wd_queries (an_world a))"
proof -
  have "asyncns_ok a" using assms
  proof (induction rule: asyncns_reachable.induct)
    case (reach_new o1 a)
    then show ?case by (auto simp: asyncns_new_def asyncns_ok_def)
  qed (rule asyncns_step_ok)
  then show ?thesis using map_eq_imp_length_eq [of aq_query "an_queries a" "\<lambda>x. x"] by (auto simp: asyncns_ok_def asyncns_getnqueries_def)
qed

theorem asyncns_requests_own_queries_witness:
  "\<exists>a. asyncns_reachable 2 5 (local_code blocking_env [] reading_callback) blocking_env [] ready_all a \<and>
    asyncns_getnqueries a = 1 \<and> map aq_query (an_queries a) = [0] \<and> length (wd_queries (an_world a)) = 1"
proof -
  let ?C = "local_code blocking_env [] reading_callback"
  let ?run = "asyncns_getaddrinfo 2 5 ?C blocking_env [] ready_all (Some ''localhost'') None None"
  have "returns {} (rbind (asyncns_new blocking_env (s_os initial_sys)) ?run) (\<lambda>(h, a). asyncns_getnqueries a = 1)"
    by code_simp
  then obtain a0 h a where a: "asyncns_new blocking_env (s_os initial_sys) = Inr a0" "?run a0 = Inr (h, a)" "asyncns_getnqueries a = 1"
    by (auto dest!: returns_noneE)
  have r: "asyncns_reachable 2 5 ?C blocking_env [] ready_all a" using a(1,2) by (blast intro: reach_new reach_step step_getaddrinfo)
  from asyncns_requests_own_queries [OF r] have own: "map aq_query (an_queries a) = [0..<length (wd_queries (an_world a))]"
    and "asyncns_getnqueries a = length (wd_queries (an_world a))" by blast+
  with a(3) have l: "length (wd_queries (an_world a)) = 1" by metis
  have "map aq_query (an_queries a) = [0]" unfolding own l by simp
  then show ?thesis by (intro exI [of _ a] conjI r a(3) l)
qed


end
