(* ===== verification/Backend_Asyncns.thy ===== *)
theory Backend_Asyncns
  imports Backends_Local
begin

text \<open>
  The backend that asks libasyncns, \<open>backends/asyncns.c\<close>. The library runs the request in
  another process; what its functions answer is a parameter. The watch of its descriptor is added
  without keeping a handle, so that the backend never removes it.
\<close>

record asyncns_env =
  ax_new :: bool
  ax_getaddrinfo :: "string option \<Rightarrow> string option \<Rightarrow> addrinfo \<Rightarrow> bool"
  ax_fd :: int
  ax_next :: "nat \<Rightarrow> (int \<times> addrinfo list) option"

definition asyncns_dispatch :: "asyncns_env \<Rightarrow> env \<Rightarrow> set_state \<Rightarrow> sys \<Rightarrow> sys res" where
  "asyncns_dispatch A E ss s =
     rbind (netresolve_backend_get_priv s) (\<lambda>p.
       (case p of
          None \<Rightarrow> Inl Null_dereference
        | Some _ \<Rightarrow>
            (let next = ax_next A (os_clock (s_os s)); s = upd_os (\<lambda>o1. o1\<lparr>os_clock := Suc (os_clock o1)\<rparr>) s
             in case next of
                  None \<Rightarrow> Inr s
                | Some (status, result) \<Rightarrow> netresolve_backend_apply_addrinfo E ss status result 0 s)))"

text \<open>The cleanup frees the handle, which is missing when it could not be created.\<close>

definition asyncns_cleanup :: "asyncns_env \<Rightarrow> priv option \<Rightarrow> sys \<Rightarrow> sys res" where
  "asyncns_cleanup A data s =
     (case data of None \<Rightarrow> Inl Null_dereference | Some _ \<Rightarrow> if ax_new A then Inr s else Inl Null_dereference)"

definition asyncns_query_forward :: "asyncns_env \<Rightarrow> set_state \<Rightarrow> sys \<Rightarrow> sys res" where
  "asyncns_query_forward A ss s =
     rbind (netresolve_backend_new_priv (Priv 0) s) (\<lambda>s.
       if \<not> ax_new A then netresolve_backend_failed ss s
       else if \<not> ax_getaddrinfo A (netresolve_backend_get_nodename s) (netresolve_backend_get_servname s)
                 (netresolve_backend_get_addrinfo_hints s) then netresolve_backend_failed ss s
       else rbind (netresolve_watch_add (ax_fd A) POLLIN (CB_backend ''asyncns'') DATA_NULL s) (\<lambda>(w, s). Inr s))"

text \<open>
  The backend leaves its watch behind: whatever its cleanup is given, the watches of the query stay
  as they are, although the handle they belong to is gone.
\<close>

lemma asyncns_cleanup_keeps_watches:
  "asyncns_cleanup A data s = Inr s' \<Longrightarrow> q_watches (s_query s') = q_watches (s_query s)"
  by (auto simp: asyncns_cleanup_def split: option.splits if_splits)

end
