(* ===== verification/Connecting.thy ===== *)
theory Connecting
  imports Socket
begin

text \<open>
  Connecting ends: the routines of \<open>lib/socket.c\<close> that choose the next connection call each
  other in a circle, and each round through the circle has attempted one more path.
\<close>

section \<open>Routines that never run out of fuel\<close>

abbreviation ends :: "'a res \<Rightarrow> ('a \<Rightarrow> bool) \<Rightarrow> bool" where
  "ends \<equiv> returns (- {Out_of_fuel})"

lemma ends_iff: "ends r P \<longleftrightarrow> r \<noteq> Inl Out_of_fuel \<and> (\<forall>x. r = Inr x \<longrightarrow> P x)"
  by (cases r) auto

lemma loops_end:
  "epoll_add_watch l fd ev w \<noteq> Inl Out_of_fuel" "epoll_remove_watch l fd w \<noteq> Inl Out_of_fuel"
  "select_add_watch ls fd ev w \<noteq> Inl Out_of_fuel" "select_remove_watch ls fd h \<noteq> Inl Out_of_fuel"
  by (simp_all add: epoll_add_watch_def epoll_remove_watch_def select_add_watch_def select_remove_watch_def Let_def
      assert_that_def split: option.splits prod.splits)

lemma watch_calls_end: "call_add_watch s fd ev w \<noteq> Inl Out_of_fuel" "call_remove_watch s fd w \<noteq> Inl Out_of_fuel"
  by (auto simp: call_add_watch_def call_remove_watch_def loops_end split: fd_callbacks.splits)

lemma base_response: "base s' = base s \<Longrightarrow> response_of s' = response_of s"
proof -
  assume "base s' = base s"
  then have "q_response (s_query (base s')) = q_response (s_query (base s))" by simp
  then show ?thesis by (simp add: base_def)
qed

lemma watch_add_ends: "ends (netresolve_watch_add fd ev cb d s) (\<lambda>(w, s'). response_of s' = response_of s)"
  unfolding ends_iff using watch_calls_end base_response [OF base_watch_add]
  by (auto simp: netresolve_watch_add_def Let_def assert_that_def)

lemma watch_remove_ends: "ends (netresolve_watch_remove w cl s) (\<lambda>s'. response_of s' = response_of s)"
  unfolding ends_iff using watch_calls_end base_response [OF base_watch_remove]
  by (auto simp: netresolve_watch_remove_def Let_def assert_that_def split: option.splits)

lemma timeout_add_ends: "ends (netresolve_timeout_add sec nsec cb d s) (\<lambda>(w, s'). response_of s' = response_of s)"
  unfolding ends_iff using watch_add_ends base_response [OF base_timeout_add]
  by (auto simp: netresolve_timeout_add_def Let_def ends_iff split: option.splits)

section \<open>Paths that have not been attempted\<close>

definition untried :: "sys \<Rightarrow> nat" where
  "untried s = length (filter (\<lambda>p. socket_state p = SOCKET_STATE_NONE) (path_list (response_of s)))"

definition at_most :: "nat \<Rightarrow> nat \<Rightarrow> sys \<Rightarrow> bool" where
  "at_most l k s \<longleftrightarrow> length (path_list (response_of s)) = l \<and> untried s \<le> k"

lemma at_most_response: "response_of s' = response_of s \<Longrightarrow> at_most l k s' \<longleftrightarrow> at_most l k s"
  by (simp add: at_most_def untried_def)

lemma at_most_mono: "at_most l k s \<Longrightarrow> k \<le> k' \<Longrightarrow> at_most l k' s"
  by (simp add: at_most_def)

lemma path_list_upd_path: "path_list (response_of (upd_path i f s)) = (path_list (response_of s))[i := f (path_at i s)]"
  by (cases "rs_paths (response_of s)") (simp_all add: upd_path_def path_list_def path_at_def upd_response_def upd_query_def)

lemma filter_update_le:
  "(P y \<Longrightarrow> P (xs ! i)) \<Longrightarrow> length (filter P (xs[i := y])) \<le> length (filter P xs)"
proof (induction xs arbitrary: i)
  case (Cons x xs)
  then show ?case by (cases i) (auto simp: le_SucI)
qed simp

lemma filter_update_less:
  assumes "i < length xs" and "P (xs ! i)" and "\<not> P y"
  shows "length (filter P xs) = Suc (length (filter P (xs[i := y])))"
proof -
  have "length (filter P xs) = length (filter P (take i xs @ xs ! i # drop (Suc i) xs))"
    using id_take_nth_drop [OF assms(1)] by simp
  then show ?thesis using assms by (simp add: upd_conv_take_nth_drop)
qed

lemma at_most_upd_path:
  "at_most l k s \<Longrightarrow> (socket_state (f (path_at i s)) = SOCKET_STATE_NONE \<Longrightarrow> socket_state (path_at i s) = SOCKET_STATE_NONE) \<Longrightarrow>
   at_most l k (upd_path i f s)"
  using filter_update_le [of "\<lambda>p. socket_state p = SOCKET_STATE_NONE" "f (path_at i s)" "path_list (response_of s)" i]
  by (simp add: at_most_def untried_def path_list_upd_path) (simp add: path_at_def)

lemma at_most_attempt:
  assumes "at_most l k s" and "i < l" and "socket_state (path_at i s) = SOCKET_STATE_NONE" and "socket_state (f (path_at i s)) \<noteq> SOCKET_STATE_NONE"
  shows "k > 0 \<and> at_most l (k - 1) (upd_path i f s)"
  using filter_update_less [of i "path_list (response_of s)" "\<lambda>p. socket_state p = SOCKET_STATE_NONE" "f (path_at i s)"] assms
  by (auto simp: at_most_def untried_def path_list_upd_path path_at_def)

lemma path_at_response: "response_of s' = response_of s \<Longrightarrow> path_at i s' = path_at i s"
  by (simp add: path_at_def)

lemma path_at_upd_path: "i < length (path_list (response_of s)) \<Longrightarrow> path_at i (upd_path i f s) = f (path_at i s)"
  using path_list_upd_path [of i f s] by (simp add: path_at_def)

lemma response_upd_socket [simp]: "response_of (upd_socket f s) = response_of s"
  by (simp add: upd_socket_def upd_query_def)

lemma get_socket_ends: "ends (get_socket s) (\<lambda>_. True)"
  by (simp add: get_socket_def split: user_data.splits)

lemma clear_timeouts_ends: "ends (clear_timeouts s) (\<lambda>s'. response_of s' = response_of s)"
proof -
  have "ends (rbind (netresolve_timeout_remove w t) (\<lambda>s. Inr (upd_socket f s))) (\<lambda>s'. response_of s' = response_of s)"
    if "response_of t = response_of s" for w t f
    unfolding netresolve_timeout_remove_def by (rule returns_bind [OF watch_remove_ends]) (simp add: that)
  then show ?thesis unfolding clear_timeouts_def
    by (intro returns_bind [OF get_socket_ends] returns_bind [where P = "\<lambda>s'. response_of s' = response_of s"]) (auto split: option.splits)
qed

lemma ensure_timeout_ends: "ends (ensure_timeout E s) (\<lambda>s'. response_of s' = response_of s)"
  unfolding ensure_timeout_def
  by (intro returns_bind [OF get_socket_ends] returns_if returns_bind [OF timeout_add_ends]) (auto split: prod.splits)

lemma priority_timeout_ends: "ends (schedule_priority_timeout E is s) (\<lambda>s'. response_of s' = response_of s)"
  unfolding schedule_priority_timeout_def
  by (intro returns_bind [OF get_socket_ends] returns_if returns_bind [OF timeout_add_ends]) (auto split: prod.splits)

lemma at_most_watch:
  "at_most l k s \<Longrightarrow> response_of s' = response_of s \<Longrightarrow> at_most l k (upd_path i (\<lambda>p. p\<lparr>socket_watch := w\<rparr>) s')"
  by (rule at_most_upd_path) (simp_all add: at_most_def untried_def)

lemma socket_watch_add_ends:
  assumes "at_most l k s" shows "ends (socket_watch_add i ev cb s) (at_most l k)"
  unfolding socket_watch_add_def
  by (rule returns_bind [OF watch_add_ends]) (use at_most_watch [OF assms] in \<open>simp split: prod.splits\<close>)

lemma watch_gone_ends:
  assumes "at_most l k s"
  shows "ends (rbind (netresolve_watch_remove w False s) (\<lambda>s. Inr (upd_path i (\<lambda>p. p\<lparr>socket_watch := None\<rparr>) s))) (at_most l k)"
  by (rule returns_bind [OF watch_remove_ends]) (use at_most_watch [OF assms] in simp)

lemma socket_pause_ends: "at_most l k s \<Longrightarrow> ends (socket_pause i s) (at_most l k)"
  using watch_gone_ends by (auto simp: socket_pause_def assert_that_def split: option.splits)

lemma socket_resume_ends: "at_most l k s \<Longrightarrow> ends (socket_resume i ev cb s) (at_most l k)"
  unfolding socket_resume_def by (simp add: assert_that_def socket_watch_add_ends)

text \<open>Scheduling and cleaning up attempt a path.\<close>

lemma socket_schedule_ends:
  assumes "at_most l k s" shows "ends (socket_schedule i ev cb s) (at_most l k)"
proof -
  have "at_most l k (upd_path i (\<lambda>p. p\<lparr>socket_state := SOCKET_STATE_SCHEDULED\<rparr>) s)" by (rule at_most_upd_path [OF assms]) simp
  then show ?thesis by (simp add: socket_schedule_def assert_that_def socket_watch_add_ends)
qed

lemma close_fd_response [simp]: "response_of (close_fd fd s) = response_of s"
  by (simp add: close_fd_def)

lemma cleanup_rest_ends:
  assumes "at_most l k s"
  shows "ends (rbind (case socket_watch (path_at i s) of None \<Rightarrow> Inr s
      | Some w \<Rightarrow> rbind (netresolve_watch_remove w False s) (\<lambda>s. Inr (upd_path i (\<lambda>p. p\<lparr>socket_watch := None\<rparr>) s))) (\<lambda>s.
        Inr (if socket_fd (path_at i s) \<noteq> - 1 then upd_path i (\<lambda>p. p\<lparr>socket_fd := - 1\<rparr>) (close_fd (socket_fd (path_at i s)) s) else s)))
    (at_most l k)"
proof (rule returns_bind)
  show "ends (case socket_watch (path_at i s) of None \<Rightarrow> Inr s
      | Some w \<Rightarrow> rbind (netresolve_watch_remove w False s) (\<lambda>s. Inr (upd_path i (\<lambda>p. p\<lparr>socket_watch := None\<rparr>) s))) (at_most l k)"
    using assms watch_gone_ends by (auto split: option.splits)
next
  fix t assume t: "at_most l k t"
  have "at_most l k (close_fd fd t)" for fd using t by (simp add: at_most_def untried_def)
  then show "ends (Inr (if socket_fd (path_at i t) \<noteq> - 1 then upd_path i (\<lambda>p. p\<lparr>socket_fd := - 1\<rparr>) (close_fd (socket_fd (path_at i t)) t) else t)) (at_most l k)"
    using t by (auto intro!: at_most_upd_path)
qed

lemma socket_cleanup_ends:
  assumes "at_most l k (upd_path i (\<lambda>p. p\<lparr>socket_state := SOCKET_STATE_DONE\<rparr>) s)" shows "ends (socket_cleanup i s) (at_most l k)"
  unfolding socket_cleanup_def Let_def by (rule cleanup_rest_ends [OF assms])

section \<open>The circle\<close>

text \<open>
  The application does not undo attempts: after its callback no more paths are untried than before.
\<close>

definition modest :: "net \<Rightarrow> bool" where
  "modest N \<longleftrightarrow> (\<forall>l k cb i fd s. at_most l k s \<longrightarrow> ends (n_callback N cb i fd s) (at_most l k))"

text \<open>The recursive call, on states with at most so many untried paths.\<close>

definition enables :: "nat \<Rightarrow> nat \<Rightarrow> (sys \<Rightarrow> sys res) \<Rightarrow> bool" where
  "enables l k enable \<longleftrightarrow> (\<forall>s. at_most l k s \<longrightarrow> ends (enable s) (at_most l k))"

lemma pass_socket_ends:
  assumes "modest N" and "at_most l k s" shows "ends (pass_socket N i is s) (at_most l k)"
proof -
  let ?s = "upd_path i (\<lambda>p. p\<lparr>socket_state := SOCKET_STATE_DONE, socket_fd := - 1\<rparr>) s"
  have "at_most l k ?s" by (rule at_most_upd_path [OF assms(2)]) simp
  then have loop: "ends (foreach (\<lambda>j s. if socket_state (path_at j s) = SOCKET_STATE_SCHEDULED then socket_pause j s else Inr s) is ?s) (at_most l k)"
    by (intro returns_foreach) (simp_all add: socket_pause_ends)
  show ?thesis unfolding pass_socket_def Let_def
  proof (rule returns_bind [OF loop], rule returns_bind [OF get_socket_ends])
    fix t priv assume t: "at_most l k t"
    let ?t = "if so_priority_timeout priv \<noteq> None then upd_socket (\<lambda>p. p\<lparr>so_skip_scheduled := False\<rparr>) t else t"
    have "ends (case so_callback priv of None \<Rightarrow> Inl Null_dereference
        | Some cb \<Rightarrow> n_callback N cb i fd (upd_os (\<lambda>o1. o1\<lparr>os_sockets := os_sockets o1 @ [(i, fd)]\<rparr>) u)) (at_most l k)"
      if "response_of u = response_of ?t" for u fd
    proof -
      have "at_most l k (upd_os (\<lambda>o1. o1\<lparr>os_sockets := os_sockets o1 @ [(i, fd)]\<rparr>) u)"
        using t that by (simp add: at_most_def untried_def)
      then show ?thesis using assms(1) by (auto simp: modest_def split: option.splits)
    qed
    then show "ends (rbind (clear_timeouts ?t) (\<lambda>s. case so_callback priv of None \<Rightarrow> Inl Null_dereference
        | Some cb \<Rightarrow> n_callback N cb i (socket_fd (path_at i s0)) (upd_os (\<lambda>o1. o1\<lparr>os_sockets := os_sockets o1 @ [(i, socket_fd (path_at i s0))]\<rparr>) s))) (at_most l k)" for s0
      by (rule returns_bind [OF clear_timeouts_ends])
  qed
qed

lemma scan_paths_ends: "at_most l k s \<Longrightarrow> ends (scan_paths s) (\<lambda>is. \<forall>i \<in> set is. i < l)"
  using length_takeWhile_le [of "\<lambda>p. node_family p \<noteq> 0" "path_list (response_of s)"]
  by (auto simp: scan_paths_def at_most_def path_list_def split: option.splits)

lemma pickup_ends:
  assumes "modest N" and "enables l k enable" and s: "at_most l k s"
  shows "ends (pickup_connected_socket E N enable s) (at_most l k)"
  unfolding pickup_connected_socket_def
proof (rule returns_bind [OF scan_paths_ends [OF s]], rule returns_bind [OF get_socket_ends])
  fix "is" priv
  have "ends (rbind (schedule_priority_timeout E is s) enable) (at_most l k)"
    by (rule returns_bind [OF priority_timeout_ends]) (use assms(2) s in \<open>simp add: enables_def at_most_def untried_def\<close>)
  then show "ends (case find (\<lambda>i. socket_state (path_at i s) = SOCKET_STATE_SCHEDULED \<and> \<not> so_skip_scheduled priv \<or>
                       socket_state (path_at i s) = SOCKET_STATE_READY) is of
          None \<Rightarrow> enable s
        | Some i \<Rightarrow> if socket_state (path_at i s) = SOCKET_STATE_READY then pass_socket N i is s
            else rbind (schedule_priority_timeout E is s) enable) (at_most l k)"
    using pass_socket_ends [OF assms(1) s] assms(2) s by (auto simp: enables_def split: option.splits)
qed

text \<open>The result of an attempt to connect a path: another round has one untried path less.\<close>

lemma connect_check_ends:
  assumes "modest N" and "k > 0 \<Longrightarrow> enables l (k - 1) enable" and s: "at_most l k s" and "i < l"
    and none: "socket_state (path_at i s) = SOCKET_STATE_NONE"
  shows "ends (connect_check E N enable i errno s) (at_most l k)"
proof -
  have more: "ends (pickup_connected_socket E N enable t) (at_most l k)" if "at_most l (k - 1) t" "k > 0" for t
    by (rule returns_mono [OF pickup_ends [OF assms(1) assms(2) [OF that(2)] that(1)]]) (auto intro: at_most_mono)
  have ready: "k > 0 \<and> at_most l (k - 1) (upd_path i (\<lambda>p. p\<lparr>socket_state := st\<rparr>) s)" if "st \<noteq> SOCKET_STATE_NONE" for st
    by (rule at_most_attempt [OF s \<open>i < l\<close> none]) (simp add: that)
  have "ends (rbind (socket_cleanup i s) (pickup_connected_socket E N enable)) (at_most l k)"
    by (rule returns_bind [OF socket_cleanup_ends]) (use ready [of SOCKET_STATE_DONE] more in auto)
  then show ?thesis
    using socket_schedule_ends [OF s] more ready [of SOCKET_STATE_READY] none by (auto simp: connect_check_def)
qed

lemma get_sockaddr_ends: "ends (netresolve_query_get_sockaddr q i) (\<lambda>(_, _, _, _, q'). q_response q' = q_response q)"
  by (cases "i < netresolve_query_get_count q") (simp_all add: netresolve_query_get_sockaddr_def netresolve_query_get_node_info_def
      netresolve_query_get_service_info_def netresolve_query_get_aux_info_def get_path_def Let_def assert_that_def)

lemma sys_socket_response: "sys_socket N f t p s = (fd, e, s') \<Longrightarrow> response_of s' = response_of s"
  by (auto simp: sys_socket_def Let_def tick_def split: if_splits option.splits)

lemma connect_start_ends:
  assumes "modest N" and "k > 0 \<Longrightarrow> enables l (k - 1) enable" and s: "at_most l k s" and "i < l"
  shows "ends (connect_start E N enable i s) (at_most l k)"
proof (cases "socket_state (path_at i s) = SOCKET_STATE_NONE")
  case True
  have check: "ends (connect_check E N enable i errno (g (upd_path i (\<lambda>p. p\<lparr>socket_fd := fd\<rparr>) t))) (at_most l k)"
    if t: "response_of t = response_of s" and g: "\<And>u. response_of (g u) = response_of u" for t fd errno g
  proof (rule connect_check_ends [OF assms(1,2) _ \<open>i < l\<close>])
    have "at_most l k t" using s t by (simp add: at_most_def untried_def)
    then have "at_most l k (upd_path i (\<lambda>p. p\<lparr>socket_fd := fd\<rparr>) t)" by (rule at_most_upd_path) simp
    then show "at_most l k (g (upd_path i (\<lambda>p. p\<lparr>socket_fd := fd\<rparr>) t))" using g by (simp add: at_most_def untried_def)
    have "path_at i (upd_path i (\<lambda>p. p\<lparr>socket_fd := fd\<rparr>) t) = (path_at i t)\<lparr>socket_fd := fd\<rparr>"
      by (rule path_at_upd_path) (use s t \<open>i < l\<close> in \<open>simp add: at_most_def\<close>)
    then show "socket_state (path_at i (g (upd_path i (\<lambda>p. p\<lparr>socket_fd := fd\<rparr>) t))) = SOCKET_STATE_NONE"
      using True path_at_response [OF g] path_at_response [OF t] by simp
  qed
  have "ends (rbind (netresolve_query_get_sockaddr (s_query s) i) (\<lambda>(sa, socktype, protocol, ttl, q).
       (let s = s\<lparr>s_query := q\<rparr>
        in case sa of
             None \<Rightarrow> Inr s
           | Some a \<Rightarrow>
               (case sys_socket N (sa_family a) (socktype OR O_NONBLOCK) protocol s of (fd, errno, s) \<Rightarrow>
                 (let s = upd_path i (\<lambda>p. p\<lparr>socket_fd := fd\<rparr>) s
                  in if errno = 0 then connect_check E N enable i (n_connect N (clock s) fd a) (tick s)
                     else connect_check E N enable i errno s))))) (at_most l k)"
    using check [where g = tick] check [where g = "\<lambda>u. u"] s
    by (intro returns_bind [OF get_sockaddr_ends])
      (auto simp: Let_def tick_def at_most_def untried_def dest!: sys_socket_response split: option.splits prod.splits)
  then show ?thesis by (simp add: connect_start_def True)
qed (simp add: connect_start_def)

lemma enable_loop_ends:
  assumes "modest N" and "k > 0 \<Longrightarrow> enables l (k - 1) enable" and "at_most l k s" and "\<forall>i \<in> set is. i < l"
  shows "ends (enable_loop E N enable is ip4 ip6 s) (\<lambda>(_, _, s'). at_most l k s')"
  using assms(3,4)
proof (induction "is" arbitrary: ip4 ip6 s)
  case (Cons i "is")
  let ?p = "path_at i s"
  let ?ip4 = "if node_family ?p = AF_INET then Suc ip4 else ip4" and ?ip6 = "if node_family ?p = AF_INET6 then Suc ip6 else ip6"
  have IH: "ends (enable_loop E N enable is a b t) (\<lambda>(_, _, s'). at_most l k s')" if "at_most l k t" for a b t
    using Cons.IH that Cons.prems(2) by simp
  have rest: "ends (rbind (get_socket t) (\<lambda>priv. if so_sequential_connect priv then Inr (?ip4, ?ip6, t)
      else enable_loop E N enable is ?ip4 ?ip6 t)) (\<lambda>(_, _, s'). at_most l k s')" if "at_most l k t" for t
    by (rule returns_bind [OF get_socket_ends]) (use IH that in simp)
  have attempt: "ends (if socket_state (path_at i t) = SOCKET_STATE_NONE then connect_start E N enable i t
      else if socket_state (path_at i t) = SOCKET_STATE_SCHEDULED \<and> socket_watch (path_at i t) = None
      then socket_resume i POLLOUT CB_connect_ready t else Inr t) (at_most l k)" if "at_most l k t" for t
    using connect_start_ends [OF assms(1,2) that, of i] socket_resume_ends [OF that] that Cons.prems(2) by simp
  have "ends (rbind (ensure_timeout E s) (\<lambda>s.
      rbind (if socket_state (path_at i s) = SOCKET_STATE_NONE then connect_start E N enable i s
             else if socket_state (path_at i s) = SOCKET_STATE_SCHEDULED \<and> socket_watch (path_at i s) = None
             then socket_resume i POLLOUT CB_connect_ready s else Inr s) (\<lambda>s.
      rbind (get_socket s) (\<lambda>priv. if so_sequential_connect priv then Inr (?ip4, ?ip6, s)
        else enable_loop E N enable is ?ip4 ?ip6 s)))) (\<lambda>(_, _, s'). at_most l k s')"
  proof (rule returns_bind [OF ensure_timeout_ends], rule returns_bind [OF attempt rest])
    show "at_most l k t" if "response_of t = response_of s" for t
      using that Cons.prems(1) by (simp add: at_most_def untried_def)
  qed
  then show ?case using IH [OF Cons.prems(1)] by (simp add: Let_def)
qed simp

lemma round_ends:
  assumes "modest N" and "k > 0 \<Longrightarrow> enables l (k - 1) (enable_sockets m E N)" and s: "at_most l k s"
  shows "ends (enable_sockets (Suc m) E N s) (at_most l k)"
proof -
  have "ends (clear_timeouts t) (at_most l k)" if "at_most l k t" for t
    by (rule returns_mono [OF clear_timeouts_ends]) (use that in \<open>simp_all add: at_most_def untried_def\<close>)
  then have "ends (rbind (enable_loop E N (enable_sockets m E N) is 0 0 s) (\<lambda>(ip4, ip6, s).
      if ip4 = 0 \<and> ip6 = 0 then clear_timeouts s else Inr s)) (at_most l k)" if "\<forall>i \<in> set is. i < l" for "is"
    by (intro returns_bind [OF enable_loop_ends [OF assms(1,2) s that]]) (auto split: prod.splits)
  then show ?thesis unfolding enable_sockets.simps by (rule returns_bind [OF scan_paths_ends [OF s]])
qed

lemma enable_sockets_ends:
  assumes "modest N"
  shows "k \<le> m \<Longrightarrow> at_most l k s \<Longrightarrow> ends (enable_sockets (Suc m) E N s) (at_most l k)"
proof (induction m arbitrary: k s)
  case (Suc m k s)
  show ?case by (rule round_ends [OF assms _ Suc.prems(2)]) (use Suc.IH Suc.prems(1) in \<open>auto simp: enables_def\<close>)
qed (rule round_ends [OF assms], auto)

text \<open>
  C24: connecting ends. The library attempts the paths of a result in a circle of mutually recursive
  calls, one round for each connection that fails or succeeds at once. With one round more than paths
  that have not been attempted, the fuel of the model is never used up, whatever the kernel answers
  and whatever the application does with the sockets it gets, as long as its callback makes no
  attempted path unattempted again; and the number of unattempted paths does not grow.
\<close>

theorem connecting_ends:
  assumes "\<And>l k cb i fd s. at_most l k s \<Longrightarrow> returns (- {Out_of_fuel}) (n_callback N cb i fd s) (at_most l k)"
    and "untried s < m"
  shows "enable_sockets m E N s \<noteq> Inl Out_of_fuel \<and>
    (\<forall>s'. enable_sockets m E N s = Inr s' \<longrightarrow> untried s' \<le> untried s)"
proof -
  have "modest N" using assms(1) by (simp add: modest_def)
  moreover obtain m' where "m = Suc m'" "untried s \<le> m'" using assms(2) by (cases m) auto
  moreover have "at_most (length (path_list (response_of s))) (untried s) s" by (simp add: at_most_def)
  ultimately have "ends (enable_sockets m E N s) (at_most (length (path_list (response_of s))) (untried s))"
    using enable_sockets_ends by blast
  then show ?thesis by (auto simp: ends_iff at_most_def)
qed

section \<open>A connection over both families\<close>

definition sample_net :: net where
  "sample_net = \<lparr>n_socket = (\<lambda>_ _ _ _. 0), n_connect = (\<lambda>_ _ _. 0), n_sock_error = (\<lambda>_ _. 0), n_reuseaddr = (\<lambda>_ _. True),
     n_v6only = (\<lambda>_ _. True), n_bind = (\<lambda>_ _ _. True), n_listen = (\<lambda>_ _. True), n_accept = (\<lambda>_ _. True),
     n_fcntl = (\<lambda>_ _. True), n_callback = (\<lambda>_ _ _ s. Inr s)\<rparr>"

definition sample_connect :: sys where
  "sample_connect = initial_sys\<lparr>s_query := zero_query\<lparr>q_state := STATE_DONE,
     q_user_data := UD_socket (zero_socket\<lparr>so_callback := Some 0\<rparr>),
     q_response := zero_response\<lparr>rs_paths := Some [(sample_path AF_INET6)\<lparr>node_address := replicate 15 0 @ [1]\<rparr>,
       (sample_path AF_INET)\<lparr>node_address := [127, 0, 0, 1]\<rparr>]\<rparr>\<rparr>\<rparr>"

theorem connecting_ends_witness:
  "untried sample_connect = 2 \<and> enable_sockets 3 sample_env sample_net sample_connect \<noteq> Inl Out_of_fuel"
proof -
  have "untried sample_connect = 2" by code_simp
  then show ?thesis using connecting_ends [of sample_net sample_connect 3 sample_env] by (simp add: sample_net_def)
qed


end
